(* ===== verification/ES_Prelude.thy ===== *)
theory ES_Prelude
  imports Main "HOL-Library.Word" "HOL-Library.Sublist"
begin

text \<open>
  Shared vocabulary of the development.

  \<^item> the machine types of the C code (\<open>uint8_t\<close>, \<open>size_t\<close>, file descriptors);
  \<^item> the possible ends of a C function call (\<open>outcome\<close>): it returns, it ends its
    thread with \<open>pthread_exit\<close>, it fails an \<open>assert\<close>, it runs into undefined
    behaviour (a null call or a write out of bounds), or it never returns;
  \<^item> the allocator's answers and the functions of \<open>string.h\<close> the code uses, on
    character arrays that hold their terminating NUL byte;
  \<^item> the values of \<open>errno\<close> the code tests.
\<close>

section \<open>Machine types\<close>

type_synonym byte = "8 word"
type_synonym size_t = "64 word"

lemma unat_byte_less: "unat (b :: byte) < 256"
  by (rule less_le_trans [OF unsigned_less]) simp

lemma unat_size_less: "unat (n :: size_t) < 2 ^ 64"
  by (rule less_le_trans [OF unsigned_less]) simp

text \<open>A pointer to user data (\<open>const void *\<close>) is only passed along; 0 is \<open>NULL\<close>.\<close>

type_synonym user_data = nat

section \<open>Values of errno (Linux numbering)\<close>

definition EINTR :: int where "EINTR = 4"
definition EAGAIN :: int where "EAGAIN = 11"
definition EWOULDBLOCK :: int where "EWOULDBLOCK = 11"
definition ENOMEM :: int where "ENOMEM = 12"
definition EINVAL :: int where "EINVAL = 22"
definition EPIPE :: int where "EPIPE = 32"
definition ERANGE :: int where "ERANGE = 34"
definition ENOTSOCK :: int where "ENOTSOCK = 88"
definition ECONNABORTED :: int where "ECONNABORTED = 103"
definition ENOTCONN :: int where "ENOTCONN = 107"
definition ECONNREFUSED :: int where "ECONNREFUSED = 111"

lemmas errno_defs =
  EINTR_def EAGAIN_def EWOULDBLOCK_def ENOMEM_def EINVAL_def EPIPE_def ERANGE_def
  ENOTSOCK_def ECONNABORTED_def ENOTCONN_def ECONNREFUSED_def

section \<open>How a call ends\<close>

text \<open>
  \<open>Returns r s\<close>: the call returns \<open>r\<close> in state \<open>s\<close>. \<open>ThreadExits s\<close>: the calling
  thread ended with \<open>pthread_exit\<close>, leaving \<open>s\<close>. \<open>Aborts\<close>: a failed \<open>assert\<close> in a
  build without \<open>NDEBUG\<close>. \<open>Crashes\<close>: undefined behaviour. \<open>Hangs\<close>: the call never
  returns (an endless loop, or a lock on a mutex that nobody will release).
\<close>

datatype ('r, 's) outcome =
    Returns 'r 's
  | ThreadExits 's
  | Aborts
  | Crashes
  | Hangs

text \<open>Sequencing of calls: only a call that returns is followed by the rest.\<close>

fun call_bind ::
  "('a, 's) outcome \<Rightarrow> ('a \<Rightarrow> 's \<Rightarrow> ('b, 's) outcome) \<Rightarrow> ('b, 's) outcome" where
  "call_bind (Returns r s) k = k r s"
| "call_bind (ThreadExits s) k = ThreadExits s"
| "call_bind Aborts k = Aborts"
| "call_bind Crashes k = Crashes"
| "call_bind Hangs k = Hangs"

text \<open>
  \<open>assert(c)\<close>: nothing in a build with \<open>NDEBUG\<close> (the default of
  \<open>eventlog-socket.cabal\<close>), a check in the debug build.
\<close>

definition c_assert :: "bool \<Rightarrow> bool \<Rightarrow> ('r, 's) outcome \<Rightarrow> ('r, 's) outcome" where
  "c_assert ndebug c k = (if c \<or> ndebug then k else Aborts)"

lemma c_assert_True [simp]: "c_assert ndebug True k = k"
  by (simp add: c_assert_def)

lemma c_assert_NDEBUG [simp]: "c_assert True c k = k"
  by (simp add: c_assert_def)

lemma c_assert_False [simp]: "c_assert False False k = Aborts"
  by (simp add: c_assert_def)

lemma call_bind_Returns_iff:
  "call_bind m k = Returns r s \<longleftrightarrow> (\<exists>r' s'. m = Returns r' s' \<and> k r' s' = Returns r s)"
  by (cases m) auto

text \<open>
  How a thread ends: if the call ends its thread, the state it leaves satisfies \<open>P\<close>. The rules
  of \<open>exit_rules\<close> follow the structure of a function body.
\<close>

named_theorems exit_rules

definition exits_with :: "('s \<Rightarrow> bool) \<Rightarrow> ('r, 's) outcome \<Rightarrow> bool" where
  "exits_with P m \<longleftrightarrow> (case m of ThreadExits s \<Rightarrow> P s | _ \<Rightarrow> True)"

lemma exits_with_simps [simp]:
  "exits_with P (Returns r s)" "exits_with P Aborts" "exits_with P Crashes" "exits_with P Hangs"
  "exits_with P (ThreadExits s) = P s"
  by (simp_all add: exits_with_def)

lemma exits_with_bind [exit_rules]:
  "exits_with P m \<Longrightarrow> (\<And>r s. exits_with P (k r s)) \<Longrightarrow> exits_with P (call_bind m k)"
  by (cases m) simp_all

lemma exits_with_assert [exit_rules]: "exits_with P k \<Longrightarrow> exits_with P (c_assert nd c k)"
  by (simp add: c_assert_def)

text \<open>Likewise for calls that return: an invariant \<open>P\<close> of the state, and the rules to keep it.\<close>

named_theorems keep_rules

definition returns_with :: "('s \<Rightarrow> bool) \<Rightarrow> ('r, 's) outcome \<Rightarrow> bool" where
  "returns_with P m \<longleftrightarrow> (case m of Returns r s \<Rightarrow> P s | _ \<Rightarrow> True)"

lemma returns_with_simps [simp]:
  "returns_with P (Returns r s) = P s" "returns_with P (ThreadExits s)" "returns_with P Aborts"
  "returns_with P Crashes" "returns_with P Hangs"
  by (simp_all add: returns_with_def)

lemma returns_with_bind [keep_rules]:
  "returns_with P m \<Longrightarrow> (\<And>r s. P s \<Longrightarrow> returns_with P (k r s)) \<Longrightarrow> returns_with P (call_bind m k)"
  by (cases m) simp_all

lemma returns_with_assert [keep_rules]: "returns_with P k \<Longrightarrow> returns_with P (c_assert nd c k)"
  by (simp add: c_assert_def)

section \<open>Mutexes\<close>

text \<open>
  A mutex is the flag "locked". Critical sections do not overlap, so a call that finds the
  flag set at its start waits for a thread that has left the section without unlocking (or
  for itself): the default POSIX mutex then blocks for ever. \<open>rc\<close> is the system's return
  value; the lock is taken exactly when it is 0.
\<close>

definition mutex_blocks :: "bool \<Rightarrow> bool" where
  "mutex_blocks locked = locked"

definition mutex_after_lock :: "int \<Rightarrow> bool" where
  "mutex_after_lock rc = (rc = 0)"

definition mutex_after_unlock :: "int \<Rightarrow> bool" where
  "mutex_after_unlock rc = (rc \<noteq> 0)"

lemma mutex_after_unlock_0 [simp]: "\<not> mutex_after_unlock 0"
  by (simp add: mutex_after_unlock_def)

lemma mutex_after_lock_0 [simp]: "mutex_after_lock 0"
  by (simp add: mutex_after_lock_def)

section \<open>The allocator\<close>

text \<open>
  \<open>malloc\<close> either fails and sets \<open>errno\<close>, or returns a block whose contents are
  whatever was there before.
\<close>

datatype malloc_result =
    MallocFails int
  | MallocOk "nat \<Rightarrow> byte"

definition malloc_block :: "(nat \<Rightarrow> byte) \<Rightarrow> nat \<Rightarrow> byte list" where
  "malloc_block contents n = map contents [0..<n]"

lemma length_malloc_block [simp]: "length (malloc_block f n) = n"
  by (simp add: malloc_block_def)

text \<open>\<open>memcpy\<close> into a block; \<open>None\<close> when the write leaves the block.\<close>

definition memcpy_at :: "byte list \<Rightarrow> nat \<Rightarrow> byte list \<Rightarrow> byte list option" where
  "memcpy_at dest off src =
     (if off + length src \<le> length dest
      then Some (take off dest @ src @ drop (off + length src) dest)
      else None)"

lemma memcpy_at_length:
  "memcpy_at dest off src = Some d \<Longrightarrow> length d = length dest"
  by (auto simp: memcpy_at_def split: if_splits)

lemma memcpy_at_take:
  "memcpy_at dest off src = Some d \<Longrightarrow> take (off + length src) d = take off dest @ src"
  by (auto simp: memcpy_at_def split: if_splits)

section \<open>string.h\<close>

fun strlen :: "byte list \<Rightarrow> nat" where
  "strlen [] = 0"
| "strlen (c # cs) = (if c = 0 then 0 else Suc (strlen cs))"

fun strcpy :: "byte list \<Rightarrow> byte list \<Rightarrow> byte list" where
  "strcpy dest [] = 0 # tl dest"
| "strcpy dest (c # cs) = (if c = 0 then 0 # tl dest else c # strcpy (tl dest) cs)"

text \<open>\<open>strncpy(dest, src, n)\<close>: the \<open>n\<close> bytes it writes; after a NUL it pads with NULs.\<close>

fun strncpy :: "byte list \<Rightarrow> nat \<Rightarrow> byte list" where
  "strncpy src 0 = []"
| "strncpy [] (Suc n) = replicate (Suc n) 0"
| "strncpy (c # cs) (Suc n) = (if c = 0 then replicate (Suc n) 0 else c # strncpy cs n)"

text \<open>
  \<open>strncmp\<close>: the sign convention of the result is the difference of the first bytes that
  differ. The callers compare within both arrays (\<open>store_match_in_bounds\<close>); past the end
  of an array the model reads NUL.
\<close>

fun strncmp :: "byte list \<Rightarrow> byte list \<Rightarrow> nat \<Rightarrow> int" where
  "strncmp xs ys 0 = 0"
| "strncmp [] [] (Suc n) = 0"
| "strncmp (x # xs) [] (Suc n) = uint x"
| "strncmp [] (y # ys) (Suc n) = - uint y"
| "strncmp (x # xs) (y # ys) (Suc n) =
     (if x \<noteq> y then uint x - uint y else if x = 0 then 0 else strncmp xs ys n)"

text \<open>The bytes of a string literal, without the terminating NUL.\<close>

definition bytes_of_string :: "string \<Rightarrow> byte list" where
  "bytes_of_string s = map of_char s"

definition c_string :: "string \<Rightarrow> byte list" where
  "c_string s = bytes_of_string s @ [0]"

lemma strncmp_numeral [simp]:
  "strncmp (x # xs) (y # ys) (numeral k) =
     (if x \<noteq> y then uint x - uint y else if x = 0 then 0 else strncmp xs ys (pred_numeral k))"
  by (simp add: numeral_eq_Suc)

lemma strncpy_numeral [simp]:
  "strncpy (c # cs) (numeral k) =
     (if c = 0 then replicate (numeral k) 0 else c # strncpy cs (pred_numeral k))"
  by (simp add: numeral_eq_Suc)

lemma prefix_iff_take: "prefix xs ys \<longleftrightarrow> take (length xs) ys = xs"
  by (metis append_eq_conv_conj prefix_def take_is_prefix)

lemma comparable_iff_take:
  "prefix xs ys \<or> prefix ys xs \<longleftrightarrow>
     take (min (length xs) (length ys)) xs = take (min (length xs) (length ys)) ys"
  by (cases "length xs" "length ys" rule: le_cases) (auto simp: prefix_iff_take min_def)

lemma take_min_eq_iff_prefix:
  assumes "n \<le> length xs" "k \<le> length ys"
  shows "take (min n k) xs = take (min n k) ys \<longleftrightarrow>
     prefix (take n xs) (take k ys) \<or> prefix (take k ys) (take n xs)"
  using comparable_iff_take [of "take n xs" "take k ys"] assms by (simp add: min_def)

lemma length_strncpy [simp]: "length (strncpy src n) = n"
  by (induction src n rule: strncpy.induct) auto

lemma strncpy_nonzero:
  "n \<le> length src \<Longrightarrow> 0 \<notin> set (take n src) \<Longrightarrow> strncpy src n = take n src"
  by (induction src n rule: strncpy.induct) auto

lemma strlen_nonzero: "0 \<notin> set xs \<Longrightarrow> strlen (xs @ 0 # ys) = length xs"
  by (induction xs) auto

lemma strlen_le_length: "strlen xs \<le> length xs"
  by (induction xs) auto

lemma strncmp_eq_0_iff_take:
  "n \<le> length xs \<Longrightarrow> n \<le> length ys \<Longrightarrow> 0 \<notin> set (take n xs) \<Longrightarrow>
     strncmp xs ys n = 0 \<longleftrightarrow> take n xs = take n ys"
  by (induction xs ys n rule: strncmp.induct) (auto simp: uint_0_iff simp flip: word_uint_eq_iff)

lemma strncmp_refl [simp]: "strncmp xs xs n = 0"
proof (induction n arbitrary: xs)
  case (Suc n)
  then show ?case by (cases xs) auto
qed simp

lemma strncmp_sym: "strncmp xs ys n = 0 \<longleftrightarrow> strncmp ys xs n = 0"
  by (induction xs ys n rule: strncmp.induct) (auto simp flip: word_uint_eq_iff)

section \<open>Operations on a state: invariants over runs\<close>

text \<open>
  A component is a state and a family of operations on it. \<open>run_ops\<close> performs a list of
  operations in order. Two contracts: every operation that returns keeps the invariant; and
  (extending it) every admissible operation does return.
\<close>

fun run_ops ::
  "('op \<Rightarrow> 's \<Rightarrow> ('r, 's) outcome) \<Rightarrow> 'op list \<Rightarrow> 's \<Rightarrow> ('r list, 's) outcome" where
  "run_ops step [] s = Returns [] s"
| "run_ops step (op # ops) s =
     call_bind (step op s) (\<lambda>r s'.
       call_bind (run_ops step ops s') (\<lambda>rs s''. Returns (r # rs) s''))"

lemma exits_with_run_ops:
  "(\<And>op s. exits_with P (step op s)) \<Longrightarrow> exits_with P (run_ops step ops s)"
  by (induction ops arbitrary: s) (auto intro!: exits_with_bind)

locale state_ops =
  fixes inv :: "'s \<Rightarrow> bool"
    and step :: "'op \<Rightarrow> 's \<Rightarrow> ('r, 's) outcome"
  assumes keeps: "inv s \<Longrightarrow> step op s = Returns r s' \<Longrightarrow> inv s'"
begin

lemma run_keeps: "inv s \<Longrightarrow> run_ops step ops s = Returns rs s' \<Longrightarrow> inv s'"
proof (induction ops arbitrary: s rs)
  case (Cons op ops)
  from Cons.prems(2) obtain r t rs' where
    "step op s = Returns r t" "run_ops step ops t = Returns rs' s'"
    by (auto simp: call_bind_Returns_iff)
  with Cons.prems(1) show ?case by (blast intro: Cons.IH keeps)
qed simp

end

text \<open>
  The stronger contract: every admissible operation returns a result of the expected kind and
  keeps the invariant. With only the admissible operations performed, it gives the weaker one.
\<close>

locale total_state_ops =
  fixes inv :: "'s \<Rightarrow> bool"
    and step :: "'op \<Rightarrow> 's \<Rightarrow> ('r, 's) outcome"
    and ok :: "'op \<Rightarrow> bool"
    and result :: "'r \<Rightarrow> bool"
  assumes total:
    "inv s \<Longrightarrow> ok op \<Longrightarrow> \<exists>r s'. step op s = Returns r s' \<and> result r \<and> inv s'"
begin

lemma run_total:
  "inv s \<Longrightarrow> list_all ok ops \<Longrightarrow>
     \<exists>rs s'. run_ops step ops s = Returns rs s' \<and> length rs = length ops \<and> list_all result rs \<and> inv s'"
proof (induction ops arbitrary: s)
  case (Cons op ops)
  then obtain r t where "step op s = Returns r t" "result r" "inv t" using total by fastforce
  moreover from this(3) Cons obtain rs s' where
    "run_ops step ops t = Returns rs s'" "length rs = length ops" "list_all result rs" "inv s'" by fastforce
  ultimately show ?case by simp
qed simp

lemma ok_keeps: "inv s \<Longrightarrow> ok op \<Longrightarrow> step op s = Returns r s' \<Longrightarrow> inv s'"
  using total by fastforce

end

sublocale total_state_ops \<subseteq> guarded: state_ops inv "\<lambda>op s. if ok op then step op s else Hangs"
  by unfold_locales (auto split: if_splits intro: ok_keeps)

text \<open>
  Refinement: an abstract machine that may be silent (\<open>None\<close>) on some operations; where it
  speaks, the concrete operation returns and the abstraction function follows it.
\<close>

fun run_abstract :: "('op \<Rightarrow> 'a \<Rightarrow> 'a option) \<Rightarrow> 'op list \<Rightarrow> 'a \<Rightarrow> 'a option" where
  "run_abstract astep [] a = Some a"
| "run_abstract astep (op # ops) a =
     (case astep op a of None \<Rightarrow> None | Some a' \<Rightarrow> run_abstract astep ops a')"

locale refining_ops = total_state_ops inv step ok result
  for inv :: "'s \<Rightarrow> bool" and step :: "'op \<Rightarrow> 's \<Rightarrow> ('r, 's) outcome" and ok :: "'op \<Rightarrow> bool"
    and result :: "'r \<Rightarrow> bool" +
  fixes abs :: "'s \<Rightarrow> 'a"
    and astep :: "'op \<Rightarrow> 'a \<Rightarrow> 'a option"
  assumes refine:
    "inv s \<Longrightarrow> ok op \<Longrightarrow> step op s = Returns r s' \<Longrightarrow> astep op (abs s) = Some a \<Longrightarrow> abs s' = a"
begin

lemma run_refines:
  "inv s \<Longrightarrow> list_all ok ops \<Longrightarrow> run_abstract astep ops (abs s) = Some a \<Longrightarrow>
     \<exists>rs s'. run_ops step ops s = Returns rs s' \<and> list_all result rs \<and> inv s' \<and> abs s' = a"
proof (induction ops arbitrary: s)
  case (Cons op ops)
  from Cons.prems obtain r t where t: "step op s = Returns r t" "result r" "inv t" using total by fastforce
  from Cons.prems(3) obtain b where b: "astep op (abs s) = Some b" "run_abstract astep ops b = Some a"
    by (auto split: option.splits)
  have "abs t = b" using refine [OF Cons.prems(1) _ t(1) b(1)] Cons.prems(2) by simp
  with Cons t(3) b(2) obtain rs s' where
    "run_ops step ops t = Returns rs s'" "list_all result rs" "inv s'" "abs s' = a" by fastforce
  with t(1,2) show ?case by simp
qed simp

end

end
