(* ===== verification/ES_Status.thy ===== *)
theory ES_Status
  imports ES_Prelude
begin

text \<open>
  Status values and error handling: \<open>EventlogSocketStatus\<close> of \<open>eventlog_socket.h\<close>, the
  macros of \<open>error.h\<close>, \<open>string.c\<close>, and \<open>eventlog_socket_strerror\<close> of \<open>error.c\<close>.
  The calls of the debug macros (\<open>ES_Debug\<close>) are left out.
\<close>

section \<open>Statuses (eventlog_socket.h, error.h)\<close>

datatype EventlogSocketStatusCode =
    EVENTLOG_SOCKET_OK
  | EVENTLOG_SOCKET_ERR_RTS_NOSUPPORT
  | EVENTLOG_SOCKET_ERR_RTS_FAIL
  | EVENTLOG_SOCKET_ERR_ENV_NOADDR
  | EVENTLOG_SOCKET_ERR_ENV_TOOLONG
  | EVENTLOG_SOCKET_ERR_ENV_NOHOST
  | EVENTLOG_SOCKET_ERR_ENV_NOPORT
  | EVENTLOG_SOCKET_ERR_CTL_NOSUPPORT
  | EVENTLOG_SOCKET_ERR_CTL_EXISTS
  | EVENTLOG_SOCKET_ERR_GAI
  | EVENTLOG_SOCKET_ERR_SYS

record EventlogSocketStatus =
  ess_status_code :: EventlogSocketStatusCode
  ess_error_code :: int

definition STATUS_FROM_CODE :: "EventlogSocketStatusCode \<Rightarrow> EventlogSocketStatus" where
  "STATUS_FROM_CODE status_code = \<lparr>ess_status_code = status_code, ess_error_code = 0\<rparr>"

definition STATUS_FROM_ERRNO :: "int \<Rightarrow> EventlogSocketStatus" where
  "STATUS_FROM_ERRNO errno = \<lparr>ess_status_code = EVENTLOG_SOCKET_ERR_SYS, ess_error_code = errno\<rparr>"

definition STATUS_FROM_PTHREAD :: "int \<Rightarrow> EventlogSocketStatus" where
  "STATUS_FROM_PTHREAD pthread_errno =
     \<lparr>ess_status_code = EVENTLOG_SOCKET_ERR_SYS, ess_error_code = pthread_errno\<rparr>"

definition STATUS_FROM_GAI_ERROR :: "int \<Rightarrow> EventlogSocketStatus" where
  "STATUS_FROM_GAI_ERROR gai_error =
     \<lparr>ess_status_code = EVENTLOG_SOCKET_ERR_GAI, ess_error_code = gai_error\<rparr>"

definition STATUS_IS_ERROR :: "EventlogSocketStatus \<Rightarrow> bool" where
  "STATUS_IS_ERROR st =
     (\<not> (ess_status_code st = EVENTLOG_SOCKET_OK \<or>
         ess_status_code st = EVENTLOG_SOCKET_ERR_GAI \<and> ess_error_code st = 0 \<or>
         ess_status_code st = EVENTLOG_SOCKET_ERR_SYS \<and> ess_error_code st = 0))"

abbreviation STATUS_OK :: EventlogSocketStatus where
  "STATUS_OK \<equiv> STATUS_FROM_CODE EVENTLOG_SOCKET_OK"

text \<open>
  \<open>RETURN_ON_ERROR_CLEANUP(expr, cleanup)\<close>: \<open>m\<close> is the call \<open>expr\<close>; on an error status
  the enclosing function runs \<open>cleanup\<close> and returns the status (wrapped by \<open>ret\<close> where that
  function returns more than a status); otherwise it goes on with \<open>k\<close>.
\<close>

definition RETURN_ON_ERROR_CLEANUP ::
  "(EventlogSocketStatus, 's) outcome \<Rightarrow> (EventlogSocketStatus \<Rightarrow> 'r) \<Rightarrow> ('s \<Rightarrow> 's) \<Rightarrow>
   ('s \<Rightarrow> ('r, 's) outcome) \<Rightarrow> ('r, 's) outcome" where
  "RETURN_ON_ERROR_CLEANUP m ret cleanup k =
     call_bind m (\<lambda>status s.
       if STATUS_IS_ERROR status then Returns (ret status) (cleanup s) else k s)"

definition RETURN_ON_ERROR ::
  "(EventlogSocketStatus, 's) outcome \<Rightarrow> (EventlogSocketStatus \<Rightarrow> 'r) \<Rightarrow>
   ('s \<Rightarrow> ('r, 's) outcome) \<Rightarrow> ('r, 's) outcome" where
  "RETURN_ON_ERROR m ret k = RETURN_ON_ERROR_CLEANUP m ret (\<lambda>s. s) k"

text \<open>
  \<open>EXIT_ON_ERROR_CLEANUP(expr, cleanup)\<close>: on an error status, store it in \<open>g_status\<close> (by
  \<open>save\<close>), run \<open>cleanup\<close> and end the thread.
\<close>

definition EXIT_ON_ERROR_CLEANUP ::
  "(EventlogSocketStatus, 's) outcome \<Rightarrow> (EventlogSocketStatus \<Rightarrow> 's \<Rightarrow> 's) \<Rightarrow> ('s \<Rightarrow> 's) \<Rightarrow>
   ('s \<Rightarrow> ('r, 's) outcome) \<Rightarrow> ('r, 's) outcome" where
  "EXIT_ON_ERROR_CLEANUP m save cleanup k =
     call_bind m (\<lambda>status s.
       if STATUS_IS_ERROR status then ThreadExits (cleanup (save status s)) else k s)"

definition EXIT_ON_ERROR ::
  "(EventlogSocketStatus, 's) outcome \<Rightarrow> (EventlogSocketStatus \<Rightarrow> 's \<Rightarrow> 's) \<Rightarrow>
   ('s \<Rightarrow> ('r, 's) outcome) \<Rightarrow> ('r, 's) outcome" where
  "EXIT_ON_ERROR m save k = EXIT_ON_ERROR_CLEANUP m save (\<lambda>s. s) k"

lemma STATUS_IS_ERROR_simps [simp]:
  "STATUS_IS_ERROR (STATUS_FROM_CODE c) \<longleftrightarrow>
     c \<noteq> EVENTLOG_SOCKET_OK \<and> c \<noteq> EVENTLOG_SOCKET_ERR_GAI \<and> c \<noteq> EVENTLOG_SOCKET_ERR_SYS"
  "STATUS_IS_ERROR (STATUS_FROM_ERRNO e) \<longleftrightarrow> e \<noteq> 0"
  "STATUS_IS_ERROR (STATUS_FROM_PTHREAD e) \<longleftrightarrow> e \<noteq> 0"
  "STATUS_IS_ERROR (STATUS_FROM_GAI_ERROR e) \<longleftrightarrow> e \<noteq> 0"
  by (auto simp: STATUS_IS_ERROR_def STATUS_FROM_CODE_def STATUS_FROM_ERRNO_def
      STATUS_FROM_PTHREAD_def STATUS_FROM_GAI_ERROR_def)

lemma STATUS_inject [simp]:
  "STATUS_FROM_CODE c = STATUS_FROM_CODE d \<longleftrightarrow> c = d"
  "STATUS_FROM_ERRNO e = STATUS_FROM_ERRNO f \<longleftrightarrow> e = f"
  "STATUS_FROM_PTHREAD e = STATUS_FROM_PTHREAD f \<longleftrightarrow> e = f"
  "STATUS_FROM_PTHREAD e = STATUS_FROM_ERRNO f \<longleftrightarrow> e = f"
  "STATUS_FROM_CODE c = STATUS_FROM_ERRNO e \<longleftrightarrow> c = EVENTLOG_SOCKET_ERR_SYS \<and> e = 0"
  "STATUS_FROM_ERRNO e = STATUS_FROM_CODE c \<longleftrightarrow> c = EVENTLOG_SOCKET_ERR_SYS \<and> e = 0"
  "STATUS_FROM_CODE c = STATUS_FROM_PTHREAD e \<longleftrightarrow> c = EVENTLOG_SOCKET_ERR_SYS \<and> e = 0"
  "STATUS_FROM_PTHREAD e = STATUS_FROM_CODE c \<longleftrightarrow> c = EVENTLOG_SOCKET_ERR_SYS \<and> e = 0"
  by (auto simp: STATUS_FROM_CODE_def STATUS_FROM_ERRNO_def STATUS_FROM_PTHREAD_def)

lemma RETURN_ON_ERROR_Returns [simp]:
  "RETURN_ON_ERROR_CLEANUP (Returns st s) ret c k =
     (if STATUS_IS_ERROR st then Returns (ret st) (c s) else k s)"
  "RETURN_ON_ERROR (Returns st s) ret k =
     (if STATUS_IS_ERROR st then Returns (ret st) s else k s)"
  "EXIT_ON_ERROR_CLEANUP (Returns st s) save c k' =
     (if STATUS_IS_ERROR st then ThreadExits (c (save st s)) else k' s)"
  "EXIT_ON_ERROR (Returns st s) save k' =
     (if STATUS_IS_ERROR st then ThreadExits (save st s) else k' s)"
  by (simp_all add: RETURN_ON_ERROR_CLEANUP_def RETURN_ON_ERROR_def
      EXIT_ON_ERROR_CLEANUP_def EXIT_ON_ERROR_def)

lemma ON_ERROR_other [simp]:
  "RETURN_ON_ERROR Hangs ret k = Hangs"
  "RETURN_ON_ERROR Crashes ret k = Crashes"
  "RETURN_ON_ERROR Aborts ret k = Aborts"
  "RETURN_ON_ERROR (ThreadExits s) ret k = ThreadExits s"
  "EXIT_ON_ERROR Hangs save k' = Hangs"
  "EXIT_ON_ERROR Crashes save k' = Crashes"
  "EXIT_ON_ERROR Aborts save k' = Aborts"
  "EXIT_ON_ERROR (ThreadExits s) save k' = ThreadExits s"
  by (simp_all add: RETURN_ON_ERROR_CLEANUP_def RETURN_ON_ERROR_def
      EXIT_ON_ERROR_CLEANUP_def EXIT_ON_ERROR_def)

lemma exits_with_RETURN_ON_ERROR [exit_rules]:
  "exits_with P m \<Longrightarrow> (\<And>s. exits_with P (k s)) \<Longrightarrow>
     exits_with P (RETURN_ON_ERROR_CLEANUP m ret cleanup k)"
  "exits_with P m \<Longrightarrow> (\<And>s. exits_with P (k s)) \<Longrightarrow> exits_with P (RETURN_ON_ERROR m ret k)"
  by (cases m; simp add: RETURN_ON_ERROR_def RETURN_ON_ERROR_CLEANUP_def)+

lemma exits_with_EXIT_ON_ERROR [exit_rules]:
  "exits_with P m \<Longrightarrow> (\<And>st s. STATUS_IS_ERROR st \<Longrightarrow> P (cleanup (save st s))) \<Longrightarrow>
     (\<And>s. exits_with P (k s)) \<Longrightarrow> exits_with P (EXIT_ON_ERROR_CLEANUP m save cleanup k)"
  "exits_with P m \<Longrightarrow> (\<And>st s. STATUS_IS_ERROR st \<Longrightarrow> P (save st s)) \<Longrightarrow>
     (\<And>s. exits_with P (k s)) \<Longrightarrow> exits_with P (EXIT_ON_ERROR m save k)"
  by (cases m; simp add: EXIT_ON_ERROR_def EXIT_ON_ERROR_CLEANUP_def)+

lemma returns_with_RETURN_ON_ERROR [keep_rules]:
  "returns_with P m \<Longrightarrow> (\<And>s. P s \<Longrightarrow> P (cleanup s)) \<Longrightarrow> (\<And>s. P s \<Longrightarrow> returns_with P (k s)) \<Longrightarrow>
     returns_with P (RETURN_ON_ERROR_CLEANUP m ret cleanup k)"
  "returns_with P m \<Longrightarrow> (\<And>s. P s \<Longrightarrow> returns_with P (k s)) \<Longrightarrow> returns_with P (RETURN_ON_ERROR m ret k)"
  by (cases m; simp add: RETURN_ON_ERROR_def RETURN_ON_ERROR_CLEANUP_def)+

section \<open>string.c\<close>

text \<open>A \<open>char *\<close> result: an allocated array, or \<open>NULL\<close> with \<open>errno\<close> set.\<close>

datatype char_ptr = Null int | Ptr "byte list"

definition es_strdup :: "malloc_result \<Rightarrow> byte list option \<Rightarrow> char_ptr" where
  "es_strdup malloc_res str =
     (case str of
        None \<Rightarrow> Null EINVAL
      | Some s \<Rightarrow>
          (case malloc_res of
             MallocFails errno \<Rightarrow> Null errno
           | MallocOk contents \<Rightarrow> Ptr (strcpy (malloc_block contents (strlen s + 1)) s)))"

definition es_strndup :: "malloc_result \<Rightarrow> nat \<Rightarrow> byte list option \<Rightarrow> char_ptr" where
  "es_strndup malloc_res str_len str =
     (case str of
        None \<Rightarrow> Null EINVAL
      | Some s \<Rightarrow>
          (case malloc_res of
             MallocFails errno \<Rightarrow> Null errno
           | MallocOk contents \<Rightarrow> Ptr (strncpy s str_len @ [0])))"

lemma strcpy_block:
  "length dest = strlen s + 1 \<Longrightarrow> strcpy dest s = take (strlen s) s @ [0]"
proof (induction s arbitrary: dest)
  case Nil
  then show ?case by (cases dest) auto
next
  case (Cons c cs)
  then show ?case by (cases dest) auto
qed

lemma es_strdup_Some:
  "es_strdup (MallocOk contents) (Some s) = Ptr (take (strlen s) s @ [0])"
  by (simp add: es_strdup_def strcpy_block)

lemma strlen_take_nonzero: "0 \<notin> set (take (strlen s) s)"
  by (induction s) auto

lemma es_strndup_strlen:
  "es_strndup (MallocOk contents) (strlen s) (Some s) = Ptr (take (strlen s) s @ [0])"
  by (simp add: es_strndup_def strncpy_nonzero strlen_take_nonzero strlen_le_length)

section \<open>error.c\<close>

definition STRERROR_BUFLEN_INIT :: size_t where
  "STRERROR_BUFLEN_INIT = 1024"

text \<open>
  What \<open>eventlog_socket_strerror\<close> asks of the system: allocations, the text of
  \<open>gai_strerror\<close>, and \<open>strerror_r\<close> on a buffer of the given size, which answers with its
  return value, \<open>errno\<close> and the contents of the buffer.
\<close>

record strerror_env =
  se_strdup :: malloc_result
  se_malloc :: malloc_result
  se_realloc :: "size_t \<Rightarrow> malloc_result"
  se_strerror_r :: "int \<Rightarrow> size_t \<Rightarrow> int \<times> int \<times> byte list"
  se_gai_strerror :: "int \<Rightarrow> byte list"

text \<open>The \<open>while\<close> loop of the \<open>EVENTLOG_SOCKET_ERR_SYS\<close> case; \<open>None\<close>: it never ends.\<close>

partial_function (option) strerror_loop ::
  "strerror_env \<Rightarrow> int \<Rightarrow> size_t \<Rightarrow> char_ptr option" where
  "strerror_loop env error_code buflen =
     (case se_strerror_r env error_code buflen of (rc, errno, strerrbuf) \<Rightarrow>
        if rc = -1 \<and> errno = ERANGE then
          (case se_realloc env (buflen * 2) of
             MallocFails errno' \<Rightarrow> Some (Null errno')
           | MallocOk contents \<Rightarrow> strerror_loop env error_code (buflen * 2))
        else Some (Ptr strerrbuf))"

fun strerror_message :: "EventlogSocketStatusCode \<Rightarrow> string option" where
  "strerror_message EVENTLOG_SOCKET_ERR_RTS_NOSUPPORT =
     Some ''The GHC RTS does not support the eventlog.''"
| "strerror_message EVENTLOG_SOCKET_ERR_RTS_FAIL =
     Some ''The GHC RTS could not start the eventlog writer.''"
| "strerror_message EVENTLOG_SOCKET_ERR_ENV_NOADDR =
     Some ''No socket address was found in the environment.''"
| "strerror_message EVENTLOG_SOCKET_ERR_ENV_TOOLONG =
     Some ''The Unix domain socket path found was too long.''"
| "strerror_message EVENTLOG_SOCKET_ERR_ENV_NOHOST =
     Some ''A TCP/IP port number was found, but no host name was found.''"
| "strerror_message EVENTLOG_SOCKET_ERR_ENV_NOPORT =
     Some ''A TCP/IP host name was found, but no port number was found.''"
| "strerror_message EVENTLOG_SOCKET_ERR_CTL_NOSUPPORT =
     Some ''This binary was compiled without support for control commands.''"
| "strerror_message EVENTLOG_SOCKET_ERR_CTL_EXISTS =
     Some ''The requested namespace or command ID is already in use.''"
| "strerror_message _ = None"

definition eventlog_socket_strerror ::
  "strerror_env \<Rightarrow> EventlogSocketStatus \<Rightarrow> char_ptr option" where
  "eventlog_socket_strerror env status =
     (case strerror_message (ess_status_code status) of
        Some msg \<Rightarrow> Some (es_strdup (se_strdup env) (Some (c_string msg)))
      | None \<Rightarrow>
          if ess_status_code status = EVENTLOG_SOCKET_ERR_GAI then
            Some (es_strdup (se_strdup env)
              (Some (se_gai_strerror env (ess_error_code status))))
          else if ess_status_code status = EVENTLOG_SOCKET_ERR_SYS then
            (case se_malloc env of
               MallocFails errno \<Rightarrow> Some (Null errno)
             | MallocOk contents \<Rightarrow>
                 strerror_loop env (ess_error_code status) STRERROR_BUFLEN_INIT)
          else Some (Null EINVAL))"

text \<open>
  The contract of \<open>strerror_r\<close> the loop relies on: a buffer that holds the message and its
  NUL is filled; a smaller one is refused, either by returning -1 with \<open>errno\<close> set to
  \<open>ERANGE\<close> (as glibc did before 2.13) or by returning the error number, as POSIX says, and
  then the buffer holds a terminated part of the message.
\<close>

definition strerror_r_contract :: "strerror_env \<Rightarrow> int \<Rightarrow> byte list \<Rightarrow> bool" where
  "strerror_r_contract env code msg \<longleftrightarrow>
     (\<forall>buflen.
        if length msg < unat buflen then se_strerror_r env code buflen = (0, 0, msg @ [0])
        else se_strerror_r env code buflen = (-1, ERANGE, []) \<or>
             (\<exists>part. se_strerror_r env code buflen = (ERANGE, 0, part @ [0])))"

definition strerror_allocs :: "strerror_env \<Rightarrow> bool" where
  "strerror_allocs env \<longleftrightarrow>
     (\<exists>c. se_strdup env = MallocOk c) \<and> (\<exists>c. se_malloc env = MallocOk c) \<and>
     (\<forall>n. \<exists>c. se_realloc env n = MallocOk c)"

lemma unat_double:
  "unat (b :: size_t) < 2 ^ 63 \<Longrightarrow> unat (b * 2) = 2 * unat b"
  by (simp add: unat_word_ariths)

lemma strerror_loop_returns:
  assumes "strerror_r_contract env code msg" "strerror_allocs env"
    and "length msg < unat b * 2 ^ k" "unat b * 2 ^ k < 2 ^ 64"
  shows "\<exists>text. strerror_loop env code b = Some (Ptr (text @ [0]))"
  using assms(3,4)
proof (induction k arbitrary: b)
  case 0
  with assms(1) show ?case
    by (subst strerror_loop.simps) (simp add: strerror_r_contract_def)
next
  case (Suc k)
  obtain c where c: "se_realloc env (b * 2) = MallocOk c"
    using assms(2) by (auto simp: strerror_allocs_def)
  from assms(1) consider "\<exists>rc text. rc \<noteq> -1 \<and> se_strerror_r env code b = (rc, 0, text @ [0])"
    | "se_strerror_r env code b = (-1, ERANGE, [])"
    unfolding strerror_r_contract_def ERANGE_def by (metis neg_equal_zero numeral_neq_neg_one zero_neq_neg_one)
  then show ?case
  proof cases
    case 1
    then show ?thesis by (subst strerror_loop.simps) auto
  next
    case 2
    have "unat b * 2 \<le> unat b * 2 ^ Suc k" by simp
    then have "unat b * 2 < 2 ^ 64" using Suc.prems(2) by (rule le_less_trans)
    then have d: "unat (b * 2) = 2 * unat b" by (intro unat_double) simp
    with Suc.prems have "\<exists>text. strerror_loop env code (b * 2) = Some (Ptr (text @ [0]))"
      by (intro Suc.IH) (simp_all add: mult.assoc mult.left_commute)
    with 2 c show ?thesis by (subst strerror_loop.simps) simp
  qed
qed

text \<open>C35: for every error status \<open>eventlog_socket_strerror\<close> returns, and what it returns is a
  NUL-terminated description and not \<open>NULL\<close>, provided memory is available and the system's
  message for the error code is shorter than \<open>2 ^ 62\<close> bytes: the loop that doubles the buffer
  ends before the size can wrap around.\<close>

theorem strerror_describes_errors:
  assumes "STATUS_IS_ERROR status"
    and "strerror_r_contract env (ess_error_code status) msg"
    and "length msg < 2 ^ 62"
    and "strerror_allocs env"
  shows "\<exists>text. eventlog_socket_strerror env status = Some (Ptr (text @ [0]))"
proof -
  obtain c1 c2 where c: "se_strdup env = MallocOk c1" "se_malloc env = MallocOk c2"
    using assms(4) by (auto simp: strerror_allocs_def)
  obtain t where loop:
    "strerror_loop env (ess_error_code status) STRERROR_BUFLEN_INIT = Some (Ptr (t @ [0]))"
    using assms(3)
      strerror_loop_returns [OF assms(2,4), where k = 53 and b = STRERROR_BUFLEN_INIT]
    by (auto simp: STRERROR_BUFLEN_INIT_def)
  show ?thesis
    using assms(1) c loop
    by (cases "ess_status_code status")
      (simp_all add: eventlog_socket_strerror_def es_strdup_Some STATUS_IS_ERROR_def)
qed

definition demo_strerror_env :: strerror_env where
  "demo_strerror_env =
     \<lparr>se_strdup = MallocOk (\<lambda>_. 0), se_malloc = MallocOk (\<lambda>_. 0),
      se_realloc = (\<lambda>_. MallocOk (\<lambda>_. 0)),
      se_strerror_r = (\<lambda>code buflen.
        if length (replicate 1500 (65 :: byte)) < unat buflen
        then (0, 0, replicate 1500 65 @ [0]) else (-1, ERANGE, [])),
      se_gai_strerror = (\<lambda>_. [0])\<rparr>"

theorem strerror_describes_errors_witness:
  "\<exists>text. eventlog_socket_strerror demo_strerror_env (STATUS_FROM_ERRNO EINVAL) =
     Some (Ptr (text @ [0]))"
  by (rule strerror_describes_errors [where msg = "replicate 1500 65"])
    (simp_all add: demo_strerror_env_def strerror_r_contract_def strerror_allocs_def EINVAL_def)

end
