(* ===== verification/ES_ControlState.thy ===== *)
theory ES_ControlState
  imports ES_Status
begin

text \<open>
  The data of \<open>control.c\<close>: command handlers, the namespace registry, the states of the command
  parser, and the record of the file's global variables.

  The registry is a linked list that only grows at its end and whose entries never move, so
  the model keeps it as a HOL list and a pointer to an entry is its position: position 0 is the
  static entry \<open>g_control_namespace_registry\<close>, the namespace of the builtin commands. The
  \<open>next\<close> pointer of the entry at position \<open>i\<close> is non-null exactly when \<open>Suc i\<close> is a
  position. The same holds for the commands of a namespace.
\<close>

section \<open>Command handlers\<close>

text \<open>
  A handler is one of the five builtin functions or a function of the user, known by a number.
  What a handler does is recorded: a call into the GHC RTS, or a call of the user's function
  with its arguments.
\<close>

datatype EventlogSocketControlCommandHandler =
    HandlerStartProfiling
  | HandlerStopProfiling
  | HandlerStartHeapProfiling
  | HandlerStopHeapProfiling
  | HandlerRequestHeapCensus
  | UserHandler nat

type_synonym namespace_ptr = nat
type_synonym EventlogSocketControlCommandId = byte

datatype handler_effect =
    CallsStartProfTimer
  | CallsStopProfTimer
  | CallsStartHeapProfTimer
  | CallsStopHeapProfTimer
  | CallsRequestHeapCensus
  | CallsUser nat namespace_ptr EventlogSocketControlCommandId user_data

definition es_control_start_profiling ::
  "namespace_ptr \<Rightarrow> EventlogSocketControlCommandId \<Rightarrow> user_data \<Rightarrow> handler_effect list" where
  "es_control_start_profiling ns command_id data = [CallsStartProfTimer]"

definition es_control_stop_profiling ::
  "namespace_ptr \<Rightarrow> EventlogSocketControlCommandId \<Rightarrow> user_data \<Rightarrow> handler_effect list" where
  "es_control_stop_profiling ns command_id data = [CallsStopProfTimer]"

definition es_control_start_heap_profiling ::
  "namespace_ptr \<Rightarrow> EventlogSocketControlCommandId \<Rightarrow> user_data \<Rightarrow> handler_effect list" where
  "es_control_start_heap_profiling ns command_id data = [CallsStartHeapProfTimer]"

definition es_control_stop_heap_profiling ::
  "namespace_ptr \<Rightarrow> EventlogSocketControlCommandId \<Rightarrow> user_data \<Rightarrow> handler_effect list" where
  "es_control_stop_heap_profiling ns command_id data = [CallsStopHeapProfTimer]"

definition es_control_request_heap_census ::
  "namespace_ptr \<Rightarrow> EventlogSocketControlCommandId \<Rightarrow> user_data \<Rightarrow> handler_effect list" where
  "es_control_request_heap_census ns command_id data = [CallsRequestHeapCensus]"

text \<open>The call through the function pointer \<open>command_handler\<close>.\<close>

fun call_command_handler ::
  "EventlogSocketControlCommandHandler \<Rightarrow> namespace_ptr \<Rightarrow> EventlogSocketControlCommandId \<Rightarrow>
   user_data \<Rightarrow> handler_effect list" where
  "call_command_handler HandlerStartProfiling = es_control_start_profiling"
| "call_command_handler HandlerStopProfiling = es_control_stop_profiling"
| "call_command_handler HandlerStartHeapProfiling = es_control_start_heap_profiling"
| "call_command_handler HandlerStopHeapProfiling = es_control_stop_heap_profiling"
| "call_command_handler HandlerRequestHeapCensus = es_control_request_heap_census"
| "call_command_handler (UserHandler f) = (\<lambda>ns command_id data. [CallsUser f ns command_id data])"

section \<open>The namespace registry\<close>

record EventlogSocketControlCommand =
  cmd_command_id :: EventlogSocketControlCommandId
  cmd_command_handler :: "EventlogSocketControlCommandHandler option"
  cmd_command_data :: user_data

text \<open>\<open>ns_namespace\<close> is the character array, with its terminating NUL.\<close>

record EventlogSocketControlNamespace =
  ns_namespace_len :: byte
  ns_namespace :: "byte list"
  ns_command_registry :: "EventlogSocketControlCommand list"

definition BUILTIN_NAMESPACE :: "byte list" where
  "BUILTIN_NAMESPACE = bytes_of_string ''eventlog-socket''"

definition BUILTIN_COMMAND_ID_START_PROFILING :: byte where
  "BUILTIN_COMMAND_ID_START_PROFILING = 1"
definition BUILTIN_COMMAND_ID_STOP_PROFILING :: byte where
  "BUILTIN_COMMAND_ID_STOP_PROFILING = 2"
definition BUILTIN_COMMAND_ID_START_HEAP_PROFILING :: byte where
  "BUILTIN_COMMAND_ID_START_HEAP_PROFILING = 3"
definition BUILTIN_COMMAND_ID_STOP_HEAP_PROFILING :: byte where
  "BUILTIN_COMMAND_ID_STOP_HEAP_PROFILING = 4"
definition BUILTIN_COMMAND_ID_REQUEST_HEAP_CENSUS :: byte where
  "BUILTIN_COMMAND_ID_REQUEST_HEAP_CENSUS = 5"

lemmas builtin_id_defs =
  BUILTIN_COMMAND_ID_START_PROFILING_def BUILTIN_COMMAND_ID_STOP_PROFILING_def
  BUILTIN_COMMAND_ID_START_HEAP_PROFILING_def BUILTIN_COMMAND_ID_STOP_HEAP_PROFILING_def
  BUILTIN_COMMAND_ID_REQUEST_HEAP_CENSUS_def

definition builtin_namespace_entry :: EventlogSocketControlNamespace where
  "builtin_namespace_entry =
     \<lparr>ns_namespace_len = of_nat (strlen (BUILTIN_NAMESPACE @ [0])),
      ns_namespace = BUILTIN_NAMESPACE @ [0],
      ns_command_registry =
        [\<lparr>cmd_command_id = BUILTIN_COMMAND_ID_START_PROFILING,
          cmd_command_handler = Some HandlerStartProfiling, cmd_command_data = 0\<rparr>,
         \<lparr>cmd_command_id = BUILTIN_COMMAND_ID_STOP_PROFILING,
          cmd_command_handler = Some HandlerStopProfiling, cmd_command_data = 0\<rparr>,
         \<lparr>cmd_command_id = BUILTIN_COMMAND_ID_START_HEAP_PROFILING,
          cmd_command_handler = Some HandlerStartHeapProfiling, cmd_command_data = 0\<rparr>,
         \<lparr>cmd_command_id = BUILTIN_COMMAND_ID_STOP_HEAP_PROFILING,
          cmd_command_handler = Some HandlerStopHeapProfiling, cmd_command_data = 0\<rparr>,
         \<lparr>cmd_command_id = BUILTIN_COMMAND_ID_REQUEST_HEAP_CENSUS,
          cmd_command_handler = Some HandlerRequestHeapCensus, cmd_command_data = 0\<rparr>]\<rparr>"

section \<open>The states of the command parser\<close>

datatype ControlCommandParserStateTag =
    CONTROL_COMMAND_PARSER_STATE_MAGIC
  | CONTROL_COMMAND_PARSER_STATE_PROTOCOL_VERSION
  | CONTROL_COMMAND_PARSER_STATE_NAMESPACE_LEN
  | CONTROL_COMMAND_PARSER_STATE_NAMESPACE
  | CONTROL_COMMAND_PARSER_STATE_COMMAND_ID

fun es_show_ControlCommandParserStateTag :: "ControlCommandParserStateTag \<Rightarrow> string" where
  "es_show_ControlCommandParserStateTag CONTROL_COMMAND_PARSER_STATE_MAGIC =
     ''CONTROL_COMMAND_PARSER_STATE_MAGIC''"
| "es_show_ControlCommandParserStateTag CONTROL_COMMAND_PARSER_STATE_PROTOCOL_VERSION =
     ''CONTROL_COMMAND_PARSER_STATE_PROTOCOL_VERSION''"
| "es_show_ControlCommandParserStateTag CONTROL_COMMAND_PARSER_STATE_NAMESPACE_LEN =
     ''CONTROL_COMMAND_PARSER_STATE_NAMESPACE_LEN''"
| "es_show_ControlCommandParserStateTag CONTROL_COMMAND_PARSER_STATE_NAMESPACE =
     ''CONTROL_COMMAND_PARSER_STATE_NAMESPACE''"
| "es_show_ControlCommandParserStateTag CONTROL_COMMAND_PARSER_STATE_COMMAND_ID =
     ''CONTROL_COMMAND_PARSER_STATE_COMMAND_ID''"

text \<open>
  The tagged union as a datatype: each constructor holds the members that are set under its
  tag. \<open>STATE_NAMESPACE len pos buffer\<close>: the empty list is a \<open>NULL\<close> buffer.
  \<open>STATE_COMMAND_ID None\<close>: the tag is set, the member \<open>namespace\<close> is not yet.
\<close>

datatype ControlCommandParserState =
    STATE_MAGIC byte
  | STATE_PROTOCOL_VERSION
  | STATE_NAMESPACE_LEN
  | STATE_NAMESPACE byte byte "byte list"
  | STATE_COMMAND_ID "namespace_ptr option"

fun parser_tag :: "ControlCommandParserState \<Rightarrow> ControlCommandParserStateTag" where
  "parser_tag (STATE_MAGIC header_pos) = CONTROL_COMMAND_PARSER_STATE_MAGIC"
| "parser_tag STATE_PROTOCOL_VERSION = CONTROL_COMMAND_PARSER_STATE_PROTOCOL_VERSION"
| "parser_tag STATE_NAMESPACE_LEN = CONTROL_COMMAND_PARSER_STATE_NAMESPACE_LEN"
| "parser_tag (STATE_NAMESPACE len pos buffer) = CONTROL_COMMAND_PARSER_STATE_NAMESPACE"
| "parser_tag (STATE_COMMAND_ID ns) = CONTROL_COMMAND_PARSER_STATE_COMMAND_ID"

section \<open>The global variables of control.c\<close>

text \<open>
  \<open>ctl_effects\<close> is not a variable of the program: it lists what the handlers have done, in
  order. The mutexes are flags (see \<open>ES_Prelude\<close>).
\<close>

record control =
  ctl_namespace_registry :: "EventlogSocketControlNamespace list"
  ctl_namespace_registry_mutex :: bool
  ctl_command_parser_state :: ControlCommandParserState
  ctl_client_fd :: int
  ctl_status :: EventlogSocketStatus
  ctl_effects :: "handler_effect list"

definition initial_control :: control where
  "initial_control =
     \<lparr>ctl_namespace_registry = [builtin_namespace_entry],
      ctl_namespace_registry_mutex = False,
      ctl_command_parser_state = STATE_MAGIC 0,
      ctl_client_fd = -1,
      ctl_status = STATUS_OK,
      ctl_effects = []\<rparr>"

text \<open>What the system answers to the calls one operation of \<open>control.c\<close> makes.\<close>

record control_env =
  env_lock :: int
  env_unlock :: int
  env_malloc_name :: malloc_result
  env_malloc_entry :: malloc_result

definition control_env_ok :: "control_env \<Rightarrow> bool" where
  "control_env_ok env \<longleftrightarrow>
     env_lock env = 0 \<and> env_unlock env = 0 \<and>
     (\<exists>c. env_malloc_name env = MallocOk c) \<and> (\<exists>c. env_malloc_entry env = MallocOk c)"

definition demo_control_env :: control_env where
  "demo_control_env =
     \<lparr>env_lock = 0, env_unlock = 0,
      env_malloc_name = MallocOk (\<lambda>_. 0), env_malloc_entry = MallocOk (\<lambda>_. 0)\<rparr>"

lemma demo_control_env_ok [simp]: "control_env_ok demo_control_env"
  by (simp add: control_env_ok_def demo_control_env_def)

lemma control_env_okD:
  assumes "control_env_ok env"
  obtains c d where "env_lock env = 0" "env_unlock env = 0"
    "env_malloc_name env = MallocOk c" "env_malloc_entry env = MallocOk d"
  using assms by (auto simp: control_env_ok_def)

lemma BUILTIN_NAMESPACE_bytes:
  "BUILTIN_NAMESPACE =
     [0x65, 0x76, 0x65, 0x6E, 0x74, 0x6C, 0x6F, 0x67, 0x2D, 0x73, 0x6F, 0x63, 0x6B, 0x65, 0x74]"
  by (simp add: BUILTIN_NAMESPACE_def bytes_of_string_def of_char_def)

lemma builtin_namespace_entry_len [simp]:
  "ns_namespace_len builtin_namespace_entry = 15"
  "ns_namespace builtin_namespace_entry = BUILTIN_NAMESPACE @ [0]"
  by (simp_all add: builtin_namespace_entry_def BUILTIN_NAMESPACE_bytes)

end
