(* ===== verification/ES_Registry.thy ===== *)
theory ES_Registry
  imports ES_ControlState "HOL-Library.Sublist"
begin

text \<open>
  The namespace and command registry of \<open>control.c\<close>: matching, registration, resolution, and
  the call of a command. Registration returns the status and what was written to
  \<open>namespace_out\<close> (\<open>None\<close>: the object is unchanged).
\<close>

section \<open>Operations\<close>

definition es_control_namespace_store_match ::
  "EventlogSocketControlNamespace option \<Rightarrow> nat \<Rightarrow> byte list \<Rightarrow> bool" where
  "es_control_namespace_store_match namespace_entry namespace_len namespace =
     (case namespace_entry of
        None \<Rightarrow> False
      | Some e \<Rightarrow>
          (let min_namespace_len =
                 (if namespace_len < unat (ns_namespace_len e) then namespace_len
                  else unat (ns_namespace_len e));
               namespace_cmp = strncmp namespace (ns_namespace e) min_namespace_len
           in namespace_cmp = 0))"

definition es_control_strnamespace ::
  "namespace_ptr option \<Rightarrow> control \<Rightarrow> (byte list option, control) outcome" where
  "es_control_strnamespace namespace s =
     (case namespace of
        None \<Rightarrow> Returns None s
      | Some p \<Rightarrow>
          if p \<ge> length (ctl_namespace_registry s) then Crashes
          else Returns (Some (ns_namespace (ctl_namespace_registry s ! p))) s)"

text \<open>\<open>pthread_mutex_lock\<close> and \<open>pthread_mutex_unlock\<close> on \<open>g_control_namespace_registry_mutex\<close>.\<close>

definition registry_lock :: "control_env \<Rightarrow> control \<Rightarrow> (EventlogSocketStatus, control) outcome" where
  "registry_lock env s =
     (if mutex_blocks (ctl_namespace_registry_mutex s) then Hangs
      else Returns (STATUS_FROM_PTHREAD (env_lock env))
             (s\<lparr>ctl_namespace_registry_mutex := mutex_after_lock (env_lock env)\<rparr>))"

definition registry_unlock_ignored :: "control_env \<Rightarrow> control \<Rightarrow> control" where
  "registry_unlock_ignored env s =
     s\<lparr>ctl_namespace_registry_mutex := mutex_after_unlock (env_unlock env)\<rparr>"

definition registry_unlock :: "control_env \<Rightarrow> control \<Rightarrow> (EventlogSocketStatus, control) outcome" where
  "registry_unlock env s =
     Returns (STATUS_FROM_PTHREAD (env_unlock env)) (registry_unlock_ignored env s)"

text \<open>The loop "is the requested namespace already registered?".\<close>

fun namespace_is_registered ::
  "EventlogSocketControlNamespace list \<Rightarrow> nat \<Rightarrow> byte list \<Rightarrow> bool" where
  "namespace_is_registered [] namespace_len namespace = False"
| "namespace_is_registered (e # es) namespace_len namespace =
     (if es_control_namespace_store_match (Some e) namespace_len namespace then True
      else namespace_is_registered es namespace_len namespace)"

definition es_control_register_namespace ::
  "control_env \<Rightarrow> byte \<Rightarrow> byte list \<Rightarrow> bool \<Rightarrow> control \<Rightarrow>
   (EventlogSocketStatus \<times> namespace_ptr option, control) outcome" where
  "es_control_register_namespace env namespace_len namespace namespace_out_nonnull s =
     (if \<not> namespace_out_nonnull then Returns (STATUS_FROM_ERRNO EINVAL, None) s
      else RETURN_ON_ERROR (registry_lock env s) (\<lambda>st. (st, None)) (\<lambda>s.
        if namespace_is_registered (ctl_namespace_registry s) (unat namespace_len) namespace then
          Returns (STATUS_FROM_CODE EVENTLOG_SOCKET_ERR_CTL_EXISTS, None)
            (registry_unlock_ignored env s)
        else
          (case env_malloc_name env of
             MallocFails errno \<Rightarrow>
               Returns (STATUS_FROM_ERRNO errno, None) (registry_unlock_ignored env s)
           | MallocOk contents \<Rightarrow>
               (let next_namespace = strncpy namespace (unat namespace_len) @ [0];
                    next_entry = \<lparr>ns_namespace_len = namespace_len,
                                  ns_namespace = next_namespace,
                                  ns_command_registry = []\<rparr>
                in case env_malloc_entry env of
                     MallocFails errno \<Rightarrow>
                       Returns (STATUS_FROM_ERRNO errno, None) (registry_unlock_ignored env s)
                   | MallocOk contents' \<Rightarrow>
                       (let s = s\<lparr>ctl_namespace_registry := ctl_namespace_registry s @ [next_entry]\<rparr>
                        in RETURN_ON_ERROR (registry_unlock env s) (\<lambda>st. (st, None)) (\<lambda>s.
                             Returns (STATUS_OK, Some (length (ctl_namespace_registry s) - 1)) s))))))"

text \<open>
  The loop of \<open>es_control_register_command\<close> over a non-empty command list. Its body starts
  by setting \<open>command_entry\<close> to the head of the list again. \<open>Some True\<close>: the ID is taken;
  \<open>Some False\<close>: the loop ended with \<open>command_entry\<close> at the head; \<open>None\<close>: it never ends.
\<close>

partial_function (option) register_command_loop ::
  "EventlogSocketControlCommand list \<Rightarrow> EventlogSocketControlCommandId \<Rightarrow> bool option" where
  "register_command_loop cmds command_id =
     (let command_entry = (0 :: nat) in
      if cmd_command_id (cmds ! command_entry) = command_id then Some True
      else if Suc command_entry < length cmds then register_command_loop cmds command_id
      else Some False)"

definition es_control_register_command ::
  "control_env \<Rightarrow> namespace_ptr option \<Rightarrow> EventlogSocketControlCommandId \<Rightarrow>
   EventlogSocketControlCommandHandler option \<Rightarrow> user_data \<Rightarrow> control \<Rightarrow>
   (EventlogSocketStatus, control) outcome" where
  "es_control_register_command env namespace command_id command_handler command_data s =
     (case namespace of
        None \<Rightarrow> Returns (STATUS_FROM_ERRNO EINVAL) s
      | Some p \<Rightarrow>
          if p = 0 then Returns (STATUS_FROM_ERRNO EINVAL) s
          else if p \<ge> length (ctl_namespace_registry s) then Crashes
          else RETURN_ON_ERROR (registry_lock env s) (\<lambda>st. st) (\<lambda>s.
            (let next_entry = \<lparr>cmd_command_id = command_id,
                               cmd_command_handler = command_handler,
                               cmd_command_data = command_data\<rparr>;
                 ns = ctl_namespace_registry s ! p;
                 append_entry = (\<lambda>s. s\<lparr>ctl_namespace_registry := (ctl_namespace_registry s)
                   [p := ns\<lparr>ns_command_registry := ns_command_registry ns @ [next_entry]\<rparr>]\<rparr>);
                 finish = (\<lambda>s. RETURN_ON_ERROR (registry_unlock env s) (\<lambda>st. st) (Returns STATUS_OK))
             in if ns_command_registry ns = [] then
                  (case env_malloc_entry env of
                     MallocFails errno \<Rightarrow>
                       Returns (STATUS_FROM_ERRNO errno) (registry_unlock_ignored env s)
                   | MallocOk contents \<Rightarrow> finish (append_entry s))
                else
                  (case register_command_loop (ns_command_registry ns) command_id of
                     None \<Rightarrow> Hangs
                   | Some True \<Rightarrow>
                       Returns (STATUS_FROM_CODE EVENTLOG_SOCKET_ERR_CTL_EXISTS)
                         (registry_unlock_ignored env s)
                   | Some False \<Rightarrow>
                       (case env_malloc_entry env of
                          MallocFails errno \<Rightarrow>
                            Returns (STATUS_FROM_ERRNO errno) (registry_unlock_ignored env s)
                        | MallocOk contents \<Rightarrow> finish (append_entry s))))))"

definition es_control_status :: "control \<Rightarrow> EventlogSocketStatus" where
  "es_control_status s = ctl_status s"

text \<open>The loop of \<open>es_control_namespace_store_resolve\<close>; \<open>i\<close> is the position of the head.\<close>

fun namespace_resolve_from ::
  "nat \<Rightarrow> EventlogSocketControlNamespace list \<Rightarrow> nat \<Rightarrow> byte list \<Rightarrow> namespace_ptr option" where
  "namespace_resolve_from i [] namespace_len namespace = None"
| "namespace_resolve_from i (e # es) namespace_len namespace =
     (if es_control_namespace_store_match (Some e) namespace_len namespace then Some i
      else namespace_resolve_from (Suc i) es namespace_len namespace)"

definition es_control_namespace_store_resolve ::
  "control_env \<Rightarrow> nat \<Rightarrow> byte list \<Rightarrow> control \<Rightarrow>
   (EventlogSocketStatus \<times> namespace_ptr option, control) outcome" where
  "es_control_namespace_store_resolve env namespace_len namespace s =
     RETURN_ON_ERROR (registry_lock env s) (\<lambda>st. (st, None)) (\<lambda>s.
       (case namespace_resolve_from 0 (ctl_namespace_registry s) namespace_len namespace of
          Some p \<Rightarrow>
            RETURN_ON_ERROR (registry_unlock env s) (\<lambda>st. (st, None))
              (Returns (STATUS_OK, Some p))
        | None \<Rightarrow>
            RETURN_ON_ERROR (registry_unlock env s) (\<lambda>st. (st, None))
              (Returns (STATUS_OK, None))))"

text \<open>The loop of \<open>es_control_command_handle\<close>: the first command with the ID.\<close>

fun find_command ::
  "EventlogSocketControlCommand list \<Rightarrow> EventlogSocketControlCommandId \<Rightarrow>
   EventlogSocketControlCommand option" where
  "find_command [] command_id = None"
| "find_command (c # cs) command_id =
     (if cmd_command_id c = command_id then Some c else find_command cs command_id)"

definition es_control_command_handle ::
  "bool \<Rightarrow> control_env \<Rightarrow> namespace_ptr \<Rightarrow> EventlogSocketControlCommandId \<Rightarrow> control \<Rightarrow>
   (EventlogSocketStatus, control) outcome" where
  "es_control_command_handle ndebug env namespace command_id s =
     (if namespace \<ge> length (ctl_namespace_registry s) then Crashes else
      RETURN_ON_ERROR (registry_lock env s) (\<lambda>st. st) (\<lambda>s.
       (case find_command (ns_command_registry (ctl_namespace_registry s ! namespace)) command_id of
          Some command_entry \<Rightarrow>
            (case cmd_command_handler command_entry of
               None \<Rightarrow> c_assert ndebug False Crashes
             | Some command_handler \<Rightarrow>
                 (let s = s\<lparr>ctl_effects := ctl_effects s @
                              call_command_handler command_handler namespace command_id
                                (cmd_command_data command_entry)\<rparr>
                  in RETURN_ON_ERROR (registry_unlock env s) (\<lambda>st. st) (Returns STATUS_OK)))
        | None \<Rightarrow> RETURN_ON_ERROR (registry_unlock env s) (\<lambda>st. st) (Returns STATUS_OK))))"

section \<open>Matching and searching\<close>

lemma store_match_Some:
  "es_control_namespace_store_match (Some e) n name \<longleftrightarrow>
     strncmp name (ns_namespace e) (min n (unat (ns_namespace_len e))) = 0"
  by (auto simp: es_control_namespace_store_match_def min_def Let_def)

lemma namespace_is_registered_iff:
  "namespace_is_registered es n name \<longleftrightarrow>
     (\<exists>e \<in> set es. es_control_namespace_store_match (Some e) n name)"
  by (induction es) auto

lemma namespace_resolve_from_append:
  "namespace_resolve_from i (es @ fs) n name =
     (case namespace_resolve_from i es n name of
        Some p \<Rightarrow> Some p
      | None \<Rightarrow> namespace_resolve_from (i + length es) fs n name)"
  by (induction es arbitrary: i) (auto split: option.splits)

lemma namespace_resolve_from_None_iff:
  "namespace_resolve_from i es n name = None \<longleftrightarrow> \<not> namespace_is_registered es n name"
  by (induction es arbitrary: i) auto

lemma namespace_resolve_from_first:
  "p < length es \<Longrightarrow> es_control_namespace_store_match (Some (es ! p)) n name \<Longrightarrow>
   (\<forall>j < p. \<not> es_control_namespace_store_match (Some (es ! j)) n name) \<Longrightarrow>
     namespace_resolve_from i es n name = Some (i + p)"
proof (induction es arbitrary: i p)
  case (Cons e es)
  show ?case
  proof (cases p)
    case 0
    with Cons.prems show ?thesis by simp
  next
    case (Suc q)
    have "namespace_resolve_from (Suc i) es n name = Some (Suc i + q)"
    proof (rule Cons.IH)
      show "\<forall>j<q. \<not> es_control_namespace_store_match (Some (es ! j)) n name"
        using Cons.prems(3) Suc by (auto dest: spec [where x = "Suc _"])
    qed (use Cons.prems Suc in simp_all)
    moreover have "\<not> es_control_namespace_store_match (Some e) n name"
      using Cons.prems(3) Suc by (auto dest: spec [where x = 0])
    ultimately show ?thesis using Suc by simp
  qed
qed simp

lemma namespace_resolve_from_bound:
  "namespace_resolve_from i es n name = Some p \<Longrightarrow> i \<le> p \<and> p < i + length es"
  by (induction es arbitrary: i) (fastforce split: if_splits)+

lemma strncmp_strncpy: "strncmp xs (strncpy xs n @ ys) n = 0"
  by (induction xs n rule: strncpy.induct) auto

lemma strncmp_copy:
  "m \<le> n \<Longrightarrow> m \<le> length ys \<Longrightarrow>
     strncmp (strncpy name n @ zs) ys m = strncmp name ys m"
proof (induction name n arbitrary: ys m rule: strncpy.induct)
  case (2 n)
  then show ?case by (cases m; cases ys) auto
next
  case (3 c cs n)
  then show ?case by (cases m; cases ys) auto
qed auto

lemma find_command_iff:
  "find_command cs cid = Some c \<Longrightarrow> c \<in> set cs \<and> cmd_command_id c = cid"
  by (induction cs) (auto split: if_splits)

lemma find_command_append:
  "find_command (cs @ ds) cid =
     (case find_command cs cid of Some c \<Rightarrow> Some c | None \<Rightarrow> find_command ds cid)"
  by (induction cs) auto

section \<open>The invariant of the registry\<close>

text \<open>
  \<open>entry_wf\<close>: the array of an entry has \<open>namespace_len + 1\<close> bytes, the last of them NUL.
  The first entry is the builtin one, unmodified, and no entry matches the name of an
  earlier one.
\<close>

definition entry_wf :: "EventlogSocketControlNamespace \<Rightarrow> bool" where
  "entry_wf e \<longleftrightarrow>
     length (ns_namespace e) = Suc (unat (ns_namespace_len e)) \<and> last (ns_namespace e) = 0"

definition entries_clash ::
  "EventlogSocketControlNamespace \<Rightarrow> EventlogSocketControlNamespace \<Rightarrow> bool" where
  "entries_clash a b \<longleftrightarrow>
     es_control_namespace_store_match (Some a) (unat (ns_namespace_len b)) (ns_namespace b)"

definition registry_inv :: "control \<Rightarrow> bool" where
  "registry_inv s \<longleftrightarrow>
     (let es = ctl_namespace_registry s in
      es \<noteq> [] \<and> hd es = builtin_namespace_entry \<and> list_all entry_wf es \<and>
      sorted_wrt (\<lambda>a b. \<not> entries_clash a b) es)"

definition registry_ready :: "control \<Rightarrow> bool" where
  "registry_ready s \<longleftrightarrow> registry_inv s \<and> \<not> ctl_namespace_registry_mutex s"

lemma store_match_in_bounds:
  assumes "entry_wf e" "n \<le> length name"
  shows "min n (unat (ns_namespace_len e)) \<le> length name \<and>
         min n (unat (ns_namespace_len e)) < length (ns_namespace e)"
  using assms by (auto simp: entry_wf_def)

lemma registry_ready_initial [simp]: "registry_ready initial_control"
  by (simp add: registry_ready_def registry_inv_def initial_control_def entry_wf_def
      BUILTIN_NAMESPACE_bytes)

lemma entries_clash_update [simp]:
  "entries_clash (a\<lparr>ns_command_registry := r\<rparr>) b = entries_clash a b"
  "entries_clash a (b\<lparr>ns_command_registry := r\<rparr>) = entries_clash a b"
  by (simp_all add: entries_clash_def store_match_Some)

lemma sorted_wrt_list_update:
  assumes "sorted_wrt R xs" "i < length xs"
    and "\<And>y. R (xs ! i) y \<Longrightarrow> R x y" "\<And>y. R y (xs ! i) \<Longrightarrow> R y x"
  shows "sorted_wrt R (xs[i := x])"
  using assms(1,2) unfolding sorted_wrt_iff_nth_less
  by (auto simp: nth_list_update intro: assms(3,4))

lemma registry_inv_append_command:
  assumes "registry_inv s" "p < length (ctl_namespace_registry s)" "p \<noteq> 0"
  shows "registry_inv (s\<lparr>ctl_namespace_registry := (ctl_namespace_registry s)
           [p := (ctl_namespace_registry s ! p)\<lparr>ns_command_registry := r\<rparr>]\<rparr>)"
proof -
  let ?es = "ctl_namespace_registry s"
  let ?e = "(?es ! p)\<lparr>ns_command_registry := r\<rparr>"
  from assms(1) have I: "?es \<noteq> []" "hd ?es = builtin_namespace_entry" "list_all entry_wf ?es"
    "sorted_wrt (\<lambda>a b. \<not> entries_clash a b) ?es"
    by (auto simp: registry_inv_def Let_def)
  have "sorted_wrt (\<lambda>a b. \<not> entries_clash a b) (?es[p := ?e])"
    by (rule sorted_wrt_list_update [OF I(4) assms(2)]) simp_all
  moreover have "entry_wf ?e"
    using I(3) assms(2) by (auto simp: list_all_iff entry_wf_def)
  then have "list_all entry_wf (?es[p := ?e])"
    using I(3) by (auto simp: list_all_iff dest!: set_update_subset_insert [THEN subsetD])
  moreover have "hd (?es[p := ?e]) = builtin_namespace_entry"
    using I(1,2) assms(3) by (cases ?es; cases p) auto
  ultimately show ?thesis using I(1) by (simp add: registry_inv_def Let_def)
qed

lemma registry_inv_append_namespace:
  assumes "registry_inv s"
    and "\<not> namespace_is_registered (ctl_namespace_registry s) (unat len) name"
  shows "registry_inv (s\<lparr>ctl_namespace_registry := ctl_namespace_registry s @
           [\<lparr>ns_namespace_len = len, ns_namespace = strncpy name (unat len) @ [0],
             ns_command_registry = []\<rparr>]\<rparr>)"
proof -
  have "\<not> entries_clash e \<lparr>ns_namespace_len = len, ns_namespace = strncpy name (unat len) @ [0],
             ns_command_registry = []\<rparr>" if "e \<in> set (ctl_namespace_registry s)" for e
  proof -
    from that assms(1) have "entry_wf e" by (auto simp: registry_inv_def list_all_iff Let_def)
    then have "unat (ns_namespace_len e) < length (ns_namespace e)" by (simp add: entry_wf_def)
    with that assms(2) show ?thesis
      by (simp add: entries_clash_def store_match_Some namespace_is_registered_iff strncmp_copy)
  qed
  with assms(1) show ?thesis
    by (auto simp: registry_inv_def Let_def sorted_wrt_append entry_wf_def)
qed

section \<open>What each operation does\<close>

lemma registry_lock_simps [simp]:
  "ctl_namespace_registry_mutex s \<Longrightarrow> registry_lock env s = Hangs"
  "\<not> ctl_namespace_registry_mutex s \<Longrightarrow>
     registry_lock env s = Returns (STATUS_FROM_PTHREAD (env_lock env))
       (s\<lparr>ctl_namespace_registry_mutex := (env_lock env = 0)\<rparr>)"
  by (simp_all add: registry_lock_def mutex_blocks_def mutex_after_lock_def)

lemma registry_unlock_simps [simp]:
  "registry_unlock_ignored env s = s\<lparr>ctl_namespace_registry_mutex := (env_unlock env \<noteq> 0)\<rparr>"
  "registry_unlock env s = Returns (STATUS_FROM_PTHREAD (env_unlock env))
     (s\<lparr>ctl_namespace_registry_mutex := (env_unlock env \<noteq> 0)\<rparr>)"
  by (simp_all add: registry_unlock_def registry_unlock_ignored_def mutex_after_unlock_def)

lemma mutex_False_id [simp]:
  "\<not> ctl_namespace_registry_mutex s \<Longrightarrow> s\<lparr>ctl_namespace_registry_mutex := False\<rparr> = s"
  by simp

lemma register_command_loop_result:
  assumes "register_command_loop cmds cid = Some r"
  shows "cmd_command_id (cmds ! 0) = cid \<or> length cmds \<le> 1"
  by (rule register_command_loop.raw_induct
      [where P = "\<lambda>cmds cid r. cmd_command_id (cmds ! 0) = cid \<or> length cmds \<le> 1", OF _ assms])
    (fastforce simp: Let_def split: if_splits)

lemma register_command_loop_Cons:
  "register_command_loop (c # cs) cid =
     (if cmd_command_id c = cid then Some True
      else if cs = [] then Some False else None)"
proof (cases "cmd_command_id c = cid \<or> cs = []")
  case True
  then show ?thesis by (subst register_command_loop.simps) auto
next
  case False
  then have "register_command_loop (c # cs) cid = None"
    using register_command_loop_result [of "c # cs" cid]
    by (cases "register_command_loop (c # cs) cid") auto
  with False show ?thesis by simp
qed

text \<open>A resolution compares names up to the shorter length.\<close>

lemma new_entry_match:
  assumes "n \<le> length other"
  shows "es_control_namespace_store_match
      (Some \<lparr>ns_namespace_len = len, ns_namespace = strncpy name (unat len) @ [0], ns_command_registry = []\<rparr>) n other
    \<longleftrightarrow> strncmp other name (min n (unat len)) = 0"
  using assms strncmp_copy [of "min n (unat len)" "unat len" other name "[0]"]
  by (simp add: store_match_Some strncmp_sym [of other])

text \<open>C17: registering a namespace whose name no registered entry matches appends it to the registry:
  the call returns \<open>OK\<close> and a pointer to the new entry, releases the mutex and keeps the
  registry's invariant; the name then resolves to that pointer. Of the other names, those that
  resolved before still resolve to the same entry. Those that did not now resolve to the new entry
  if they agree with the new name on the shorter of the two lengths (so every prefix and every
  extension of the new name, which the registry does not tell from it), and still do not resolve
  otherwise.\<close>

theorem register_namespace_then_resolve:
  assumes "registry_ready s" "control_env_ok env" "control_env_ok env'"
    and new: "\<not> namespace_is_registered (ctl_namespace_registry s) (unat len) name"
  defines "p \<equiv> length (ctl_namespace_registry s)"
  shows "\<exists>s'. es_control_register_namespace env len name True s = Returns (STATUS_OK, Some p) s'
      \<and> registry_ready s'
      \<and> es_control_namespace_store_resolve env' (unat len) name s' = Returns (STATUS_OK, Some p) s'
      \<and> (\<forall>n other q. es_control_namespace_store_resolve env' n other s = Returns (STATUS_OK, Some q) s
           \<longrightarrow> es_control_namespace_store_resolve env' n other s' = Returns (STATUS_OK, Some q) s')
      \<and> (\<forall>n other. n \<le> length other
           \<and> es_control_namespace_store_resolve env' n other s = Returns (STATUS_OK, None) s
           \<longrightarrow> es_control_namespace_store_resolve env' n other s' =
                 Returns (STATUS_OK, if strncmp other name (min n (unat len)) = 0 then Some p else None) s')"
proof -
  let ?e = "\<lparr>ns_namespace_len = len, ns_namespace = strncpy name (unat len) @ [0],
             ns_command_registry = []\<rparr>"
  let ?s' = "s\<lparr>ctl_namespace_registry := ctl_namespace_registry s @ [?e]\<rparr>"
  from assms(1) have unlocked: "\<not> ctl_namespace_registry_mutex s" and inv: "registry_inv s"
    by (auto simp: registry_ready_def)
  from assms(2) obtain c d where env: "env_lock env = 0" "env_unlock env = 0"
    "env_malloc_name env = MallocOk c" "env_malloc_entry env = MallocOk d"
    by (rule control_env_okD)
  from assms(3) have env': "env_lock env' = 0" "env_unlock env' = 0"
    by (auto simp: control_env_ok_def)
  have reg: "es_control_register_namespace env len name True s = Returns (STATUS_OK, Some p) ?s'"
    using unlocked env new by (simp add: es_control_register_namespace_def p_def Let_def)
  have inv': "registry_inv ?s'" using inv new by (rule registry_inv_append_namespace)
  have self: "namespace_resolve_from 0 (ctl_namespace_registry ?s') (unat len) name = Some p"
    using new namespace_resolve_from_None_iff [of 0 "ctl_namespace_registry s" "unat len" name]
    by (simp add: namespace_resolve_from_append store_match_Some strncmp_strncpy p_def)
  have res: "es_control_namespace_store_resolve env' n nm t =
      Returns (STATUS_OK, namespace_resolve_from 0 (ctl_namespace_registry t) n nm) t"
    if "\<not> ctl_namespace_registry_mutex t" for n nm t
    using that env' by (auto simp: es_control_namespace_store_resolve_def split: option.splits)
  show ?thesis
    using reg inv' self unlocked res
    by (auto simp: registry_ready_def namespace_resolve_from_append new_entry_match p_def
        simp del: namespace_resolve_from_None_iff)
qed

lemma store_resolve_ready:
  assumes "\<not> ctl_namespace_registry_mutex s" "control_env_ok env"
  shows "es_control_namespace_store_resolve env n name s =
     Returns (STATUS_OK, namespace_resolve_from 0 (ctl_namespace_registry s) n name) s"
  using assms
  by (auto simp: es_control_namespace_store_resolve_def control_env_ok_def split: option.splits)

lemma demo_env_simps [simp]:
  "env_lock demo_control_env = 0" "env_unlock demo_control_env = 0"
  "env_malloc_name demo_control_env = MallocOk (\<lambda>_. 0)"
  "env_malloc_entry demo_control_env = MallocOk (\<lambda>_. 0)"
  by (simp_all add: demo_control_env_def)

lemma initial_control_simps [simp]:
  "ctl_namespace_registry initial_control = [builtin_namespace_entry]"
  "ctl_namespace_registry_mutex initial_control = False"
  "ctl_command_parser_state initial_control = STATE_MAGIC 0"
  "ctl_client_fd initial_control = -1"
  "ctl_effects initial_control = []"
  by (simp_all add: initial_control_def)

definition demo_name :: "byte list" where
  "demo_name = [0x63, 0x75, 0x73, 0x74, 0x6F, 0x6D]"

theorem register_namespace_then_resolve_witness:
  "\<exists>s'. es_control_register_namespace demo_control_env 6 demo_name True initial_control =
          Returns (STATUS_OK, Some 1) s'
      \<and> registry_ready s'
      \<and> es_control_namespace_store_resolve demo_control_env 6 demo_name s' =
          Returns (STATUS_OK, Some 1) s'
      \<and> es_control_namespace_store_resolve demo_control_env 3 demo_name s' =
          Returns (STATUS_OK, Some 1) s'"
proof -
  have before: "es_control_namespace_store_resolve demo_control_env 3 demo_name initial_control =
      Returns (STATUS_OK, None) initial_control"
    by (simp add: store_resolve_ready store_match_Some demo_name_def BUILTIN_NAMESPACE_bytes
        builtin_namespace_entry_def)
  have "\<not> namespace_is_registered (ctl_namespace_registry initial_control) (unat (6 :: byte)) demo_name"
    by (simp add: store_match_Some demo_name_def BUILTIN_NAMESPACE_bytes)
  from register_namespace_then_resolve [OF registry_ready_initial demo_control_env_ok
      demo_control_env_ok this] before
  show ?thesis by (auto simp: demo_name_def dest!: spec [of _ 3])
qed

text \<open>C37: the documentation refuses a name that "is already registered"; the code refuses more. Among
  names without NUL bytes, a name is refused with \<open>EVENTLOG_SOCKET_ERR_CTL_EXISTS\<close> exactly if
  it is a prefix of a registered name or a registered name is a prefix of it. So no two
  registered names are ever comparable, and the empty name is never accepted.\<close>

theorem register_namespace_refused_iff_prefix:
  assumes "\<not> ctl_namespace_registry_mutex s" "env_lock env = 0"
    and "unat len \<le> length name" "0 \<notin> set (take (unat len) name)"
    and wf: "\<forall>e \<in> set (ctl_namespace_registry s).
          entry_wf e \<and> 0 \<notin> set (take (unat (ns_namespace_len e)) (ns_namespace e))"
  shows "(\<exists>s'. es_control_register_namespace env len name True s =
             Returns (STATUS_FROM_CODE EVENTLOG_SOCKET_ERR_CTL_EXISTS, None) s') \<longleftrightarrow>
         (\<exists>e \<in> set (ctl_namespace_registry s).
             prefix (take (unat len) name) (take (unat (ns_namespace_len e)) (ns_namespace e)) \<or>
             prefix (take (unat (ns_namespace_len e)) (ns_namespace e)) (take (unat len) name))"
proof -
  have "es_control_namespace_store_match (Some e) (unat len) name \<longleftrightarrow>
      prefix (take (unat len) name) (take (unat (ns_namespace_len e)) (ns_namespace e)) \<or>
      prefix (take (unat (ns_namespace_len e)) (ns_namespace e)) (take (unat len) name)"
    if e: "e \<in> set (ctl_namespace_registry s)" for e
  proof -
    let ?k = "unat (ns_namespace_len e)" and ?n = "unat len" and ?a = "ns_namespace e"
    from wf e have "?k \<le> length ?a" by (simp add: entry_wf_def)
    moreover have "0 \<notin> set (take (min ?n ?k) name)"
      using assms(4) by (metis min.cobounded1 set_take_subset_set_take subsetD)
    ultimately have "es_control_namespace_store_match (Some e) ?n name \<longleftrightarrow>
        take (min ?n ?k) name = take (min ?n ?k) ?a"
      using assms(3) by (simp add: store_match_Some strncmp_eq_0_iff_take)
    also have "\<dots> \<longleftrightarrow> prefix (take ?n name) (take ?k ?a) \<or> prefix (take ?k ?a) (take ?n name)"
      using assms(3) \<open>?k \<le> length ?a\<close> by (rule take_min_eq_iff_prefix)
    finally show ?thesis .
  qed
  then show ?thesis
    using assms(1,2)
    by (auto simp: es_control_register_namespace_def namespace_is_registered_iff Let_def
        split: malloc_result.splits)
qed

theorem register_namespace_refused_iff_prefix_witness:
  "\<exists>s'. es_control_register_namespace demo_control_env 5 BUILTIN_NAMESPACE True initial_control =
     Returns (STATUS_FROM_CODE EVENTLOG_SOCKET_ERR_CTL_EXISTS, None) s'"
  by (subst register_namespace_refused_iff_prefix)
    (simp_all add: entry_wf_def BUILTIN_NAMESPACE_bytes)

text \<open>
  All operations on the registry as one family, with the status and the pointer they hand
  back.
\<close>

datatype registry_op =
    OpRegisterNamespace control_env byte "byte list" bool
  | OpRegisterCommand control_env "namespace_ptr option" EventlogSocketControlCommandId
      "EventlogSocketControlCommandHandler option" user_data
  | OpResolve control_env nat "byte list"
  | OpHandle control_env namespace_ptr EventlogSocketControlCommandId

fun registry_step ::
  "registry_op \<Rightarrow> control \<Rightarrow> (EventlogSocketStatus \<times> namespace_ptr option, control) outcome" where
  "registry_step (OpRegisterNamespace env len name out) s =
     es_control_register_namespace env len name out s"
| "registry_step (OpRegisterCommand env ns cid h d) s =
     call_bind (es_control_register_command env ns cid h d s) (\<lambda>st. Returns (st, None))"
| "registry_step (OpResolve env n name) s =
     es_control_namespace_store_resolve env n name s"
| "registry_step (OpHandle env ns cid) s =
     call_bind (es_control_command_handle True env ns cid s) (\<lambda>st. Returns (st, None))"

lemma registry_inv_mutex [simp]:
  "registry_inv (s\<lparr>ctl_namespace_registry_mutex := b\<rparr>) = registry_inv s"
  "registry_inv (s\<lparr>ctl_effects := es\<rparr>) = registry_inv s"
  "registry_inv (s\<lparr>ctl_namespace_registry := r, ctl_namespace_registry_mutex := b\<rparr>) =
     registry_inv (s\<lparr>ctl_namespace_registry := r\<rparr>)"
  by (simp_all add: registry_inv_def)

lemma register_namespace_keeps:
  assumes "registry_inv s" "es_control_register_namespace env len name out s = Returns r s'"
  shows "registry_inv s'"
  using assms registry_inv_append_namespace [of s len name]
  by (cases "ctl_namespace_registry_mutex s")
    (auto simp: es_control_register_namespace_def Let_def
      split: if_splits malloc_result.splits)

lemma register_command_keeps:
  assumes "registry_inv s" "es_control_register_command env ns cid h d s = Returns r s'"
  shows "registry_inv s'"
  using assms registry_inv_append_command [OF assms(1)]
  by (cases "ctl_namespace_registry_mutex s")
    (auto simp: es_control_register_command_def Let_def
      split: if_splits malloc_result.splits option.splits bool.splits)

lemma resolve_keeps:
  assumes "registry_inv s" "es_control_namespace_store_resolve env n name s = Returns r s'"
  shows "registry_inv s'"
  using assms
  by (cases "ctl_namespace_registry_mutex s")
    (auto simp: es_control_namespace_store_resolve_def split: if_splits option.splits)

lemma command_handle_keeps:
  assumes "registry_inv s" "es_control_command_handle nd env ns cid s = Returns r s'"
  shows "registry_inv s'"
  using assms
  by (cases "ctl_namespace_registry_mutex s")
    (auto simp: es_control_command_handle_def c_assert_def Let_def
      split: if_splits option.splits)

interpretation registry: state_ops registry_inv registry_step
proof
  fix s op r s'
  assume inv: "registry_inv s" and step: "registry_step op s = Returns r s'"
  show "registry_inv s'"
  proof (cases op)
    case (OpRegisterCommand env ns cid h d)
    with step obtain st where "es_control_register_command env ns cid h d s = Returns st s'"
      by (auto simp: call_bind_Returns_iff)
    with inv show ?thesis by (rule register_command_keeps)
  next
    case (OpHandle env ns cid)
    with step obtain st where "es_control_command_handle True env ns cid s = Returns st s'"
      by (auto simp: call_bind_Returns_iff)
    with inv show ?thesis by (rule command_handle_keeps)
  next
    case (OpRegisterNamespace env len name out)
    with step show ?thesis by (simp add: register_namespace_keeps [OF inv])
  next
    case (OpResolve env n name)
    with step show ?thesis by (simp add: resolve_keeps [OF inv])
  qed
qed

lemma resolve_self:
  assumes "registry_inv s" "p < length (ctl_namespace_registry s)"
    and "\<not> ctl_namespace_registry_mutex s" "control_env_ok env"
  shows "es_control_namespace_store_resolve env
           (unat (ns_namespace_len (ctl_namespace_registry s ! p)))
           (ns_namespace (ctl_namespace_registry s ! p)) s = Returns (STATUS_OK, Some p) s"
proof -
  let ?es = "ctl_namespace_registry s"
  have "\<forall>j < p. \<not> entries_clash (?es ! j) (?es ! p)"
    using assms(1,2) by (auto simp: registry_inv_def Let_def sorted_wrt_iff_nth_less)
  then have "namespace_resolve_from 0 ?es (unat (ns_namespace_len (?es ! p)))
      (ns_namespace (?es ! p)) = Some (0 + p)"
    using assms(2) by (intro namespace_resolve_from_first) (auto simp: entries_clash_def store_match_Some)
  then show ?thesis using assms(3,4) by (simp add: store_resolve_ready)
qed

text \<open>C12: whatever sequence of registrations, resolutions and commands has been performed since the
  program started, every registered namespace resolves to itself: no later registration hides
  or captures it.\<close>

theorem registered_names_resolve_to_themselves:
  assumes "run_ops registry_step ops initial_control = Returns rs s"
    and "p < length (ctl_namespace_registry s)"
    and "\<not> ctl_namespace_registry_mutex s" "control_env_ok env"
  shows "es_control_namespace_store_resolve env
           (unat (ns_namespace_len (ctl_namespace_registry s ! p)))
           (ns_namespace (ctl_namespace_registry s ! p)) s = Returns (STATUS_OK, Some p) s"
proof -
  have "registry_inv s"
    using registry.run_keeps [OF _ assms(1)] registry_ready_initial by (simp add: registry_ready_def)
  then show ?thesis using assms(2-4) by (rule resolve_self)
qed

lemma demo_register_run:
  "run_ops registry_step [OpRegisterNamespace demo_control_env 6 demo_name True] initial_control =
     Returns [(STATUS_OK, Some 1)]
       (initial_control\<lparr>ctl_namespace_registry :=
          [builtin_namespace_entry,
           \<lparr>ns_namespace_len = 6, ns_namespace = demo_name @ [0], ns_command_registry = []\<rparr>]\<rparr>)"
  by (simp add: es_control_register_namespace_def store_match_Some demo_name_def
      BUILTIN_NAMESPACE_bytes Let_def)

theorem registered_names_resolve_to_themselves_witness:
  "\<exists>s. run_ops registry_step [OpRegisterNamespace demo_control_env 6 demo_name True] initial_control =
         Returns [(STATUS_OK, Some 1)] s \<and>
       es_control_namespace_store_resolve demo_control_env 6 (demo_name @ [0]) s =
         Returns (STATUS_OK, Some 1) s"
  using demo_register_run
    registered_names_resolve_to_themselves [OF demo_register_run, of 1 demo_control_env]
  by (simp del: run_ops.simps)

definition appended_command ::
  "namespace_ptr \<Rightarrow> EventlogSocketControlCommand \<Rightarrow> control \<Rightarrow> control" where
  "appended_command p c s =
     s\<lparr>ctl_namespace_registry := (ctl_namespace_registry s)
         [p := (ctl_namespace_registry s ! p)\<lparr>ns_command_registry :=
            ns_command_registry (ctl_namespace_registry s ! p) @ [c]\<rparr>]\<rparr>"

lemma register_command_result:
  assumes "\<not> ctl_namespace_registry_mutex s" "control_env_ok env"
    and "p \<noteq> 0" "p < length (ctl_namespace_registry s)"
    and c: "c = \<lparr>cmd_command_id = cid, cmd_command_handler = h, cmd_command_data = d\<rparr>"
  shows "es_control_register_command env (Some p) cid h d s =
     (case ns_command_registry (ctl_namespace_registry s ! p) of
        [] \<Rightarrow> Returns STATUS_OK (appended_command p c s)
      | c0 # rest \<Rightarrow>
          if cmd_command_id c0 = cid
          then Returns (STATUS_FROM_CODE EVENTLOG_SOCKET_ERR_CTL_EXISTS) s
          else if rest = [] then Returns STATUS_OK (appended_command p c s)
          else Hangs)"
proof -
  from assms(2) obtain d1 d2 where env: "env_lock env = 0" "env_unlock env = 0"
    "env_malloc_name env = MallocOk d1" "env_malloc_entry env = MallocOk d2"
    by (rule control_env_okD)
  show ?thesis
    using assms(1,3,4) env
    by (auto simp: es_control_register_command_def Let_def c appended_command_def
        register_command_loop_Cons split: list.splits)
qed

lemma command_handle_result:
  assumes "\<not> ctl_namespace_registry_mutex s" "control_env_ok env"
    and "p < length (ctl_namespace_registry s)"
  shows "es_control_command_handle nd env p cid s =
     (case find_command (ns_command_registry (ctl_namespace_registry s ! p)) cid of
        None \<Rightarrow> Returns STATUS_OK s
      | Some c \<Rightarrow>
          (case cmd_command_handler c of
             None \<Rightarrow> c_assert nd False Crashes
           | Some h \<Rightarrow> Returns STATUS_OK (s\<lparr>ctl_effects := ctl_effects s @
               call_command_handler h p cid (cmd_command_data c)\<rparr>)))"
  using assms
  by (auto simp: es_control_command_handle_def control_env_ok_def Let_def split: option.splits)

text \<open>C18: a command registered in a namespace that has no command yet, or one with another ID, is
  accepted, and from then on a message with its ID calls its handler once, with the namespace,
  the ID and the registered data; what a message with any other ID does is unchanged.\<close>

theorem register_command_then_handle:
  assumes "\<not> ctl_namespace_registry_mutex s" "control_env_ok env" "control_env_ok env'"
    and "p \<noteq> 0" "p < length (ctl_namespace_registry s)"
    and cmds: "ns_command_registry (ctl_namespace_registry s ! p) = cs" "length cs \<le> 1"
      "cid \<notin> cmd_command_id ` set cs"
  shows "\<exists>s'. es_control_register_command env (Some p) cid (Some h) d s = Returns STATUS_OK s'
     \<and> es_control_command_handle nd env' p cid s' =
         Returns STATUS_OK (s'\<lparr>ctl_effects := ctl_effects s @ call_command_handler h p cid d\<rparr>)
     \<and> (\<forall>other t. other \<noteq> cid \<longrightarrow>
          es_control_command_handle nd env' p other s = Returns STATUS_OK t \<longrightarrow>
          (\<exists>t'. es_control_command_handle nd env' p other s' = Returns STATUS_OK t' \<and>
                ctl_effects t' = ctl_effects t))"
proof -
  let ?c = "\<lparr>cmd_command_id = cid, cmd_command_handler = Some h, cmd_command_data = d\<rparr>"
  let ?s' = "appended_command p ?c s"
  have reg: "es_control_register_command env (Some p) cid (Some h) d s = Returns STATUS_OK ?s'"
    using assms by (auto simp: register_command_result [OF _ _ _ _ refl] length_Suc_conv le_Suc_eq split: list.splits)
  have s': "\<not> ctl_namespace_registry_mutex ?s'" "p < length (ctl_namespace_registry ?s')"
    "ns_command_registry (ctl_namespace_registry ?s' ! p) = cs @ [?c]"
    "ctl_effects ?s' = ctl_effects s"
    using assms by (simp_all add: appended_command_def)
  have none: "find_command cs cid = None"
    using cmds(3) find_command_iff [of cs cid] by (cases "find_command cs cid") auto
  have handle: "es_control_command_handle nd env' p cid ?s' =
      Returns STATUS_OK (?s'\<lparr>ctl_effects := ctl_effects s @ call_command_handler h p cid d\<rparr>)"
    using s' none assms(3) by (simp add: command_handle_result find_command_append)
  have other: "\<exists>t'. es_control_command_handle nd env' p i ?s' = Returns STATUS_OK t' \<and>
      ctl_effects t' = ctl_effects t"
    if "i \<noteq> cid" "es_control_command_handle nd env' p i s = Returns STATUS_OK t" for i t
    using that s' assms(1,3,5) cmds(1)
    by (auto simp: command_handle_result find_command_append c_assert_def
        split: option.splits if_splits)
  show ?thesis using reg handle other by blast
qed

definition demo_registered :: control where
  "demo_registered = initial_control\<lparr>ctl_namespace_registry :=
     [builtin_namespace_entry,
      \<lparr>ns_namespace_len = 6, ns_namespace = demo_name @ [0], ns_command_registry = []\<rparr>]\<rparr>"

theorem register_command_then_handle_witness:
  "\<exists>s'. es_control_register_command demo_control_env (Some 1) 1 (Some (UserHandler 7)) 42
          demo_registered = Returns STATUS_OK s'
     \<and> es_control_command_handle True demo_control_env 1 1 s' =
          Returns STATUS_OK (s'\<lparr>ctl_effects := [CallsUser 7 1 1 42]\<rparr>)"
  using register_command_then_handle [of demo_registered demo_control_env demo_control_env 1 "[]" 1
      "UserHandler 7" 42 True]
  by (auto simp: demo_registered_def)

text \<open>C39: the loop that looks for the end of a namespace's command list starts again at the head in
  every round. Once a namespace has two commands, registering any ID other than the first
  command's never returns (and holds the registry's mutex for ever); a second use of the
  second command's ID is among these calls, although it should be refused.\<close>

theorem third_command_never_returns:
  assumes "\<not> ctl_namespace_registry_mutex s" "control_env_ok env"
    and "p \<noteq> 0" "p < length (ctl_namespace_registry s)"
    and "ns_command_registry (ctl_namespace_registry s ! p) = c1 # c2 # cs"
    and "cid \<noteq> cmd_command_id c1"
  shows "es_control_register_command env (Some p) cid h d s = Hangs"
  using assms by (simp add: register_command_result [OF _ _ _ _ refl])

definition demo_two_commands :: control where
  "demo_two_commands = initial_control\<lparr>ctl_namespace_registry :=
     [builtin_namespace_entry,
      \<lparr>ns_namespace_len = 6, ns_namespace = demo_name @ [0],
       ns_command_registry =
         [\<lparr>cmd_command_id = 1, cmd_command_handler = Some (UserHandler 1), cmd_command_data = 0\<rparr>,
          \<lparr>cmd_command_id = 2, cmd_command_handler = Some (UserHandler 2), cmd_command_data = 0\<rparr>]\<rparr>]\<rparr>"

theorem third_command_never_returns_witness:
  "es_control_register_command demo_control_env (Some 1) 3 (Some (UserHandler 3)) 0
     demo_two_commands = Hangs"
  using third_command_never_returns [of demo_two_commands demo_control_env 1
      "\<lparr>cmd_command_id = 1, cmd_command_handler = Some (UserHandler 1), cmd_command_data = 0\<rparr>"
      "\<lparr>cmd_command_id = 2, cmd_command_handler = Some (UserHandler 2), cmd_command_data = 0\<rparr>"
      "[]" 3 "Some (UserHandler 3)" 0]
  by (simp add: demo_two_commands_def)

text \<open>A message to the builtin namespace with ID 1 to 5 makes the RTS call the documentation
  promises for it, in any state the program can reach; any other ID has no effect.\<close>

theorem builtin_commands_call_the_rts:
  assumes "registry_ready s" "control_env_ok env"
  shows "es_control_command_handle nd env 0 cid s =
     Returns STATUS_OK (s\<lparr>ctl_effects := ctl_effects s @
       (if cid = 1 then [CallsStartProfTimer]
        else if cid = 2 then [CallsStopProfTimer]
        else if cid = 3 then [CallsStartHeapProfTimer]
        else if cid = 4 then [CallsStopHeapProfTimer]
        else if cid = 5 then [CallsRequestHeapCensus]
        else [])\<rparr>)"
proof -
  from assms(1) have s: "\<not> ctl_namespace_registry_mutex s" "0 < length (ctl_namespace_registry s)"
    "ctl_namespace_registry s ! 0 = builtin_namespace_entry"
    by (auto simp: registry_ready_def registry_inv_def Let_def hd_conv_nth)
  then show ?thesis
    using assms(2)
    by (simp add: command_handle_result builtin_namespace_entry_def builtin_id_defs
        es_control_start_profiling_def es_control_stop_profiling_def
        es_control_start_heap_profiling_def es_control_stop_heap_profiling_def
        es_control_request_heap_census_def)
qed

theorem builtin_commands_call_the_rts_witness:
  "es_control_command_handle True demo_control_env 0 5 initial_control =
     Returns STATUS_OK (initial_control\<lparr>ctl_effects := [CallsRequestHeapCensus]\<rparr>)"
  using builtin_commands_call_the_rts [OF registry_ready_initial demo_control_env_ok, of True 5]
  by simp

text \<open>The handler of a command is called with the mutex of the registry held (see
  \<open>es_control_command_handle\<close>), so a handler that registers anything waits for itself.\<close>

lemma registration_in_handler_deadlocks:
  assumes "ctl_namespace_registry_mutex s"
  shows "es_control_register_namespace env len name True s = Hangs"
    and "p \<noteq> 0 \<Longrightarrow> p < length (ctl_namespace_registry s) \<Longrightarrow>
      es_control_register_command env (Some p) cid handler data s = Hangs"
  using assms
  by (simp_all add: es_control_register_namespace_def es_control_register_command_def registry_lock_def
      mutex_blocks_def RETURN_ON_ERROR_def RETURN_ON_ERROR_CLEANUP_def)

end
