(* ===== verification/ES_Parser.thy ===== *)
theory ES_Parser
  imports ES_Registry
begin

text \<open>
  The incremental command parser of \<open>control.c\<close>. A byte of the chunk is handled by one round
  of the \<open>for\<close> loop, which is one \<open>switch\<close> on the parser's state; every case of the switch
  is a definition. A round either returns from the function (\<open>Inl status\<close>) or continues
  (\<open>Inr chunk_index\<close>, before the loop's \<open>++chunk_index\<close>).

  \<open>chunk_index\<close> and \<open>chunk_size\<close> are 64-bit words, the lengths and positions of the
  namespace buffer 8-bit words, with the conversions between them as the C code has them.
  \<open>env i\<close> is what the system answers to the calls of the round that starts at index \<open>i\<close>.
\<close>

section \<open>Operations\<close>

definition CONTROL_MAGIC_LEN :: nat where
  "CONTROL_MAGIC_LEN = 4"

definition g_control_magic :: "byte list" where
  "g_control_magic = [0xF0, 0x9E, 0x97, 0x8C]"

definition EVENTLOG_SOCKET_CONTROL_PROTOCOL_VERSION :: byte where
  "EVENTLOG_SOCKET_CONTROL_PROTOCOL_VERSION = 0"

definition es_control_command_parser_enter_state ::
  "bool \<Rightarrow> control_env \<Rightarrow> ControlCommandParserStateTag \<Rightarrow> byte option \<Rightarrow> control \<Rightarrow>
   (EventlogSocketStatus, control) outcome" where
  "es_control_command_parser_enter_state ndebug env tag data s =
     c_assert ndebug (tag = CONTROL_COMMAND_PARSER_STATE_MAGIC \<or>
                      parser_tag (ctl_command_parser_state s) \<noteq> tag)
     (case tag of
        CONTROL_COMMAND_PARSER_STATE_MAGIC \<Rightarrow>
          Returns STATUS_OK (s\<lparr>ctl_command_parser_state :=
            STATE_MAGIC (if data = Some (g_control_magic ! 0) then 1 else 0)\<rparr>)
      | CONTROL_COMMAND_PARSER_STATE_PROTOCOL_VERSION \<Rightarrow>
          c_assert ndebug (data = None)
            (Returns STATUS_OK (s\<lparr>ctl_command_parser_state := STATE_PROTOCOL_VERSION\<rparr>))
      | CONTROL_COMMAND_PARSER_STATE_NAMESPACE_LEN \<Rightarrow>
          c_assert ndebug (data = None)
            (Returns STATUS_OK (s\<lparr>ctl_command_parser_state := STATE_NAMESPACE_LEN\<rparr>))
      | CONTROL_COMMAND_PARSER_STATE_NAMESPACE \<Rightarrow>
          c_assert ndebug (data \<noteq> None)
          (case data of
             None \<Rightarrow> Crashes
           | Some namespace_len \<Rightarrow>
               (case env_malloc_name env of
                  MallocFails errno \<Rightarrow>
                    RETURN_ON_ERROR
                      (Returns (STATUS_FROM_ERRNO errno)
                        (s\<lparr>ctl_command_parser_state := STATE_NAMESPACE namespace_len 0 []\<rparr>))
                      (\<lambda>st. st) (\<lambda>s. Crashes)
                | MallocOk contents \<Rightarrow>
                    Returns STATUS_OK (s\<lparr>ctl_command_parser_state :=
                      STATE_NAMESPACE namespace_len 0
                        ((malloc_block contents (unat namespace_len + 1))[unat namespace_len := 0])\<rparr>)))
      | CONTROL_COMMAND_PARSER_STATE_COMMAND_ID \<Rightarrow>
          c_assert ndebug (data = None)
            (Returns STATUS_OK (s\<lparr>ctl_command_parser_state := STATE_COMMAND_ID None\<rparr>)))"

definition parse_magic ::
  "bool \<Rightarrow> control_env \<Rightarrow> byte \<Rightarrow> byte \<Rightarrow> size_t \<Rightarrow> control \<Rightarrow>
   (EventlogSocketStatus + size_t, control) outcome" where
  "parse_magic ndebug env header_pos current_byte chunk_index s =
     c_assert ndebug (unat header_pos < CONTROL_MAGIC_LEN)
     (if unat header_pos \<ge> CONTROL_MAGIC_LEN then Crashes
      else
        (let expected_byte = g_control_magic ! unat header_pos
         in if current_byte = expected_byte then
              (let header_pos = header_pos + 1;
                   s = s\<lparr>ctl_command_parser_state := STATE_MAGIC header_pos\<rparr>
               in if unat header_pos \<ge> CONTROL_MAGIC_LEN then
                    RETURN_ON_ERROR
                      (es_control_command_parser_enter_state ndebug env
                        CONTROL_COMMAND_PARSER_STATE_PROTOCOL_VERSION None s)
                      Inl (Returns (Inr chunk_index))
                  else Returns (Inr chunk_index) s)
            else
              RETURN_ON_ERROR
                (es_control_command_parser_enter_state ndebug env
                  CONTROL_COMMAND_PARSER_STATE_MAGIC (Some current_byte) s)
                Inl (Returns (Inr chunk_index))))"

definition parse_namespace_len ::
  "bool \<Rightarrow> control_env \<Rightarrow> byte \<Rightarrow> size_t \<Rightarrow> control \<Rightarrow>
   (EventlogSocketStatus + size_t, control) outcome" where
  "parse_namespace_len ndebug env current_byte chunk_index s =
     (if current_byte = 0 then
        RETURN_ON_ERROR
          (es_control_command_parser_enter_state ndebug env
            CONTROL_COMMAND_PARSER_STATE_MAGIC (Some current_byte) s)
          Inl (Returns (Inr chunk_index))
      else
        RETURN_ON_ERROR
          (es_control_command_parser_enter_state ndebug env
            CONTROL_COMMAND_PARSER_STATE_NAMESPACE (Some current_byte) s)
          Inl (Returns (Inr chunk_index)))"

text \<open>
  The case of the protocol version. Its second branch does not end with \<open>continue\<close>: control
  falls through into the case of the namespace length, with the same byte.
\<close>

definition parse_protocol_version ::
  "bool \<Rightarrow> control_env \<Rightarrow> byte \<Rightarrow> size_t \<Rightarrow> control \<Rightarrow>
   (EventlogSocketStatus + size_t, control) outcome" where
  "parse_protocol_version ndebug env current_byte chunk_index s =
     (if current_byte = EVENTLOG_SOCKET_CONTROL_PROTOCOL_VERSION then
        RETURN_ON_ERROR
          (es_control_command_parser_enter_state ndebug env
            CONTROL_COMMAND_PARSER_STATE_NAMESPACE_LEN None s)
          Inl (Returns (Inr chunk_index))
      else
        RETURN_ON_ERROR
          (es_control_command_parser_enter_state ndebug env
            CONTROL_COMMAND_PARSER_STATE_MAGIC (Some current_byte) s)
          Inl (parse_namespace_len ndebug env current_byte chunk_index))"

definition parse_namespace ::
  "bool \<Rightarrow> control_env \<Rightarrow> byte \<Rightarrow> byte \<Rightarrow> byte list \<Rightarrow> size_t \<Rightarrow> byte list \<Rightarrow> size_t \<Rightarrow> control \<Rightarrow>
   (EventlogSocketStatus + size_t, control) outcome" where
  "parse_namespace ndebug env namespace_buffer_len namespace_buffer_pos namespace_buffer
       chunk_size chunk chunk_index s =
     c_assert ndebug (namespace_buffer_len > 0)
     (c_assert ndebug (namespace_buffer_pos < namespace_buffer_len)
     (let current_byte = chunk ! unat chunk_index;
          required_bytes_for_namespace = namespace_buffer_len - namespace_buffer_pos
      in c_assert ndebug (required_bytes_for_namespace > 0)
     (c_assert ndebug (chunk_index < chunk_size)
     (let remaining_bytes_in_chunk = (ucast (chunk_size - chunk_index) :: byte)
      in c_assert ndebug (remaining_bytes_in_chunk > 0)
     (let available_bytes =
            (if remaining_bytes_in_chunk < required_bytes_for_namespace
             then remaining_bytes_in_chunk else required_bytes_for_namespace)
      in c_assert ndebug (available_bytes > 0)
     (case memcpy_at namespace_buffer (unat namespace_buffer_pos)
             (take (unat available_bytes) (drop (unat chunk_index) chunk)) of
        None \<Rightarrow> Crashes
      | Some namespace_buffer \<Rightarrow>
          (let namespace_buffer_pos = namespace_buffer_pos + available_bytes;
               s = s\<lparr>ctl_command_parser_state :=
                      STATE_NAMESPACE namespace_buffer_len namespace_buffer_pos namespace_buffer\<rparr>;
               next_index = chunk_index + (ucast available_bytes - 1)
           in if namespace_buffer_pos < namespace_buffer_len then Returns (Inr next_index) s
              else
                call_bind
                  (es_control_namespace_store_resolve env (unat namespace_buffer_len)
                    namespace_buffer s)
                  (\<lambda>(status, namespace) s.
                    if STATUS_IS_ERROR status then Returns (Inl status) s
                    else
                      (case namespace of
                         Some p \<Rightarrow>
                           RETURN_ON_ERROR
                             (es_control_command_parser_enter_state ndebug env
                               CONTROL_COMMAND_PARSER_STATE_COMMAND_ID None s)
                             Inl
                             (\<lambda>s. Returns (Inr next_index)
                               (s\<lparr>ctl_command_parser_state := STATE_COMMAND_ID (Some p)\<rparr>))
                       | None \<Rightarrow>
                           RETURN_ON_ERROR
                             (es_control_command_parser_enter_state ndebug env
                               CONTROL_COMMAND_PARSER_STATE_MAGIC (Some current_byte) s)
                             Inl (Returns (Inr chunk_index)))))))))))"

definition parse_command_id ::
  "bool \<Rightarrow> control_env \<Rightarrow> namespace_ptr option \<Rightarrow> byte \<Rightarrow> size_t \<Rightarrow> control \<Rightarrow>
   (EventlogSocketStatus + size_t, control) outcome" where
  "parse_command_id ndebug env namespace current_byte chunk_index s =
     (case namespace of
        None \<Rightarrow> Crashes
      | Some p \<Rightarrow>
          RETURN_ON_ERROR (es_control_command_handle ndebug env p current_byte s) Inl (\<lambda>s.
            RETURN_ON_ERROR
              (es_control_command_parser_enter_state ndebug env
                CONTROL_COMMAND_PARSER_STATE_MAGIC None s)
              Inl (Returns (Inr chunk_index))))"

definition handle_chunk_round ::
  "bool \<Rightarrow> control_env \<Rightarrow> size_t \<Rightarrow> byte list \<Rightarrow> size_t \<Rightarrow> control \<Rightarrow>
   (EventlogSocketStatus + size_t, control) outcome" where
  "handle_chunk_round ndebug env chunk_size chunk chunk_index s =
     (let current_byte = chunk ! unat chunk_index
      in case ctl_command_parser_state s of
           STATE_MAGIC header_pos \<Rightarrow>
             parse_magic ndebug env header_pos current_byte chunk_index s
         | STATE_PROTOCOL_VERSION \<Rightarrow>
             parse_protocol_version ndebug env current_byte chunk_index s
         | STATE_NAMESPACE_LEN \<Rightarrow>
             parse_namespace_len ndebug env current_byte chunk_index s
         | STATE_NAMESPACE len pos buffer \<Rightarrow>
             parse_namespace ndebug env len pos buffer chunk_size chunk chunk_index s
         | STATE_COMMAND_ID namespace \<Rightarrow>
             parse_command_id ndebug env namespace current_byte chunk_index s)"

text \<open>The \<open>for\<close> loop; \<open>None\<close>: it never ends.\<close>

partial_function (option) handle_chunk_loop ::
  "bool \<Rightarrow> (size_t \<Rightarrow> control_env) \<Rightarrow> size_t \<Rightarrow> byte list \<Rightarrow> size_t \<Rightarrow> control \<Rightarrow>
   (EventlogSocketStatus, control) outcome option" where
  "handle_chunk_loop ndebug env chunk_size chunk chunk_index s =
     (if chunk_index < chunk_size then
        (case handle_chunk_round ndebug (env chunk_index) chunk_size chunk chunk_index s of
           Returns r s \<Rightarrow>
             (case r of
                Inl status \<Rightarrow> Some (Returns status s)
              | Inr i \<Rightarrow> handle_chunk_loop ndebug env chunk_size chunk (i + 1) s)
         | ThreadExits s \<Rightarrow> Some (ThreadExits s)
         | Aborts \<Rightarrow> Some Aborts
         | Crashes \<Rightarrow> Some Crashes
         | Hangs \<Rightarrow> Some Hangs)
      else Some (Returns STATUS_OK s))"

definition es_control_command_parser_handle_chunk ::
  "bool \<Rightarrow> (size_t \<Rightarrow> control_env) \<Rightarrow> size_t \<Rightarrow> byte list \<Rightarrow> control \<Rightarrow>
   (EventlogSocketStatus, control) outcome" where
  "es_control_command_parser_handle_chunk ndebug env chunk_size chunk s =
     (case handle_chunk_loop ndebug env chunk_size chunk 0 s of
        None \<Rightarrow> Hangs
      | Some result \<Rightarrow> result)"

end
