(* ===== verification/ES_ParserSpec.thy ===== *)
theory ES_ParserSpec
  imports ES_Parser
begin

text \<open>
  A reference automaton for the control protocol that reads one byte at a time, and the proof
  that the chunk parser implements it: the parser's result depends on the bytes received and
  not on how the socket cuts them into chunks.

  The automaton is defined on streams whose namespaces all resolve; on an unknown namespace
  the chunk parser's behaviour does depend on the cut (\<open>unknown_namespace_depends_on_chunks\<close>).
  \<open>parser_ready\<close> is the invariant of the parser's state: every position is inside its array
  and a resolved namespace is a registry entry.
\<close>

section \<open>The reference automaton\<close>

datatype spec_state =
    SpecMagic nat
  | SpecVersion
  | SpecLen
  | SpecNamespace nat "byte list"
  | SpecCommand namespace_ptr

type_synonym registry = "EventlogSocketControlNamespace list"

definition spec_lookup :: "registry \<Rightarrow> byte list \<Rightarrow> namespace_ptr option" where
  "spec_lookup reg name = namespace_resolve_from 0 reg (length name) (name @ [0])"

definition spec_effects :: "registry \<Rightarrow> namespace_ptr \<Rightarrow> byte \<Rightarrow> handler_effect list" where
  "spec_effects reg p cid =
     (case find_command (ns_command_registry (reg ! p)) cid of
        None \<Rightarrow> []
      | Some c \<Rightarrow>
          (case cmd_command_handler c of
             None \<Rightarrow> []
           | Some h \<Rightarrow> call_command_handler h p cid (cmd_command_data c)))"

fun spec_step ::
  "registry \<Rightarrow> spec_state \<times> handler_effect list \<Rightarrow> byte \<Rightarrow> (spec_state \<times> handler_effect list) option"
where
  "spec_step reg (SpecMagic k, es) b =
     Some (if b = g_control_magic ! k
           then (if Suc k = CONTROL_MAGIC_LEN then SpecVersion else SpecMagic (Suc k))
           else SpecMagic (if b = g_control_magic ! 0 then 1 else 0), es)"
| "spec_step reg (SpecVersion, es) b =
     Some (if b = EVENTLOG_SOCKET_CONTROL_PROTOCOL_VERSION then SpecLen
           else SpecNamespace (unat b) [], es)"
| "spec_step reg (SpecLen, es) b =
     Some (if b = 0 then SpecMagic 0 else SpecNamespace (unat b) [], es)"
| "spec_step reg (SpecNamespace n acc, es) b =
     (if Suc (length acc) < n then Some (SpecNamespace n (acc @ [b]), es)
      else
        (case spec_lookup reg (acc @ [b]) of
           None \<Rightarrow> None
         | Some p \<Rightarrow> Some (SpecCommand p, es)))"
| "spec_step reg (SpecCommand p, es) b = Some (SpecMagic 0, es @ spec_effects reg p b)"

fun spec_run ::
  "registry \<Rightarrow> byte list \<Rightarrow> spec_state \<times> handler_effect list \<Rightarrow>
   (spec_state \<times> handler_effect list) option" where
  "spec_run reg [] st = Some st"
| "spec_run reg (b # bs) st =
     (case spec_step reg st b of None \<Rightarrow> None | Some st' \<Rightarrow> spec_run reg bs st')"

lemma spec_run_append:
  "spec_run reg (as @ bs) st =
     (case spec_run reg as st of None \<Rightarrow> None | Some st' \<Rightarrow> spec_run reg bs st')"
  by (induction as arbitrary: st) (auto split: option.splits)

lemma spec_run_namespace_partial:
  "length acc + length bs < n \<Longrightarrow>
     spec_run reg bs (SpecNamespace n acc, es) = Some (SpecNamespace n (acc @ bs), es)"
  by (induction bs arbitrary: acc) auto

lemma spec_run_namespace_full:
  assumes "bs \<noteq> []" "length acc + length bs = n"
  shows "spec_run reg bs (SpecNamespace n acc, es) =
     (case spec_lookup reg (acc @ bs) of None \<Rightarrow> None | Some p \<Rightarrow> Some (SpecCommand p, es))"
proof -
  from assms(1) obtain cs b where bs: "bs = cs @ [b]" by (cases bs rule: rev_cases) auto
  with assms(2) have "spec_run reg cs (SpecNamespace n acc, es) = Some (SpecNamespace n (acc @ cs), es)"
    by (intro spec_run_namespace_partial) simp
  with bs assms(2) show ?thesis by (auto simp: spec_run_append split: option.splits)
qed

section \<open>The invariant and the abstraction\<close>

fun parser_wf :: "registry \<Rightarrow> ControlCommandParserState \<Rightarrow> bool" where
  "parser_wf reg (STATE_MAGIC header_pos) = (unat header_pos < CONTROL_MAGIC_LEN)"
| "parser_wf reg STATE_PROTOCOL_VERSION = True"
| "parser_wf reg STATE_NAMESPACE_LEN = True"
| "parser_wf reg (STATE_NAMESPACE len pos buffer) =
     (pos < len \<and> length buffer = Suc (unat len) \<and> buffer ! unat len = 0)"
| "parser_wf reg (STATE_COMMAND_ID namespace) =
     (case namespace of None \<Rightarrow> False | Some p \<Rightarrow> p < length reg)"

definition handlers_set :: "control \<Rightarrow> bool" where
  "handlers_set s \<longleftrightarrow>
     list_all (\<lambda>ns. list_all (\<lambda>c. cmd_command_handler c \<noteq> None) (ns_command_registry ns))
       (ctl_namespace_registry s)"

definition parser_ready :: "control \<Rightarrow> bool" where
  "parser_ready s \<longleftrightarrow>
     registry_ready s \<and> handlers_set s \<and>
     parser_wf (ctl_namespace_registry s) (ctl_command_parser_state s)"

fun spec_of :: "ControlCommandParserState \<Rightarrow> spec_state" where
  "spec_of (STATE_MAGIC header_pos) = SpecMagic (unat header_pos)"
| "spec_of STATE_PROTOCOL_VERSION = SpecVersion"
| "spec_of STATE_NAMESPACE_LEN = SpecLen"
| "spec_of (STATE_NAMESPACE len pos buffer) = SpecNamespace (unat len) (take (unat pos) buffer)"
| "spec_of (STATE_COMMAND_ID namespace) = SpecCommand (the namespace)"

definition control_spec :: "control \<Rightarrow> spec_state \<times> handler_effect list" where
  "control_spec s = (spec_of (ctl_command_parser_state s), ctl_effects s)"

text \<open>
  \<open>refines_from s bs s' cs\<close>: whatever the automaton does on \<open>bs\<close> from \<open>s\<close>, it does on \<open>cs\<close>
  from \<open>s'\<close>: \<open>s'\<close> has consumed the bytes of \<open>bs\<close> before \<open>cs\<close>.
\<close>

definition refines_from :: "control \<Rightarrow> byte list \<Rightarrow> control \<Rightarrow> byte list \<Rightarrow> bool" where
  "refines_from s bs s' cs \<longleftrightarrow>
     (\<forall>t. spec_run (ctl_namespace_registry s) bs (control_spec s) = Some t \<longrightarrow>
          spec_run (ctl_namespace_registry s) cs (control_spec s') = Some t)"

text \<open>What a round of the loop establishes.\<close>

definition round_post ::
  "(EventlogSocketStatus + size_t, control) outcome \<Rightarrow> size_t \<Rightarrow> byte list \<Rightarrow> size_t \<Rightarrow> control \<Rightarrow> bool"
where
  "round_post out n chunk i s \<longleftrightarrow>
     (\<exists>i' s'. out = Returns (Inr i') s' \<and> unat i \<le> unat i' \<and> unat i' < unat n \<and>
        parser_ready s' \<and> ctl_namespace_registry s' = ctl_namespace_registry s \<and>
        refines_from s (drop (unat i) (take (unat n) chunk))
          s' (drop (Suc (unat i')) (take (unat n) chunk)))"

lemma enter_MAGIC [simp]:
  "es_control_command_parser_enter_state nd env CONTROL_COMMAND_PARSER_STATE_MAGIC d s =
     Returns STATUS_OK (s\<lparr>ctl_command_parser_state :=
       STATE_MAGIC (if d = Some (g_control_magic ! 0) then 1 else 0)\<rparr>)"
  by (simp add: es_control_command_parser_enter_state_def)

lemma enter_without_data:
  assumes "parser_tag (ctl_command_parser_state s) \<noteq> tag"
  shows "tag = CONTROL_COMMAND_PARSER_STATE_PROTOCOL_VERSION \<Longrightarrow>
      es_control_command_parser_enter_state nd env tag None s =
        Returns STATUS_OK (s\<lparr>ctl_command_parser_state := STATE_PROTOCOL_VERSION\<rparr>)"
    and "tag = CONTROL_COMMAND_PARSER_STATE_NAMESPACE_LEN \<Longrightarrow>
      es_control_command_parser_enter_state nd env tag None s =
        Returns STATUS_OK (s\<lparr>ctl_command_parser_state := STATE_NAMESPACE_LEN\<rparr>)"
    and "tag = CONTROL_COMMAND_PARSER_STATE_COMMAND_ID \<Longrightarrow>
      es_control_command_parser_enter_state nd env tag None s =
        Returns STATUS_OK (s\<lparr>ctl_command_parser_state := STATE_COMMAND_ID None\<rparr>)"
  using assms by (simp_all add: es_control_command_parser_enter_state_def)

lemma enter_NAMESPACE:
  assumes "parser_tag (ctl_command_parser_state s) \<noteq> CONTROL_COMMAND_PARSER_STATE_NAMESPACE"
    and "control_env_ok env"
  obtains buffer where "length buffer = Suc (unat len)" "buffer ! unat len = 0"
    "es_control_command_parser_enter_state nd env CONTROL_COMMAND_PARSER_STATE_NAMESPACE (Some len) s =
       Returns STATUS_OK (s\<lparr>ctl_command_parser_state := STATE_NAMESPACE len 0 buffer\<rparr>)"
proof -
  from assms(2) obtain c where "env_malloc_name env = MallocOk c" by (auto simp: control_env_ok_def)
  with assms(1) that [of "(malloc_block c (unat len + 1))[unat len := 0]"] show ?thesis
    by (simp add: es_control_command_parser_enter_state_def)
qed

lemma ready_simps [simp]:
  "registry_ready (s\<lparr>ctl_command_parser_state := p\<rparr>) = registry_ready s"
  "handlers_set (s\<lparr>ctl_command_parser_state := p\<rparr>) = handlers_set s"
  "registry_ready (s\<lparr>ctl_effects := es\<rparr>) = registry_ready s"
  "handlers_set (s\<lparr>ctl_effects := es\<rparr>) = handlers_set s"
  by (simp_all add: registry_ready_def registry_inv_def handlers_set_def)

lemma parser_ready_set_state:
  "parser_ready s \<Longrightarrow> parser_wf (ctl_namespace_registry s) p \<Longrightarrow>
     parser_ready (s\<lparr>ctl_command_parser_state := p\<rparr>)"
  by (simp add: parser_ready_def)

lemma drop_take_Cons:
  assumes "unat i < unat n" "unat n \<le> length chunk"
  shows "drop (unat i) (take (unat n) chunk) =
     chunk ! unat i # drop (Suc (unat i)) (take (unat n) chunk)"
  using assms by (subst Cons_nth_drop_Suc [symmetric]) auto

text \<open>A round that consumes one byte and moves the parser as the automaton does.\<close>

lemma round_post_one_byte:
  assumes "parser_ready s" "unat i < unat n" "unat n \<le> length chunk"
    and "parser_wf (ctl_namespace_registry s) p"
    and "spec_step (ctl_namespace_registry s) (control_spec s) (chunk ! unat i) =
           Some (spec_of p, es)"
  shows "round_post (Returns (Inr i) (s\<lparr>ctl_command_parser_state := p, ctl_effects := es\<rparr>)) n chunk i s"
  using assms
  by (auto simp: round_post_def refines_from_def drop_take_Cons control_spec_def parser_ready_def)

lemma g_control_magic_nth:
  "k < CONTROL_MAGIC_LEN \<Longrightarrow> g_control_magic ! k = (if k = 0 then 0xF0 else if k = 1 then 0x9E else if k = 2 then 0x97 else 0x8C)"
  by (auto simp: CONTROL_MAGIC_LEN_def g_control_magic_def less_Suc_eq numeral_eq_Suc)

section \<open>One round of the loop\<close>

lemma unat_Suc_byte: "unat (w :: byte) < 255 \<Longrightarrow> unat (w + 1) = Suc (unat w)"
  by (simp add: unat_word_ariths)

lemma round_magic:
  assumes "parser_ready s" "unat i < unat n" "unat n \<le> length chunk"
    and st: "ctl_command_parser_state s = STATE_MAGIC k"
  shows "round_post (parse_magic nd env k (chunk ! unat i) i s) n chunk i s"
proof -
  let ?b = "chunk ! unat i"
  from assms(1) st have k: "unat k < CONTROL_MAGIC_LEN" by (simp add: parser_ready_def)
  then have k1: "unat (k + 1) = Suc (unat k)"
    by (intro unat_Suc_byte) (simp add: CONTROL_MAGIC_LEN_def)
  define p where "p = (if ?b = g_control_magic ! unat k
      then (if Suc (unat k) = CONTROL_MAGIC_LEN then STATE_PROTOCOL_VERSION else STATE_MAGIC (k + 1))
      else STATE_MAGIC (if ?b = g_control_magic ! 0 then 1 else 0))"
  have "parse_magic nd env k ?b i s =
      Returns (Inr i) (s\<lparr>ctl_command_parser_state := p, ctl_effects := ctl_effects s\<rparr>)"
    using k k1 by (auto simp: parse_magic_def p_def Let_def enter_without_data)
  moreover have "parser_wf (ctl_namespace_registry s) p"
    using k k1 by (auto simp: p_def CONTROL_MAGIC_LEN_def)
  moreover have "spec_step (ctl_namespace_registry s) (control_spec s) ?b =
      Some (spec_of p, ctl_effects s)"
    using k1 by (simp add: control_spec_def st p_def)
  ultimately show ?thesis by (simp only: round_post_one_byte [OF assms(1-3)])
qed

lemma round_namespace_len:
  assumes "parser_ready s" "control_env_ok env" "unat i < unat n" "unat n \<le> length chunk"
    and st: "spec_step (ctl_namespace_registry s) (control_spec s) (chunk ! unat i) =
      Some (if chunk ! unat i = 0 then SpecMagic 0 else SpecNamespace (unat (chunk ! unat i)) [],
            ctl_effects s)"
    and tag: "parser_tag (ctl_command_parser_state s) \<noteq> CONTROL_COMMAND_PARSER_STATE_NAMESPACE"
  shows "round_post (parse_namespace_len nd env (chunk ! unat i) i s) n chunk i s"
proof (cases "chunk ! unat i = 0")
  case True
  have "round_post (Returns (Inr i) (s\<lparr>ctl_command_parser_state := STATE_MAGIC 0,
      ctl_effects := ctl_effects s\<rparr>)) n chunk i s"
    using assms True by (intro round_post_one_byte) (simp_all add: CONTROL_MAGIC_LEN_def)
  with True show ?thesis by (simp add: parse_namespace_len_def g_control_magic_def)
next
  case False
  let ?b = "chunk ! unat i"
  obtain buffer where buffer: "length buffer = Suc (unat ?b)" "buffer ! unat ?b = 0"
    "es_control_command_parser_enter_state nd env CONTROL_COMMAND_PARSER_STATE_NAMESPACE (Some ?b) s =
       Returns STATUS_OK (s\<lparr>ctl_command_parser_state := STATE_NAMESPACE ?b 0 buffer\<rparr>)"
    using enter_NAMESPACE [OF tag assms(2), of ?b nd] by blast
  have "round_post (Returns (Inr i) (s\<lparr>ctl_command_parser_state := STATE_NAMESPACE ?b 0 buffer,
      ctl_effects := ctl_effects s\<rparr>)) n chunk i s"
    using assms False buffer by (intro round_post_one_byte) (simp_all add: word_neq_0_conv)
  with False buffer show ?thesis by (simp add: parse_namespace_len_def)
qed

lemma parse_namespace_len_MAGIC:
  assumes "b \<noteq> 0"
  shows "parse_namespace_len nd env b i (s\<lparr>ctl_command_parser_state := STATE_MAGIC k\<rparr>) =
     parse_namespace_len nd env b i (s\<lparr>ctl_command_parser_state := STATE_PROTOCOL_VERSION\<rparr>)"
  using assms
  by (auto simp: parse_namespace_len_def es_control_command_parser_enter_state_def
      split: malloc_result.splits)

lemma round_protocol_version:
  assumes "parser_ready s" "control_env_ok env" "unat i < unat n" "unat n \<le> length chunk"
    and st: "ctl_command_parser_state s = STATE_PROTOCOL_VERSION"
  shows "round_post (parse_protocol_version nd env (chunk ! unat i) i s) n chunk i s"
proof (cases "chunk ! unat i = EVENTLOG_SOCKET_CONTROL_PROTOCOL_VERSION")
  case True
  have "round_post (Returns (Inr i) (s\<lparr>ctl_command_parser_state := STATE_NAMESPACE_LEN,
      ctl_effects := ctl_effects s\<rparr>)) n chunk i s"
    using assms True by (intro round_post_one_byte) (simp_all add: control_spec_def)
  with True st show ?thesis by (simp add: parse_protocol_version_def enter_without_data)
next
  case False
  then have nz: "chunk ! unat i \<noteq> 0" by (simp add: EVENTLOG_SOCKET_CONTROL_PROTOCOL_VERSION_def)
  have "s\<lparr>ctl_command_parser_state := STATE_PROTOCOL_VERSION\<rparr> = s" using st by simp
  then have "parse_protocol_version nd env (chunk ! unat i) i s =
      parse_namespace_len nd env (chunk ! unat i) i s"
    using False nz by (simp add: parse_protocol_version_def parse_namespace_len_MAGIC)
  then show ?thesis
    using assms nz False by (simp add: round_namespace_len control_spec_def)
qed

lemma round_command_id:
  assumes "parser_ready s" "control_env_ok env" "unat i < unat n" "unat n \<le> length chunk"
    and st: "ctl_command_parser_state s = STATE_COMMAND_ID ns"
  shows "round_post (parse_command_id nd env ns (chunk ! unat i) i s) n chunk i s"
proof -
  let ?b = "chunk ! unat i"
  let ?reg = "ctl_namespace_registry s"
  from assms(1) st obtain p where p: "ns = Some p" "p < length ?reg"
    by (auto simp: parser_ready_def split: option.splits)
  have unlocked: "\<not> ctl_namespace_registry_mutex s"
    using assms(1) by (simp add: parser_ready_def registry_ready_def)
  have "cmd_command_handler c \<noteq> None" if "find_command (ns_command_registry (?reg ! p)) ?b = Some c" for c
    using that p(2) assms(1) find_command_iff [OF that]
    by (auto simp: parser_ready_def handlers_set_def list_all_iff)
  then have "es_control_command_handle nd env p ?b s =
      Returns STATUS_OK (s\<lparr>ctl_effects := ctl_effects s @ spec_effects ?reg p ?b\<rparr>)"
    using unlocked p(2) assms(2)
    by (auto simp: command_handle_result spec_effects_def split: option.splits)
  then have "parse_command_id nd env ns ?b i s =
      Returns (Inr i) (s\<lparr>ctl_command_parser_state := STATE_MAGIC 0,
        ctl_effects := ctl_effects s @ spec_effects ?reg p ?b\<rparr>)"
    using p(1) by (simp add: parse_command_id_def)
  then show ?thesis
    using assms p by (simp add: round_post_one_byte control_spec_def CONTROL_MAGIC_LEN_def)
qed

text \<open>
  The case of the namespace. The number of bytes copied is the smaller of what the namespace
  still needs and what the chunk still has; the latter is computed in 8 bits and is right as
  long as at most 255 bytes are left.
\<close>

lemma namespace_arith:
  assumes "pos < len" "unat i < unat n" "unat n - unat i < 256"
  defines "required \<equiv> len - pos" and "remaining \<equiv> (ucast (n - i :: size_t) :: byte)"
  defines "available \<equiv> (if remaining < required then remaining else required)"
  shows "unat available = min (unat n - unat i) (unat len - unat pos)" (is ?A)
    and "required > 0" "remaining > 0" "available > 0"
    and "unat (pos + available) = unat pos + unat available"
    and "pos + available < len \<longleftrightarrow> unat pos + unat available < unat len"
    and "unat (i + (ucast available - 1)) = unat i + unat available - 1"
proof -
  have req: "unat required = unat len - unat pos" "0 < unat required"
    using assms(1) by (simp_all add: required_def unat_sub_if' word_less_nat_alt)
  have "unat (n - i) = unat n - unat i"
    using assms(2) by (simp add: unat_sub_if')
  then have rem: "unat remaining = unat n - unat i" "0 < unat remaining"
    using assms(2,3) by (simp_all add: remaining_def unsigned_ucast_eq take_bit_eq_mod)
  show A: ?A using req rem by (auto simp: available_def word_less_nat_alt)
  show "required > 0" "remaining > 0" using req rem by (simp_all add: word_less_nat_alt)
  then show pos: "available > 0" by (simp add: available_def)
  have "unat pos + unat available \<le> unat len" using A assms(1) by (simp add: word_less_nat_alt)
  also have "\<dots> < 256" by (rule unat_byte_less)
  finally show B: "unat (pos + available) = unat pos + unat available"
    by (simp add: unat_word_ariths)
  show "pos + available < len \<longleftrightarrow> unat pos + unat available < unat len"
    by (simp only: word_less_nat_alt B)
  have a: "0 < unat available" "unat available < 256"
    using pos unat_byte_less [of available] by (simp_all add: word_less_nat_alt)
  have u: "unat (ucast available :: size_t) = unat available"
    using a by (simp add: unsigned_ucast_eq take_bit_eq_mod)
  then have "unat (ucast available - 1 :: size_t) = unat available - 1"
    using a(1) by (metis less_imp_le_nat unat_1 unat_eq_zero unat_minus_one neq0_conv)
  moreover have "unat i + (unat available - 1) < 2 ^ 64"
    using A assms(2) unat_size_less [of n] by linarith
  ultimately show "unat (i + (ucast available - 1)) = unat i + unat available - 1"
    using a(1) by (simp add: unat_word_ariths)
qed


lemma memcpy_buffer:
  assumes "memcpy_at buf off src = Some buf'" "length buf = Suc m" "buf ! m = 0"
    and "off + length src \<le> m"
  shows "length buf' = Suc m" "buf' ! m = 0"
    and "off + length src = m \<Longrightarrow> buf' = (take off buf @ src) @ [0]"
proof -
  show len: "length buf' = Suc m" using memcpy_at_length [OF assms(1)] assms(2) by simp
  have drop: "drop (off + length src) buf' = drop (off + length src) buf"
    using assms(1,2,4) by (auto simp: memcpy_at_def split: if_splits)
  then have "drop m buf' = drop m buf"
    using assms(4) by (metis drop_drop le_add_diff_inverse2)
  moreover have "drop m buf = [0]" using assms(2,3) by (simp add: Cons_nth_drop_Suc [symmetric])
  ultimately have m: "drop m buf' = [0]" by simp
  then show "buf' ! m = 0" using len by (simp add: Cons_nth_drop_Suc [symmetric])
  show "buf' = (take off buf @ src) @ [0]" if "off + length src = m"
    using memcpy_at_take [OF assms(1)] m that by (metis append_take_drop_id)
qed

lemma drop_take_split:
  assumes "i + a \<le> n" "n \<le> length chunk"
  shows "drop i (take n chunk) = take a (drop i chunk) @ drop (i + a) (take n chunk)"
  using assms by (auto simp: list_eq_iff_nth_eq nth_append)

lemma round_namespace:
  assumes "parser_ready s" "control_env_ok env" "unat i < unat n" "unat n \<le> length chunk"
    and small: "unat n - unat i < 256"
    and st: "ctl_command_parser_state s = STATE_NAMESPACE len pos buf"
  shows "round_post (parse_namespace nd env len pos buf n chunk i s) n chunk i s"
proof -
  let ?reg = "ctl_namespace_registry s"
  from assms(1) st have wf: "pos < len" "length buf = Suc (unat len)" "buf ! unat len = 0"
    by (simp_all add: parser_ready_def)
  define req where "req = len - pos"
  define rem where "rem = (ucast (n - i :: size_t) :: byte)"
  define av where "av = (if rem < req then rem else req)"
  note ar = namespace_arith [OF wf(1) assms(3) small, folded req_def rem_def, folded av_def]
  define src where "src = take (unat av) (drop (unat i) chunk)"
  have lsrc: "length src = unat av" using ar(1) assms(3,4) by (simp add: src_def)
  have bound: "unat pos + unat av \<le> unat len" using ar(1) wf(1) by (simp add: word_less_nat_alt)
  obtain buf' where buf': "memcpy_at buf (unat pos) src = Some buf'"
    using bound wf(2) lsrc by (simp add: memcpy_at_def)
  note b = memcpy_buffer [OF buf' wf(2,3)]
  have pos0: "len > 0" using wf(1) by (metis word_not_simps(1) word_neq_0_conv)
  have avpos: "0 < unat av" using ar(4) by (simp add: word_less_nat_alt)
  have cut: "drop (unat i) (take (unat n) chunk) =
      src @ drop (unat i + unat av) (take (unat n) chunk)"
    unfolding src_def using ar(1) assms(3,4) by (intro drop_take_split) auto
  have nx: "unat (i + (ucast av - 1)) = unat i + unat av - 1" by (rule ar(7))
  have lt: "i < n" using assms(3) by (simp add: word_less_nat_alt)
  let ?s1 = "s\<lparr>ctl_command_parser_state := STATE_NAMESPACE len (pos + av) buf'\<rparr>"
  let ?i' = "i + (ucast av - 1)"
  have post: "round_post (Returns (Inr ?i') (s\<lparr>ctl_command_parser_state := q\<rparr>)) n chunk i s"
    if "parser_wf ?reg q"
      and "\<And>t. spec_run ?reg src (SpecNamespace (unat len) (take (unat pos) buf), ctl_effects s) = Some t
          \<Longrightarrow> t = (spec_of q, ctl_effects s)" for q
  proof -
    have i': "Suc (unat ?i') = unat i + unat av" using nx avpos by simp
    have "refines_from s (drop (unat i) (take (unat n) chunk)) (s\<lparr>ctl_command_parser_state := q\<rparr>)
        (drop (Suc (unat ?i')) (take (unat n) chunk))"
      unfolding refines_from_def i' cut
      using that(2) by (auto simp: spec_run_append control_spec_def st split: option.splits)
    moreover have "unat i \<le> unat ?i'" "unat ?i' < unat n"
      using i' avpos ar(1) assms(3) by linarith+
    ultimately show ?thesis
      using parser_ready_set_state [OF assms(1) that(1)] by (auto simp: round_post_def)
  qed
  show ?thesis
  proof (cases "pos + av < len")
    case True
    have "round_post (Returns (Inr ?i') ?s1) n chunk i s"
    proof (rule post)
      show "parser_wf ?reg (STATE_NAMESPACE len (pos + av) buf')"
        using True b bound lsrc by simp
      show "t = (spec_of (STATE_NAMESPACE len (pos + av) buf'), ctl_effects s)"
        if "spec_run ?reg src (SpecNamespace (unat len) (take (unat pos) buf), ctl_effects s) = Some t" for t
        using that True ar(5,6) wf(2) lsrc memcpy_at_take [OF buf']
        by (simp add: spec_run_namespace_partial)
    qed
    then show ?thesis
      using True wf(1) pos0 ar(2,3,4) lt buf'
      by (simp add: parse_namespace_def Let_def src_def flip: req_def rem_def av_def)
  next
    case False
    then have full: "unat pos + unat av = unat len" using ar(6) bound by simp
    then have eq: "buf' = (take (unat pos) buf @ src) @ [0]" using b(3) lsrc by simp
    have look: "namespace_resolve_from 0 ?reg (unat len) buf' = spec_lookup ?reg (take (unat pos) buf @ src)"
      using full wf(2) lsrc by (simp add: spec_lookup_def eq)
    have spec: "spec_run ?reg src (SpecNamespace (unat len) (take (unat pos) buf), ctl_effects s) =
        (case spec_lookup ?reg (take (unat pos) buf @ src) of None \<Rightarrow> None | Some p \<Rightarrow> Some (SpecCommand p, ctl_effects s))"
      using full wf(2) lsrc avpos by (intro spec_run_namespace_full) auto
    have free: "\<not> ctl_namespace_registry_mutex ?s1"
      using assms(1) by (simp add: parser_ready_def registry_ready_def)
    show ?thesis
    proof (cases "spec_lookup ?reg (take (unat pos) buf @ src)")
      case None
      have "round_post (Returns (Inr i) (s\<lparr>ctl_command_parser_state :=
          STATE_MAGIC (if chunk ! unat i = g_control_magic ! 0 then 1 else 0)\<rparr>)) n chunk i s"
        using assms(1,3) None
        by (auto simp: round_post_def refines_from_def cut spec_run_append spec control_spec_def st
            parser_ready_def CONTROL_MAGIC_LEN_def)
      then show ?thesis
        using None False wf(1) pos0 ar(2,3,4) lt buf' store_resolve_ready [OF free assms(2)] look
        by (simp add: parse_namespace_def Let_def src_def flip: req_def rem_def av_def)
    next
      case (Some p)
      have "p < length ?reg"
        using Some by (auto simp: spec_lookup_def dest: namespace_resolve_from_bound)
      then have "round_post (Returns (Inr ?i') (s\<lparr>ctl_command_parser_state := STATE_COMMAND_ID (Some p)\<rparr>)) n chunk i s"
        using Some spec by (intro post) auto
      then show ?thesis
        using Some False wf(1) pos0 ar(2,3,4) lt buf' store_resolve_ready [OF free assms(2)] look
        by (simp add: parse_namespace_def Let_def src_def enter_without_data flip: req_def rem_def av_def)
    qed
  qed
qed


section \<open>The loop over a chunk\<close>

text \<open>
  The parser takes a chunk of \<open>n \<le> 256\<close> bytes safely unless it would look at 256 unread bytes
  while it is inside a namespace.
\<close>

definition chunk_safe :: "size_t \<Rightarrow> size_t \<Rightarrow> control \<Rightarrow> bool" where
  "chunk_safe n i s \<longleftrightarrow>
     unat n - unat i < 256 \<or>
     unat n - unat i = 256 \<and>
       parser_tag (ctl_command_parser_state s) \<noteq> CONTROL_COMMAND_PARSER_STATE_NAMESPACE"

lemma handle_chunk_round_post:
  assumes "parser_ready s" "control_env_ok env" "unat i < unat n" "unat n \<le> length chunk"
    and "chunk_safe n i s"
  shows "round_post (handle_chunk_round nd env n chunk i s) n chunk i s"
proof (cases "ctl_command_parser_state s")
  case (STATE_MAGIC k)
  with assms show ?thesis by (simp add: handle_chunk_round_def round_magic)
next
  case STATE_PROTOCOL_VERSION
  with assms show ?thesis by (simp add: handle_chunk_round_def round_protocol_version)
next
  case STATE_NAMESPACE_LEN
  with assms show ?thesis
    by (simp add: handle_chunk_round_def round_namespace_len control_spec_def)
next
  case (STATE_NAMESPACE len pos buf)
  with assms show ?thesis by (simp add: handle_chunk_round_def round_namespace chunk_safe_def)
next
  case (STATE_COMMAND_ID ns)
  with assms show ?thesis by (simp add: handle_chunk_round_def round_command_id)
qed

definition chunk_post ::
  "(EventlogSocketStatus, control) outcome option \<Rightarrow> byte list \<Rightarrow> control \<Rightarrow> bool" where
  "chunk_post out bs s \<longleftrightarrow>
     (\<exists>s'. out = Some (Returns STATUS_OK s') \<and> parser_ready s' \<and>
        ctl_namespace_registry s' = ctl_namespace_registry s \<and> refines_from s bs s' [])"

lemma handle_chunk_loop_post:
  assumes "parser_ready s" "\<forall>j. control_env_ok (env j)" "unat n \<le> length chunk"
    and "unat i \<le> unat n" "chunk_safe n i s"
  shows "chunk_post (handle_chunk_loop nd env n chunk i s) (drop (unat i) (take (unat n) chunk)) s"
  using assms(1,4,5)
proof (induction "unat n - unat i" arbitrary: i s rule: less_induct)
  case less
  show ?case
  proof (cases "unat i < unat n")
    case False
    then have "\<not> i < n" by (simp add: word_less_nat_alt)
    with False less.prems(1) show ?thesis
      by (subst handle_chunk_loop.simps) (simp add: chunk_post_def refines_from_def)
  next
    case True
    then obtain i' s1 where r:
      "handle_chunk_round nd (env i) n chunk i s = Returns (Inr i') s1"
      "unat i \<le> unat i'" "unat i' < unat n" "parser_ready s1"
      "ctl_namespace_registry s1 = ctl_namespace_registry s"
      "refines_from s (drop (unat i) (take (unat n) chunk))
         s1 (drop (Suc (unat i')) (take (unat n) chunk))"
      using handle_chunk_round_post [OF less.prems(1) spec [OF assms(2), of i] True assms(3) less.prems(3), of nd]
      by (auto simp: round_post_def)
    have next_i: "unat (i' + 1) = Suc (unat i')"
      using r(3) unat_size_less [of n] by (simp add: unat_word_ariths)
    have "chunk_safe n (i' + 1) s1"
      using less.prems(3) r(2) True unfolding chunk_safe_def next_i by linarith
    then have "chunk_post (handle_chunk_loop nd env n chunk (i' + 1) s1)
        (drop (unat (i' + 1)) (take (unat n) chunk)) s1"
      using r(2,3) True next_i by (intro less.hyps r(4)) auto
    moreover have "handle_chunk_loop nd env n chunk i s =
        handle_chunk_loop nd env n chunk (i' + 1) s1"
      using True r(1) by (subst handle_chunk_loop.simps) (simp add: word_less_nat_alt)
    ultimately show ?thesis
      using r(5,6) by (auto simp: chunk_post_def refines_from_def next_i)
  qed
qed

lemma handle_chunk_post:
  assumes "parser_ready s" "\<forall>j. control_env_ok (env j)" "unat n \<le> length chunk" "chunk_safe n 0 s"
  obtains s' where
    "es_control_command_parser_handle_chunk nd env n chunk s = Returns STATUS_OK s'"
    "parser_ready s'" "ctl_namespace_registry s' = ctl_namespace_registry s"
    "refines_from s (take (unat n) chunk) s' []"
  using handle_chunk_loop_post [OF assms(1-3) _ assms(4), of nd]
  by (auto simp: chunk_post_def es_control_command_parser_handle_chunk_def)

end
