(* ===== verification/ES_ParserStream.thy ===== *)
theory ES_ParserStream
  imports ES_ParserSpec
begin

text \<open>
  What the command parser promises to a client, over whole streams of chunks: it always
  returns, it implements the protocol whatever the cuts, and it dispatches exactly the
  commands of the messages that the Haskell package \<open>eventlog-socket-control\<close> encodes.
  \<open>ES_ParserLimits\<close> says where it does not keep the promise.
\<close>

section \<open>Streams of chunks\<close>

text \<open>
  One operation is one call of the parser: the answers of the system, the number of bytes
  received, and the chunk buffer (its bytes after the received ones are stale).
\<close>

type_synonym chunk_op = "(size_t \<Rightarrow> control_env) \<times> size_t \<times> byte list"

fun parser_step :: "bool \<Rightarrow> chunk_op \<Rightarrow> control \<Rightarrow> (EventlogSocketStatus, control) outcome" where
  "parser_step nd (env, n, chunk) s = es_control_command_parser_handle_chunk nd env n chunk s"

fun chunk_ok :: "chunk_op \<Rightarrow> bool" where
  "chunk_ok (env, n, chunk) \<longleftrightarrow>
     (\<forall>j. control_env_ok (env j)) \<and> unat n \<le> length chunk \<and> unat n < 256"

fun received :: "chunk_op \<Rightarrow> byte list" where
  "received (env, n, chunk) = take (unat n) chunk"

type_synonym parser_abs = "registry \<times> spec_state \<times> handler_effect list"

definition parser_abs :: "control \<Rightarrow> parser_abs" where
  "parser_abs s = (ctl_namespace_registry s, control_spec s)"

fun parser_astep :: "chunk_op \<Rightarrow> parser_abs \<Rightarrow> parser_abs option" where
  "parser_astep op (reg, st) = map_option (Pair reg) (spec_run reg (received op) st)"

interpretation parser: refining_ops parser_ready "parser_step nd" chunk_ok
    "\<lambda>status. status = STATUS_OK" parser_abs parser_astep
  for nd
proof
  fix s :: control and op :: chunk_op
  assume s: "parser_ready s" "chunk_ok op"
  obtain env n chunk where op: "op = (env, n, chunk)" by (cases op)
  obtain s' where s': "es_control_command_parser_handle_chunk nd env n chunk s = Returns STATUS_OK s'"
    "parser_ready s'" "ctl_namespace_registry s' = ctl_namespace_registry s"
    "refines_from s (take (unat n) chunk) s' []"
    using s by (auto simp: op chunk_safe_def intro: handle_chunk_post [of s env n chunk nd])
  then show "\<exists>r t. parser_step nd op s = Returns r t \<and> r = STATUS_OK \<and> parser_ready t" by (simp add: op)
  show "parser_abs t = a"
    if "parser_step nd op s = Returns r t" "parser_astep op (parser_abs s) = Some a" for r t a
    using that s' by (auto simp: op parser_abs_def refines_from_def)
qed

lemma run_abstract_parser:
  "run_abstract parser_astep ops (reg, st) =
     map_option (Pair reg) (spec_run reg (concat (map received ops)) st)"
  by (induction ops arbitrary: st) (auto simp: spec_run_append split: option.splits)


lemma list_all_STATUS_OK: "list_all (\<lambda>st. st = x) rs \<Longrightarrow> rs = replicate (length rs) x"
  by (induction rs) auto

lemma parser_stream:
  assumes "parser_ready s" "list_all chunk_ok ops"
    and "spec_run (ctl_namespace_registry s) (concat (map received ops)) (control_spec s) = Some t"
  shows "\<exists>rs s'. run_ops (parser_step nd) ops s = Returns rs s' \<and> list_all (\<lambda>st. st = STATUS_OK) rs
     \<and> parser_ready s' \<and> ctl_namespace_registry s' = ctl_namespace_registry s \<and> control_spec s' = t"
  using parser.run_refines [OF assms(1,2), of "(ctl_namespace_registry s, t)" nd] assms(3)
  by (auto simp: parser_abs_def run_abstract_parser)

text \<open>C14: in a program whose handlers are all set, and while memory is available, the command parser
  takes any sequence of chunks of at most 255 bytes, of any contents: every call returns
  \<open>STATUS_OK\<close> (in a debug build no assertion fails), no index leaves its array, and the
  parser's invariant holds afterwards.\<close>

theorem parser_takes_any_chunks:
  assumes "parser_ready s" "list_all chunk_ok ops"
  shows "\<exists>rs s'. run_ops (parser_step nd) ops s = Returns rs s' \<and> length rs = length ops
     \<and> list_all (\<lambda>st. st = STATUS_OK) rs \<and> parser_ready s'"
  using assms by (rule parser.run_total)

lemma parser_ready_initial [simp]: "parser_ready initial_control"
  by (simp add: parser_ready_def handlers_set_def builtin_namespace_entry_def CONTROL_MAGIC_LEN_def)

definition demo_op :: "byte list \<Rightarrow> chunk_op" where
  "demo_op bytes = ((\<lambda>_. demo_control_env), of_nat (length bytes), bytes)"

lemma demo_op_ok [simp]:
  "length bytes < 256 \<Longrightarrow> chunk_ok (demo_op bytes)"
  "length bytes < 256 \<Longrightarrow> received (demo_op bytes) = bytes"
  by (simp_all add: demo_op_def unat_of_nat)

theorem parser_takes_any_chunks_witness:
  "\<exists>rs s'. run_ops (parser_step False) [demo_op [0xF0, 0x9E, 0x97], demo_op [0x8C, 7, 1, 2]] initial_control =
     Returns rs s' \<and> length rs = 2 \<and> parser_ready s'"
  using parser_takes_any_chunks [OF parser_ready_initial,
      of "[demo_op [0xF0, 0x9E, 0x97], demo_op [0x8C, 7, 1, 2]]" False]
  by auto

text \<open>C9: the chunk parser implements the byte-at-a-time reference automaton of the protocol. If the
  automaton accepts the whole stream from the parser's state, which means that it contains no
  unknown namespace, then after any cut of the stream into chunks of at most 255 bytes the parser is
  in the automaton's final state and the handlers have been called as the automaton says. Outside
  these bounds the cut matters: after an unknown namespace the result depends on it
  (\<open>unknown_namespace_depends_on_chunks\<close>), and a chunk of 256 bytes that begins inside a namespace
  stops the thread (\<open>full_chunk_stops_control_thread\<close>).\<close>

theorem parser_implements_protocol:
  assumes "parser_ready s" "list_all chunk_ok ops"
    and "concat (map received ops) = bytes"
    and "spec_run (ctl_namespace_registry s) bytes (control_spec s) = Some (st, es)"
  shows "\<exists>rs s'. run_ops (parser_step nd) ops s = Returns rs s'
     \<and> list_all (\<lambda>status. status = STATUS_OK) rs
     \<and> spec_of (ctl_command_parser_state s') = st \<and> ctl_effects s' = es"
  using parser_stream [OF assms(1,2), of "(st, es)" nd] assms(3,4)
  by (auto simp: control_spec_def)

theorem parser_implements_protocol_witness:
  "\<exists>rs s'. run_ops (parser_step True) [demo_op [0xF0, 0xF0, 0x9E], demo_op [0x97, 0x8C, 0]] initial_control =
       Returns rs s' \<and> spec_of (ctl_command_parser_state s') = SpecLen \<and> ctl_effects s' = []"
proof -
  have "spec_run (ctl_namespace_registry initial_control) [0xF0, 0xF0, 0x9E, 0x97, 0x8C, 0]
      (control_spec initial_control) = Some (SpecLen, [])"
    by (simp add: control_spec_def g_control_magic_def CONTROL_MAGIC_LEN_def
        EVENTLOG_SOCKET_CONTROL_PROTOCOL_VERSION_def)
  then show ?thesis
    using parser_implements_protocol [OF parser_ready_initial,
      of "[demo_op [0xF0, 0xF0, 0x9E], demo_op [0x97, 0x8C, 0]]" _ SpecLen "[]" True]
    by auto
qed


section \<open>Messages of the Haskell encoder\<close>

text \<open>
  The \<open>Binary\<close> instances of \<open>GHC.Eventlog.Socket.Control\<close> that encode a command. A namespace
  is its UTF-8 bytes, of which there are at most 255.
\<close>

definition magicBytes :: "byte list" where
  "magicBytes = [0xF0, 0x9E, 0x97, 0x8C]"

definition protocolVersion :: byte where
  "protocolVersion = 0"

definition put_Namespace :: "byte list \<Rightarrow> byte list" where
  "put_Namespace namespaceBytes = of_nat (length namespaceBytes) # namespaceBytes"

definition put_Command :: "byte list \<Rightarrow> byte \<Rightarrow> byte list" where
  "put_Command namespace commandId =
     magicBytes @ [protocolVersion] @ put_Namespace namespace @ [commandId]"

definition entry_name :: "EventlogSocketControlNamespace \<Rightarrow> byte list" where
  "entry_name e = take (unat (ns_namespace_len e)) (ns_namespace e)"

lemma spec_run_magic:
  "spec_run reg magicBytes (SpecMagic 0, es) = Some (SpecVersion, es)"
  by (simp add: magicBytes_def g_control_magic_def CONTROL_MAGIC_LEN_def)

lemma spec_run_payload:
  assumes "name \<noteq> []" "spec_lookup reg name = Some p"
  shows "spec_run reg (name @ [cid]) (SpecNamespace (length name) [], es) =
     Some (SpecMagic 0, es @ spec_effects reg p cid)"
  using assms by (simp add: spec_run_append spec_run_namespace_full)

lemma spec_run_command:
  assumes "name \<noteq> []" "length name < 256" "spec_lookup reg name = Some p"
  shows "spec_run reg (put_Command name cid) (SpecMagic 0, es) =
     Some (SpecMagic 0, es @ spec_effects reg p cid)"
proof -
  have u: "unat (of_nat (length name) :: byte) = length name"
    using assms(2) by (simp add: unat_of_nat)
  moreover have "(of_nat (length name) :: byte) \<noteq> 0" using assms(1) u by (metis length_0_conv unat_0)
  ultimately show ?thesis
    using spec_run_payload [OF assms(1,3), of cid es]
    by (simp add: put_Command_def put_Namespace_def protocolVersion_def spec_run_append
        spec_run_magic EVENTLOG_SOCKET_CONTROL_PROTOCOL_VERSION_def)
qed

text \<open>Every entry of the registry has a non-empty name, and the name resolves to the entry.\<close>

lemma entry_name_resolves:
  assumes "registry_inv s" "p < length (ctl_namespace_registry s)"
  defines "name \<equiv> entry_name (ctl_namespace_registry s ! p)"
  shows "name \<noteq> []" "length name < 256" "spec_lookup (ctl_namespace_registry s) name = Some p"
proof -
  let ?es = "ctl_namespace_registry s"
  let ?e = "?es ! p"
  have I: "?es \<noteq> []" "hd ?es = builtin_namespace_entry" "list_all entry_wf ?es"
    "\<forall>j < p. \<not> entries_clash (?es ! j) ?e"
    using assms(1,2) by (auto simp: registry_inv_def Let_def sorted_wrt_iff_nth_less)
  then have wf: "entry_wf ?e" using assms(2) by (simp add: list_all_length)
  then have len: "length name = unat (ns_namespace_len ?e)"
    by (simp add: name_def entry_name_def entry_wf_def)
  then show "length name < 256" using unat_byte_less by simp
  have "ns_namespace_len ?e \<noteq> 0"
  proof (cases "p = 0")
    case True
    then show ?thesis using I(1,2) by (simp add: hd_conv_nth)
  next
    case False
    then have "\<not> entries_clash (?es ! 0) ?e" using I(4) by simp
    then show ?thesis by (auto simp: entries_clash_def store_match_Some)
  qed
  then show "name \<noteq> []" using len by (auto simp: unat_eq_zero)
  have "ns_namespace ?e = name @ [0]"
    using wf by (metis append_butlast_last_id butlast_conv_take diff_Suc_1 entry_name_def entry_wf_def
        length_0_conv name_def nat.distinct(1))
  then show "spec_lookup ?es name = Some p"
    using namespace_resolve_from_first [OF assms(2), of "length name" "name @ [0]" 0] I(4) len
    by (simp add: spec_lookup_def entries_clash_def store_match_Some)
qed

lemma spec_run_commands:
  assumes "registry_inv s" "list_all (\<lambda>(p, cid). p < length (ctl_namespace_registry s)) msgs"
  shows "spec_run (ctl_namespace_registry s)
      (concat (map (\<lambda>(p, cid). put_Command (entry_name (ctl_namespace_registry s ! p)) cid) msgs))
      (SpecMagic 0, es) =
    Some (SpecMagic 0, es @ concat (map (\<lambda>(p, cid). spec_effects (ctl_namespace_registry s) p cid) msgs))"
  using assms(2)
  by (induction msgs arbitrary: es)
    (auto simp: spec_run_append spec_run_command [OF entry_name_resolves [OF assms(1)]])

text \<open>C7: what the Haskell encoder writes, the C parser reads back. Any sequence of commands to
  registered namespaces, encoded by \<open>put\<close> and cut in any way into chunks of at most 255 bytes, calls
  exactly the handlers of these commands, once each and in their order, and leaves the parser at the
  start of a message. (A chunk of 256 bytes, the most that \<open>recv\<close> delivers, is not handled if it begins
  inside a namespace: \<open>full_chunk_stops_control_thread\<close>.)\<close>

theorem encoded_commands_are_dispatched:
  assumes "parser_ready s" "ctl_command_parser_state s = STATE_MAGIC 0"
    and "list_all (\<lambda>(p, cid). p < length (ctl_namespace_registry s)) msgs"
    and "list_all chunk_ok ops"
    and "concat (map received ops) =
      concat (map (\<lambda>(p, cid). put_Command (entry_name (ctl_namespace_registry s ! p)) cid) msgs)"
  shows "\<exists>rs s'. run_ops (parser_step nd) ops s = Returns rs s'
     \<and> ctl_command_parser_state s' = STATE_MAGIC 0
     \<and> ctl_effects s' = ctl_effects s @
         concat (map (\<lambda>(p, cid). spec_effects (ctl_namespace_registry s) p cid) msgs)"
proof -
  have "registry_inv s" using assms(1) by (simp add: parser_ready_def registry_ready_def)
  from spec_run_commands [OF this assms(3)] obtain rs s' where s':
    "run_ops (parser_step nd) ops s = Returns rs s'"
    "spec_of (ctl_command_parser_state s') = SpecMagic 0"
    "ctl_effects s' = ctl_effects s @
         concat (map (\<lambda>(p, cid). spec_effects (ctl_namespace_registry s) p cid) msgs)"
    using parser_stream [OF assms(1,4), of _ nd] assms(2,5) by (fastforce simp: control_spec_def)
  moreover have "ctl_command_parser_state s' = STATE_MAGIC 0"
    using s'(2) by (cases "ctl_command_parser_state s'") (auto simp: unat_eq_zero)
  ultimately show ?thesis by blast
qed

lemma entry_name_builtin [simp]: "entry_name builtin_namespace_entry = BUILTIN_NAMESPACE"
  by (simp add: entry_name_def BUILTIN_NAMESPACE_bytes)

lemma spec_effects_builtin:
  "spec_effects [builtin_namespace_entry] 0 5 = [CallsRequestHeapCensus]"
  "spec_effects [builtin_namespace_entry] 0 3 = [CallsStartHeapProfTimer]"
  by (simp_all add: spec_effects_def builtin_namespace_entry_def builtin_id_defs
      es_control_request_heap_census_def es_control_start_heap_profiling_def)

definition demo_stream :: "byte list" where
  "demo_stream = put_Command BUILTIN_NAMESPACE 3 @ put_Command BUILTIN_NAMESPACE 5"

lemma length_demo_stream: "length demo_stream = 44"
  by (simp add: demo_stream_def put_Command_def put_Namespace_def magicBytes_def BUILTIN_NAMESPACE_bytes)

theorem encoded_commands_are_dispatched_witness:
  "\<exists>rs s'. run_ops (parser_step True) [demo_op (take 10 demo_stream), demo_op (drop 10 demo_stream)]
       initial_control = Returns rs s'
     \<and> ctl_effects s' = [CallsStartHeapProfTimer, CallsRequestHeapCensus]"
  using encoded_commands_are_dispatched [OF parser_ready_initial, of "[(0, 3), (0, 5)]"
      "[demo_op (take 10 demo_stream), demo_op (drop 10 demo_stream)]" True]
  by (auto simp del: run_ops.simps simp add: length_demo_stream spec_effects_builtin simp flip: demo_stream_def)

end
