(* ===== verification/ES_Client.thy ===== *)
theory ES_Client
  imports ES_ParserStream
begin

text \<open>
  The client's side: the Haskell module \<open>GHC.Eventlog.Socket.Control\<close> of the package
  \<open>eventlog-socket-control\<close>, which builds command messages. Namespaces and commands with their
  checks, the \<open>Binary\<close> instances that decode them (\<open>ES_ParserStream\<close> has those that encode), and
  what the messages make the C library do.
\<close>

section \<open>Namespaces (Control.hs)\<close>

text \<open>
  \<open>Text\<close> and its encoding are those of the package \<open>text\<close>, and parameters here: \<open>tl_pack\<close>,
  \<open>tl_encodeUtf8\<close>, and \<open>tl_decodeUtf8\<close>, which throws (\<open>None\<close>) on bytes that are not UTF-8.
\<close>

record 't text_library =
  tl_pack :: "string \<Rightarrow> 't"
  tl_encodeUtf8 :: "'t \<Rightarrow> byte list"
  tl_decodeUtf8 :: "byte list \<Rightarrow> 't option"

text \<open>
  The documented behaviour: \<open>decodeUtf8\<close> accepts exactly the encodings and inverts them, and the
  ASCII characters of the builtin name are encoded as themselves.
\<close>

definition text_library_ok :: "'t text_library \<Rightarrow> bool" where
  "text_library_ok lib \<longleftrightarrow>
     (\<forall>bytes t. tl_decodeUtf8 lib bytes = Some t \<longleftrightarrow> tl_encodeUtf8 lib t = bytes) \<and>
     tl_encodeUtf8 lib (tl_pack lib ''eventlog-socket'') = bytes_of_string ''eventlog-socket''"

record 't Namespace =
  namespaceText :: 't
  namespaceUtf8 :: "byte list"

definition unsafeMakeNamespace :: "'t text_library \<Rightarrow> 't \<Rightarrow> 't Namespace" where
  "unsafeMakeNamespace lib namespaceText' =
     \<lparr>namespaceText = namespaceText', namespaceUtf8 = tl_encodeUtf8 lib namespaceText'\<rparr>"

definition eventlogSocketNamespace :: "'t text_library \<Rightarrow> 't Namespace" where
  "eventlogSocketNamespace lib = unsafeMakeNamespace lib (tl_pack lib ''eventlog-socket'')"

definition isNamespaceReserved :: "'t text_library \<Rightarrow> 't Namespace \<Rightarrow> bool" where
  "isNamespaceReserved lib namespace = (namespace = eventlogSocketNamespace lib)"

definition namespaceMaxBytes :: nat where
  "namespaceMaxBytes = unat (- 1 :: byte)"

definition isNamespaceTooLong :: "'t Namespace \<Rightarrow> bool" where
  "isNamespaceTooLong namespace = (length (namespaceUtf8 namespace) > namespaceMaxBytes)"

datatype 't namespace_error =
    NamespaceReservedError "'t Namespace"
  | NamespaceTooLongError "'t Namespace"

definition userNamespace :: "'t text_library \<Rightarrow> 't \<Rightarrow> 't namespace_error + 't Namespace" where
  "userNamespace lib namespaceText' =
     (let namespace = unsafeMakeNamespace lib namespaceText'
      in if isNamespaceReserved lib namespace then Inl (NamespaceReservedError namespace)
         else if isNamespaceTooLong namespace then Inl (NamespaceTooLongError namespace)
         else Inr namespace)"

definition fromString :: "'t text_library \<Rightarrow> string \<Rightarrow> 't namespace_error + 't Namespace" where
  "fromString lib s = userNamespace lib (tl_pack lib s)"

section \<open>Commands\<close>

datatype 't Command = Command "'t Namespace" byte

definition userCommand :: "'t Namespace \<Rightarrow> byte \<Rightarrow> 't Command" where
  "userCommand namespace commandId = Command namespace commandId"

fun encodeLazy :: "'t Command \<Rightarrow> byte list" where
  "encodeLazy (Command namespace commandId) = put_Command (namespaceUtf8 namespace) commandId"

definition startProfiling :: "'t text_library \<Rightarrow> 't Command" where
  "startProfiling lib = Command (eventlogSocketNamespace lib) 1"
definition stopProfiling :: "'t text_library \<Rightarrow> 't Command" where
  "stopProfiling lib = Command (eventlogSocketNamespace lib) 2"
definition startHeapProfiling :: "'t text_library \<Rightarrow> 't Command" where
  "startHeapProfiling lib = Command (eventlogSocketNamespace lib) 3"
definition stopHeapProfiling :: "'t text_library \<Rightarrow> 't Command" where
  "stopHeapProfiling lib = Command (eventlogSocketNamespace lib) 4"
definition requestHeapCensus :: "'t text_library \<Rightarrow> 't Command" where
  "requestHeapCensus lib = Command (eventlogSocketNamespace lib) 5"

lemmas builtin_command_defs =
  startProfiling_def stopProfiling_def startHeapProfiling_def stopHeapProfiling_def
  requestHeapCensus_def

section \<open>Decoding\<close>

text \<open>
  The \<open>Get\<close> monad of the package \<open>binary\<close>: a function of the input that fails (or throws), or
  returns a value with the rest of the input.
\<close>

datatype get_error =
    NotEnoughBytes
  | UnexpectedByte byte byte
  | ProtocolVersionNotSupportedError byte
  | UnicodeException

type_synonym 'a get = "byte list \<Rightarrow> get_error + ('a \<times> byte list)"

definition get_return :: "'a \<Rightarrow> 'a get" where
  "get_return x bytes = Inr (x, bytes)"

definition get_bind :: "'a get \<Rightarrow> ('a \<Rightarrow> 'b get) \<Rightarrow> 'b get" where
  "get_bind m k bytes = (case m bytes of Inl e \<Rightarrow> Inl e | Inr (x, rest) \<Rightarrow> k x rest)"

fun getWord8 :: "byte get" where
  "getWord8 [] = Inl NotEnoughBytes"
| "getWord8 (b # bytes) = Inr (b, bytes)"

primrec get_expected :: "byte list \<Rightarrow> unit get" where
  "get_expected [] = get_return ()"
| "get_expected (expect # es) =
     get_bind getWord8 (\<lambda>actual.
       if expect = actual then get_expected es else (\<lambda>_. Inl (UnexpectedByte actual expect)))"

definition get_Magic :: "unit get" where
  "get_Magic = get_expected magicBytes"

definition minProtocolVersion :: byte where
  "minProtocolVersion = protocolVersion"

definition isProtocolVersionSupported :: "byte \<Rightarrow> bool" where
  "isProtocolVersionSupported v = (v \<ge> minProtocolVersion)"

definition get_ProtocolVersion :: "byte get" where
  "get_ProtocolVersion = getWord8"

primrec replicateM_getWord8 :: "nat \<Rightarrow> byte list get" where
  "replicateM_getWord8 0 = get_return []"
| "replicateM_getWord8 (Suc n) =
     get_bind getWord8 (\<lambda>b. get_bind (replicateM_getWord8 n) (\<lambda>bs. get_return (b # bs)))"

text \<open>The field \<open>namespaceText\<close> is strict: a namespace of bytes that are not UTF-8 throws when it
  is evaluated (\<open>None\<close>), which is not before the command is.\<close>

definition get_Namespace :: "'t text_library \<Rightarrow> 't Namespace option get" where
  "get_Namespace lib =
     get_bind getWord8 (\<lambda>n.
       get_bind (replicateM_getWord8 (unat n)) (\<lambda>namespaceBytes.
         get_return (map_option
           (\<lambda>t. \<lparr>namespaceText = t, namespaceUtf8 = namespaceBytes\<rparr>)
           (tl_decodeUtf8 lib namespaceBytes))))"

definition get_CommandId :: "byte get" where
  "get_CommandId = getWord8"

definition get_Command :: "'t text_library \<Rightarrow> 't Command get" where
  "get_Command lib =
     get_bind get_Magic (\<lambda>_.
       get_bind get_ProtocolVersion (\<lambda>v.
         if \<not> isProtocolVersionSupported v then (\<lambda>_. Inl (ProtocolVersionNotSupportedError v))
         else
           get_bind (get_Namespace lib) (\<lambda>namespace.
             get_bind get_CommandId (\<lambda>commandId.
               case namespace of
                 None \<Rightarrow> (\<lambda>_. Inl UnicodeException)
               | Some ns \<Rightarrow> get_return (Command ns commandId)))))"

section \<open>Decoding inverts encoding\<close>

text \<open>The invariant that the comment at \<open>Namespace\<close> states.\<close>

definition namespace_wf :: "'t text_library \<Rightarrow> 't Namespace \<Rightarrow> bool" where
  "namespace_wf lib namespace \<longleftrightarrow>
     namespaceUtf8 namespace = tl_encodeUtf8 lib (namespaceText namespace) \<and>
     length (namespaceUtf8 namespace) \<le> namespaceMaxBytes"

lemma namespaceMaxBytes_value [simp]: "namespaceMaxBytes = 255"
  by (simp add: namespaceMaxBytes_def unsigned_minus_1_eq_mask mask_eq_exp_minus_1)

lemma userNamespace_Inr:
  "userNamespace lib t = Inr ns \<longleftrightarrow>
     ns = unsafeMakeNamespace lib t \<and> \<not> isNamespaceReserved lib ns \<and> \<not> isNamespaceTooLong ns"
  by (auto simp: userNamespace_def Let_def)

lemma userNamespace_wf: "userNamespace lib t = Inr ns \<Longrightarrow> namespace_wf lib ns"
  by (auto simp: userNamespace_Inr namespace_wf_def isNamespaceTooLong_def unsafeMakeNamespace_def)

lemma text_library_okD:
  assumes "text_library_ok lib"
  shows "tl_decodeUtf8 lib bytes = Some t \<longleftrightarrow> tl_encodeUtf8 lib t = bytes"
    and "namespaceUtf8 (eventlogSocketNamespace lib) = BUILTIN_NAMESPACE"
  using assms
  by (simp_all add: text_library_ok_def eventlogSocketNamespace_def unsafeMakeNamespace_def
      BUILTIN_NAMESPACE_def)

lemma eventlogSocketNamespace_wf:
  "text_library_ok lib \<Longrightarrow> namespace_wf lib (eventlogSocketNamespace lib)"
  by (simp add: namespace_wf_def text_library_okD BUILTIN_NAMESPACE_bytes)
    (simp add: eventlogSocketNamespace_def unsafeMakeNamespace_def text_library_ok_def
      flip: BUILTIN_NAMESPACE_def BUILTIN_NAMESPACE_bytes)

lemma get_return_Inr: "get_return x bytes = Inr (y, rest) \<longleftrightarrow> y = x \<and> rest = bytes"
  by (auto simp: get_return_def)

lemma get_bind_Inr:
  "get_bind m k bytes = Inr (y, rest) \<longleftrightarrow> (\<exists>x bytes'. m bytes = Inr (x, bytes') \<and> k x bytes' = Inr (y, rest))"
  by (auto simp: get_bind_def split: sum.splits)

lemma getWord8_Inr: "getWord8 bytes = Inr (b, rest) \<longleftrightarrow> bytes = b # rest"
  by (cases bytes) auto

lemma get_expected_Inr: "get_expected es bytes = Inr ((), rest) \<longleftrightarrow> bytes = es @ rest"
  by (induction es arbitrary: bytes) (auto simp: get_return_Inr get_bind_Inr getWord8_Inr split: if_splits)

lemma replicateM_getWord8_Inr:
  "replicateM_getWord8 n bytes = Inr (bs, rest) \<longleftrightarrow> length bs = n \<and> bytes = bs @ rest"
  by (induction n arbitrary: bytes bs)
    (auto simp: get_return_Inr get_bind_Inr getWord8_Inr length_Suc_conv)

lemmas get_Inr = get_return_Inr get_bind_Inr getWord8_Inr get_expected_Inr replicateM_getWord8_Inr

lemma put_Namespace_prefix_free:
  "unat n = length bs \<Longrightarrow> put_Namespace bs = n # bs"
  by (simp add: put_Namespace_def flip: word_of_nat_eq_iff) (metis of_nat_unat ucast_id)

lemma get_Namespace_Inr:
  assumes "text_library_ok lib"
  shows "get_Namespace lib bytes = Inr (Some ns, rest) \<longleftrightarrow>
     namespace_wf lib ns \<and> bytes = put_Namespace (namespaceUtf8 ns) @ rest" (is "?lhs \<longleftrightarrow> ?rhs")
proof
  assume ?lhs
  then obtain n t bs where n: "bytes = n # bs @ rest" "length bs = unat n"
    "tl_decodeUtf8 lib bs = Some t" "ns = \<lparr>namespaceText = t, namespaceUtf8 = bs\<rparr>"
    by (auto simp: get_Namespace_def get_Inr dest!: sym [where s = "Some ns"])
  with assms put_Namespace_prefix_free [of n bs] unat_byte_less [of n] show ?rhs
    by (simp add: namespace_wf_def text_library_okD)
next
  assume r: ?rhs
  let ?bs = "namespaceUtf8 ns" and ?n = "of_nat (length (namespaceUtf8 ns)) :: byte"
  have "length ?bs < 256" using r by (auto simp: namespace_wf_def)
  then have "unat ?n = length ?bs" by (simp add: unat_of_nat)
  moreover have "tl_decodeUtf8 lib ?bs = Some (namespaceText ns)"
    using r by (simp add: text_library_okD(1) [OF assms] namespace_wf_def)
  ultimately show ?lhs
    using r by (auto simp: get_Namespace_def get_Inr put_Namespace_def)
qed

lemma get_Command_Inr:
  assumes "text_library_ok lib"
  shows "get_Command lib bytes = Inr (Command ns cid, rest) \<longleftrightarrow>
     namespace_wf lib ns \<and>
     (\<exists>v. bytes = magicBytes @ [v] @ put_Namespace (namespaceUtf8 ns) @ [cid] @ rest)"
proof -
  have "get_Command lib bytes = Inr (Command ns cid, rest) \<longleftrightarrow>
     (\<exists>v bytes'. bytes = magicBytes @ v # bytes' \<and> get_Namespace lib bytes' = Inr (Some ns, cid # rest))"
    by (auto simp: get_Command_def get_Magic_def get_ProtocolVersion_def get_CommandId_def get_Inr
        isProtocolVersionSupported_def minProtocolVersion_def protocolVersion_def split: option.splits)
  then show ?thesis by (auto simp: get_Namespace_Inr [OF assms])
qed

text \<open>C8: the decoder of the Haskell package inverts its encoder. What \<open>get\<close> reads back from any
  input is a command that satisfies the documented invariant of namespaces, and the input begins
  with the encoding of this command, except for the version byte, which may be any; in particular,
  what follows the message is left to the next \<open>get\<close>, and an encoded command is read back as
  itself.\<close>

theorem haskell_decoder_inverts_encoder:
  assumes "text_library_ok lib"
  shows "get_Command lib bytes = Inr (c, rest) \<longleftrightarrow>
     (\<exists>ns cid v. c = userCommand ns cid \<and> namespace_wf lib ns
        \<and> bytes = (encodeLazy c)[4 := v] @ rest)"
  by (cases c)
    (auto simp: get_Command_Inr [OF assms] userCommand_def put_Command_def magicBytes_def)

text \<open>A concrete library for texts of bytes, each of which encodes itself.\<close>

definition demo_text_library :: "byte list text_library" where
  "demo_text_library =
     \<lparr>tl_pack = bytes_of_string, tl_encodeUtf8 = (\<lambda>t. t), tl_decodeUtf8 = Some\<rparr>"

lemma demo_text_library_ok [simp]: "text_library_ok demo_text_library"
  by (auto simp: text_library_ok_def demo_text_library_def)

theorem haskell_decoder_inverts_encoder_witness:
  "get_Command demo_text_library [0xF0, 0x9E, 0x97, 0x8C, 7, 2, 0x68, 0x69, 3, 9] =
     Inr (userCommand \<lparr>namespaceText = [0x68, 0x69], namespaceUtf8 = [0x68, 0x69]\<rparr> 3, [9])"
proof -
  let ?ns = "\<lparr>namespaceText = [0x68, 0x69], namespaceUtf8 = [0x68, 0x69]\<rparr> :: byte list Namespace"
  have "[0xF0, 0x9E, 0x97, 0x8C, 7, 2, 0x68, 0x69, 3, 9] = (encodeLazy (userCommand ?ns 3))[4 := 7] @ [9]"
    by (simp add: userCommand_def put_Command_def put_Namespace_def magicBytes_def)
  moreover have "namespace_wf demo_text_library ?ns"
    by (simp add: namespace_wf_def demo_text_library_def)
  ultimately show ?thesis
    unfolding haskell_decoder_inverts_encoder [OF demo_text_library_ok] by blast
qed

section \<open>Streams of messages\<close>

text \<open>
  The contract of a \<open>Binary\<close> instance that sequences of messages rest on: \<open>get\<close> reads back what
  \<open>put\<close> has written and leaves the rest of the input.
\<close>

primrec get_many :: "'a get \<Rightarrow> nat \<Rightarrow> 'a list get" where
  "get_many g 0 = get_return []"
| "get_many g (Suc n) = get_bind g (\<lambda>x. get_bind (get_many g n) (\<lambda>xs. get_return (x # xs)))"

locale binary_instance =
  fixes put :: "'a \<Rightarrow> byte list"
    and get :: "'a get"
    and wf :: "'a \<Rightarrow> bool"
  assumes get_put: "wf x \<Longrightarrow> get (put x @ rest) = Inr (x, rest)"
begin

lemma get_puts:
  "list_all wf xs \<Longrightarrow> get_many get (length xs) (concat (map put xs) @ rest) = Inr (xs, rest)"
  by (induction xs) (simp_all add: get_bind_def get_return_def get_put)

lemma prefix_free: "wf x \<Longrightarrow> wf y \<Longrightarrow> put x @ r = put y @ r' \<Longrightarrow> x = y \<and> r = r'"
  by (drule arg_cong [where f = get]) (simp add: get_put)

lemma uniquely_decodable:
  "list_all wf xs \<Longrightarrow> list_all wf ys \<Longrightarrow> length xs = length ys \<Longrightarrow>
     concat (map put xs) = concat (map put ys) \<Longrightarrow> xs = ys"
  by (drule arg_cong [where f = "get_many get (length xs)"])
    (use get_puts [of xs "[]"] get_puts [of ys "[]"] in simp)

end

fun command_wf :: "'t text_library \<Rightarrow> 't Command \<Rightarrow> bool" where
  "command_wf lib (Command namespace commandId) \<longleftrightarrow> text_library_ok lib \<and> namespace_wf lib namespace"

interpretation word8: binary_instance "\<lambda>b. [b]" getWord8 "\<lambda>_. True"
  by unfold_locales simp

interpretation namespace_bytes: binary_instance "\<lambda>ns. put_Namespace (namespaceUtf8 (the ns))"
    "get_Namespace lib" "\<lambda>ns. text_library_ok lib \<and> (\<exists>n. ns = Some n \<and> namespace_wf lib n)"
  for lib :: "'t text_library"
  by unfold_locales (elim conjE exE, simp add: get_Namespace_Inr)

interpretation command: binary_instance encodeLazy "get_Command lib" "command_wf lib"
  for lib :: "'t text_library"
proof
  fix c :: "'t Command" and rest
  assume "command_wf lib c"
  then show "get_Command lib (encodeLazy c @ rest) = Inr (c, rest)"
    by (cases c) (simp add: get_Command_Inr put_Command_def)
qed

text \<open>A client that has written commands one after the other can be understood in one way only.\<close>

lemma command_streams_decode:
  "list_all (command_wf lib) cs \<Longrightarrow>
     get_many (get_Command lib) (length cs) (concat (map encodeLazy cs) @ rest) = Inr (cs, rest)"
  by (rule command.get_puts)

section \<open>What the messages do in the C library\<close>

text \<open>The builtin commands, each with the call of the RTS that its documentation names.\<close>

definition builtin_commands :: "'t text_library \<Rightarrow> ('t Command \<times> handler_effect) list" where
  "builtin_commands lib =
     [(startProfiling lib, CallsStartProfTimer), (stopProfiling lib, CallsStopProfTimer),
      (startHeapProfiling lib, CallsStartHeapProfTimer), (stopHeapProfiling lib, CallsStopHeapProfTimer),
      (requestHeapCensus lib, CallsRequestHeapCensus)]"

lemma builtin_entry_0:
  assumes "registry_inv s"
  shows "0 < length (ctl_namespace_registry s)" "ctl_namespace_registry s ! 0 = builtin_namespace_entry"
  using assms by (auto simp: registry_inv_def Let_def hd_conv_nth)

lemma builtin_entry_effects:
  assumes "reg ! 0 = builtin_namespace_entry"
  shows "spec_effects reg 0 cid =
     (if cid = 1 then [CallsStartProfTimer] else if cid = 2 then [CallsStopProfTimer]
      else if cid = 3 then [CallsStartHeapProfTimer] else if cid = 4 then [CallsStopHeapProfTimer]
      else if cid = 5 then [CallsRequestHeapCensus] else [])"
  using assms
  by (simp add: spec_effects_def builtin_namespace_entry_def builtin_id_defs
      es_control_start_profiling_def es_control_stop_profiling_def
      es_control_start_heap_profiling_def es_control_stop_heap_profiling_def
      es_control_request_heap_census_def)

lemma builtin_command_cases:
  assumes "(c, e) \<in> set (builtin_commands lib)"
  obtains cid where "c = Command (eventlogSocketNamespace lib) cid"
    "\<And>reg. reg ! 0 = builtin_namespace_entry \<Longrightarrow> spec_effects reg 0 cid = [e]"
  using assms by (auto simp: builtin_commands_def builtin_entry_effects builtin_command_defs)

lemma spec_run_builtin:
  assumes "text_library_ok lib" "registry_inv s" "set cs \<subseteq> set (builtin_commands lib)"
  shows "spec_run (ctl_namespace_registry s) (concat (map (encodeLazy \<circ> fst) cs)) (SpecMagic 0, es) =
     Some (SpecMagic 0, es @ map snd cs)"
  using assms(3)
proof (induction cs arbitrary: es)
  case (Cons ce cs)
  let ?reg = "ctl_namespace_registry s"
  obtain c e where ce: "ce = (c, e)" by (cases ce)
  with Cons.prems have "(c, e) \<in> set (builtin_commands lib)" by simp
  then obtain cid where c: "c = Command (eventlogSocketNamespace lib) cid" "spec_effects ?reg 0 cid = [e]"
    by (rule builtin_command_cases) (use builtin_entry_0(2) [OF assms(2)] in blast)
  have "spec_run ?reg (encodeLazy c) (SpecMagic 0, es) = Some (SpecMagic 0, es @ [e])"
    using spec_run_command [OF entry_name_resolves [OF assms(2) builtin_entry_0(1) [OF assms(2)]]]
    by (simp add: c(1) text_library_okD(2) [OF assms(1)] builtin_entry_0(2) [OF assms(2)] c(2))
  with Cons ce show ?case by (simp add: spec_run_append)
qed simp

text \<open>C16: the five builtin commands of the Haskell package do what their documentation says. In any
  state that the control thread can be in between two messages, any sequence of them, encoded by
  the package and cut in any way into chunks of at most 255 bytes, makes the C library call exactly
  the functions of the RTS that the documentation names, in their order. (Twelve messages sent at
  once can fill the 256 bytes of the buffer; a full chunk that begins inside a namespace is not
  handled: \<open>full_chunk_stops_control_thread\<close>.)\<close>

theorem builtin_messages_call_the_rts:
  assumes "text_library_ok lib" "parser_ready s" "ctl_command_parser_state s = STATE_MAGIC 0"
    and "set cs \<subseteq> set (builtin_commands lib)" "list_all chunk_ok ops"
    and "concat (map received ops) = concat (map (encodeLazy \<circ> fst) cs)"
  shows "\<exists>rs s'. run_ops (parser_step nd) ops s = Returns rs s'
     \<and> list_all (\<lambda>status. status = STATUS_OK) rs
     \<and> ctl_effects s' = ctl_effects s @ map snd cs"
proof -
  have "registry_inv s" using assms(2) by (simp add: parser_ready_def registry_ready_def)
  from parser_stream [OF assms(2,5), of _ nd] spec_run_builtin [OF assms(1) this assms(4)] assms(3,6)
  show ?thesis by (fastforce simp: control_spec_def)
qed

theorem builtin_messages_call_the_rts_witness:
  "\<exists>rs s'. run_ops (parser_step False)
       [demo_op (encodeLazy (stopProfiling demo_text_library)),
        demo_op (encodeLazy (requestHeapCensus demo_text_library))] initial_control = Returns rs s'
     \<and> ctl_effects s' = [CallsStopProfTimer, CallsRequestHeapCensus]"
proof -
  let ?cs = "[(stopProfiling demo_text_library, CallsStopProfTimer),
      (requestHeapCensus demo_text_library, CallsRequestHeapCensus)]"
  have len: "length (encodeLazy (Command (eventlogSocketNamespace demo_text_library) cid)) < 256" for cid
    by (simp add: put_Command_def put_Namespace_def magicBytes_def BUILTIN_NAMESPACE_bytes
        text_library_okD(2) [OF demo_text_library_ok])
  have cs: "set ?cs \<subseteq> set (builtin_commands demo_text_library)" by (simp add: builtin_commands_def)
  have ops: "list_all chunk_ok (map (demo_op \<circ> encodeLazy \<circ> fst) ?cs)"
    "concat (map received (map (demo_op \<circ> encodeLazy \<circ> fst) ?cs)) = concat (map (encodeLazy \<circ> fst) ?cs)"
    using len by (simp_all add: builtin_command_defs del: encodeLazy.simps)
  show ?thesis
    using builtin_messages_call_the_rts [OF demo_text_library_ok parser_ready_initial _ cs ops, of False]
    by auto
qed

section \<open>Names that are not reserved\<close>

lemma spec_lookup_comparable:
  assumes "registry_inv s" "name \<noteq> []"
    and "prefix name BUILTIN_NAMESPACE \<or> prefix BUILTIN_NAMESPACE name"
  shows "spec_lookup (ctl_namespace_registry s) name = Some 0"
proof -
  let ?m = "min (length name) 15"
  have len: "length BUILTIN_NAMESPACE = 15" "0 \<notin> set BUILTIN_NAMESPACE"
    by (simp_all add: BUILTIN_NAMESPACE_bytes)
  have eq: "take ?m name = take ?m BUILTIN_NAMESPACE"
    using take_min_eq_iff_prefix [of "length name" name 15 BUILTIN_NAMESPACE] assms(3) len by simp
  then have "0 \<notin> set (take ?m name)" using len(2) by (metis in_set_takeD)
  then have "strncmp (name @ [0]) (BUILTIN_NAMESPACE @ [0]) ?m = 0"
    using eq len by (subst strncmp_eq_0_iff_take) auto
  then have "es_control_namespace_store_match (Some (ctl_namespace_registry s ! 0)) (length name) (name @ [0])"
    using len by (simp add: builtin_entry_0(2) [OF assms(1)] store_match_Some)
  from namespace_resolve_from_first [OF builtin_entry_0(1) [OF assms(1)] this] show ?thesis
    by (simp add: spec_lookup_def)
qed

text \<open>C38: the reserved namespace is not protected. The Haskell package refuses only the name
  \<open>eventlog-socket\<close> itself. Commands of a user namespace whose name is a non-empty prefix of it, or
  extends it, are accepted by the package, and the C library executes them as builtin commands.\<close>

theorem user_commands_can_reach_builtins:
  assumes "text_library_ok lib" "userNamespace lib t = Inr ns" "namespaceUtf8 ns \<noteq> []"
    and "prefix (namespaceUtf8 ns) BUILTIN_NAMESPACE \<or> prefix BUILTIN_NAMESPACE (namespaceUtf8 ns)"
    and "(Command (eventlogSocketNamespace lib) cid, e) \<in> set (builtin_commands lib)"
    and "parser_ready s" "ctl_command_parser_state s = STATE_MAGIC 0" "list_all chunk_ok ops"
    and "concat (map received ops) = encodeLazy (userCommand ns cid)"
  shows "\<exists>rs s'. run_ops (parser_step nd) ops s = Returns rs s'
     \<and> ctl_effects s' = ctl_effects s @ [e]"
proof -
  have inv: "registry_inv s" using assms(6) by (simp add: parser_ready_def registry_ready_def)
  have "spec_effects (ctl_namespace_registry s) 0 cid = [e]"
    using assms(5) by (rule builtin_command_cases) (use builtin_entry_0(2) [OF inv] in auto)
  moreover have "length (namespaceUtf8 ns) < 256"
    using userNamespace_wf [OF assms(2)] by (auto simp: namespace_wf_def)
  ultimately have "spec_run (ctl_namespace_registry s) (encodeLazy (userCommand ns cid)) (SpecMagic 0, ctl_effects s) =
      Some (SpecMagic 0, ctl_effects s @ [e])"
    using spec_run_command [OF assms(3) _ spec_lookup_comparable [OF inv assms(3,4)]]
    by (simp add: userCommand_def)
  with parser_stream [OF assms(6,8), of _ nd] assms(7,9) show ?thesis
    by (fastforce simp: control_spec_def)
qed

definition demo_user_namespace :: "byte list Namespace" where
  "demo_user_namespace =
     (let t = bytes_of_string ''event'' in \<lparr>namespaceText = t, namespaceUtf8 = t\<rparr>)"

lemma demo_userNamespace:
  "userNamespace demo_text_library (bytes_of_string ''event'') = Inr demo_user_namespace"
  by (simp add: userNamespace_def Let_def isNamespaceReserved_def isNamespaceTooLong_def
      eventlogSocketNamespace_def unsafeMakeNamespace_def demo_text_library_def bytes_of_string_def
      demo_user_namespace_def)

theorem user_commands_can_reach_builtins_witness:
  "\<exists>rs s'. run_ops (parser_step False) [demo_op (encodeLazy (userCommand demo_user_namespace 5))]
       initial_control = Returns rs s' \<and> ctl_effects s' = [CallsRequestHeapCensus]"
proof -
  have name: "namespaceUtf8 demo_user_namespace = take 5 BUILTIN_NAMESPACE"
    by (simp add: demo_user_namespace_def bytes_of_string_def BUILTIN_NAMESPACE_bytes of_char_def Let_def)
  have "length (encodeLazy (userCommand demo_user_namespace 5)) < 256"
    by (simp add: userCommand_def name put_Command_def put_Namespace_def magicBytes_def
        BUILTIN_NAMESPACE_bytes)
  then have ops: "list_all chunk_ok [demo_op (encodeLazy (userCommand demo_user_namespace 5))]"
    "concat (map received [demo_op (encodeLazy (userCommand demo_user_namespace 5))]) =
       encodeLazy (userCommand demo_user_namespace 5)" by simp_all
  have c: "(Command (eventlogSocketNamespace demo_text_library) 5, CallsRequestHeapCensus)
      \<in> set (builtin_commands demo_text_library)"
    by (simp add: builtin_commands_def builtin_command_defs)
  show ?thesis
    using user_commands_can_reach_builtins [OF demo_text_library_ok demo_userNamespace _ _ c
        parser_ready_initial _ ops, of False]
    by (simp add: name BUILTIN_NAMESPACE_bytes del: run_ops.simps)
qed

end
