(* ===== verification/ES_ParserLimits.thy ===== *)
theory ES_ParserLimits
  imports ES_ParserStream
begin

text \<open>
  The command parser at its edges: it finds the magic bytes after any noise that does not
  contain them; it executes messages of protocol versions it does not support; it resumes
  inside the name of a namespace it does not know; it does not return from a full chunk
  received inside a namespace; and the messages printed in the README are not commands.
\<close>

section \<open>Noise before a message\<close>

text \<open>How many bytes of the magic sequence the bytes read so far end with.\<close>

definition magic_match :: "byte list \<Rightarrow> nat" where
  "magic_match bs =
     (if suffix [0xF0, 0x9E, 0x97] bs then 3
      else if suffix [0xF0, 0x9E] bs then 2
      else if suffix [0xF0] bs then 1 else 0)"

lemma suffix_snoc_iff: "suffix (xs @ [x]) (ys @ [y]) \<longleftrightarrow> x = y \<and> suffix xs ys"
  by auto

lemma magic_suffix_snoc:
  "suffix [0xF0] (bs @ [b :: byte]) \<longleftrightarrow> b = 0xF0"
  "suffix [0xF0, 0x9E] (bs @ [b :: byte]) \<longleftrightarrow> b = 0x9E \<and> suffix [0xF0] bs"
  "suffix [0xF0, 0x9E, 0x97] (bs @ [b :: byte]) \<longleftrightarrow> b = 0x97 \<and> suffix [0xF0, 0x9E] bs"
  "suffix magicBytes (bs @ [b :: byte]) \<longleftrightarrow> b = 0x8C \<and> suffix [0xF0, 0x9E, 0x97] bs"
  using suffix_snoc_iff [of "[]" "0xF0" bs b] suffix_snoc_iff [of "[0xF0]" "0x9E" bs b]
    suffix_snoc_iff [of "[0xF0, 0x9E]" "0x97" bs b]
    suffix_snoc_iff [of "[0xF0, 0x9E, 0x97]" "0x8C" bs b]
  by (auto simp: magicBytes_def)

lemma magic_suffix_excl:
  "suffix [0xF0] bs \<Longrightarrow> \<not> suffix [0xF0, 0x9E :: byte] bs \<and> \<not> suffix [0xF0, 0x9E, 0x97 :: byte] bs"
  "suffix [0xF0, 0x9E] bs \<Longrightarrow> \<not> suffix [0xF0, 0x9E, 0x97 :: byte] bs"
  by (auto simp: suffix_def)

lemma magic_match_snoc:
  "magic_match (bs @ [b]) =
     (if b = 0x97 \<and> suffix [0xF0, 0x9E] bs then 3
      else if b = 0x9E \<and> suffix [0xF0] bs then 2
      else if b = 0xF0 then 1 else 0)"
  unfolding magic_match_def magic_suffix_snoc ..

lemma spec_run_noise:
  "\<not> sublist magicBytes bs \<Longrightarrow>
     spec_run reg bs (SpecMagic 0, es) = Some (SpecMagic (magic_match bs), es)"
proof (induction bs rule: rev_induct)
  case Nil
  then show ?case by (simp add: magic_match_def)
next
  case (snoc b bs)
  have "\<not> sublist magicBytes bs" using snoc.prems by (simp add: sublist_snoc)
  then have IH: "spec_run reg bs (SpecMagic 0, es) = Some (SpecMagic (magic_match bs), es)"
    by (rule snoc.IH)
  have no: "\<not> (b = 0x8C \<and> suffix [0xF0, 0x9E, 0x97] bs)"
    using snoc.prems suffix_imp_sublist [of magicBytes "bs @ [b]"] magic_suffix_snoc(4) by blast
  show ?case
  proof (cases "magic_match bs = 3")
    case True
    then have "suffix [0xF0, 0x9E, 0x97] bs" by (simp add: magic_match_def split: if_splits)
    with True no IH magic_suffix_excl [of bs] show ?thesis
      by (auto simp: spec_run_append magic_match_snoc g_control_magic_def CONTROL_MAGIC_LEN_def)
  next
    case False
    then have "\<not> suffix [0xF0, 0x9E, 0x97] bs" by (simp add: magic_match_def split: if_splits)
    with IH magic_suffix_excl [of bs] show ?thesis
      by (cases "suffix [0xF0, 0x9E] bs"; cases "suffix [0xF0] bs")
        (simp_all add: spec_run_append magic_match_snoc magic_match_def [of bs] g_control_magic_def
          CONTROL_MAGIC_LEN_def)
  qed
qed

lemma spec_run_noise_magic:
  assumes "\<not> sublist magicBytes (noise @ butlast magicBytes)"
  shows "spec_run reg (noise @ magicBytes) (SpecMagic 0, es) = Some (SpecVersion, es)"
proof -
  have m: "magicBytes = butlast magicBytes @ [0x8C]" by (simp add: magicBytes_def)
  have "magic_match (noise @ butlast magicBytes) = 3"
    by (auto simp: magic_match_def magicBytes_def suffix_def)
  then have "spec_run reg (noise @ butlast magicBytes) (SpecMagic 0, es) = Some (SpecMagic 3, es)"
    using spec_run_noise [OF assms] by simp
  then show ?thesis
    by (subst m, subst append_assoc [symmetric], subst spec_run_append)
      (simp add: g_control_magic_def CONTROL_MAGIC_LEN_def)
qed

text \<open>C25: the parser resynchronises. If a client first sends any bytes that do not contain the magic
  sequence (also not across the border), then a command to a registered namespace, the command
  is executed and the noise has no effect, in whatever chunks of at most 255 bytes they arrive.\<close>

theorem command_after_noise_is_dispatched:
  assumes "parser_ready s" "ctl_command_parser_state s = STATE_MAGIC 0"
    and "\<not> sublist magicBytes (noise @ butlast magicBytes)"
    and "p < length (ctl_namespace_registry s)"
    and "list_all chunk_ok ops"
    and "concat (map received ops) =
      noise @ put_Command (entry_name (ctl_namespace_registry s ! p)) cid"
  shows "\<exists>rs s'. run_ops (parser_step nd) ops s = Returns rs s'
     \<and> spec_of (ctl_command_parser_state s') = SpecMagic 0
     \<and> ctl_effects s' = ctl_effects s @ spec_effects (ctl_namespace_registry s) p cid"
proof -
  let ?reg = "ctl_namespace_registry s"
  have "registry_inv s" using assms(1) by (simp add: parser_ready_def registry_ready_def)
  note name = entry_name_resolves [OF this assms(4)]
  obtain rest where rest: "put_Command (entry_name (?reg ! p)) cid = magicBytes @ rest"
    by (simp add: put_Command_def)
  have "spec_run ?reg rest (SpecVersion, ctl_effects s) =
      spec_run ?reg (magicBytes @ rest) (SpecMagic 0, ctl_effects s)"
    by (simp add: spec_run_append spec_run_magic)
  then have "spec_run ?reg rest (SpecVersion, ctl_effects s) =
      Some (SpecMagic 0, ctl_effects s @ spec_effects ?reg p cid)"
    using spec_run_command [OF name, of cid "ctl_effects s"] rest by simp
  then have "spec_run ?reg (noise @ magicBytes @ rest) (SpecMagic 0, ctl_effects s) =
      Some (SpecMagic 0, ctl_effects s @ spec_effects ?reg p cid)"
    using spec_run_append [of ?reg "noise @ magicBytes" rest]
      spec_run_noise_magic [OF assms(3), of ?reg "ctl_effects s"] by simp
  then show ?thesis
    using parser_stream [OF assms(1,5), of _ nd] assms(2,6) rest
    by (fastforce simp: control_spec_def)
qed


theorem command_after_noise_is_dispatched_witness:
  "\<exists>rs s'. run_ops (parser_step True)
       [demo_op ([0xF0, 0x9E, 0xF0, 7] @ put_Command BUILTIN_NAMESPACE 5)] initial_control = Returns rs s'
     \<and> ctl_effects s' = [CallsRequestHeapCensus]"
proof -
  have "\<not> sublist magicBytes ([0xF0, 0x9E, 0xF0, 7] @ butlast magicBytes)"
    by (simp add: magicBytes_def sublist_Cons_right)
  moreover have "length ([0xF0, 0x9E, 0xF0, 7] @ put_Command BUILTIN_NAMESPACE 5) < 256"
    by (simp add: put_Command_def put_Namespace_def magicBytes_def BUILTIN_NAMESPACE_bytes)
  note this [THEN demo_op_ok(1)] this [THEN demo_op_ok(2)]
  ultimately show ?thesis
    using command_after_noise_is_dispatched [OF parser_ready_initial, of "[0xF0, 0x9E, 0xF0, 7]" 0
        "[demo_op ([0xF0, 0x9E, 0xF0, 7] @ put_Command BUILTIN_NAMESPACE 5)]" 5 True]
    by (auto simp del: run_ops.simps chunk_ok.simps received.simps append_Cons
        simp add: spec_effects_builtin)
qed

section \<open>Versions that are not supported\<close>

text \<open>A message of an unsupported protocol version is not refused. The case of the version byte
  falls through into the case of the namespace length: a message whose version byte is the
  length \<open>v\<close> of a registered name, followed by the name and an ID, without a length byte,
  calls the command's handler.\<close>

theorem unsupported_version_is_executed:
  assumes "parser_ready s" "ctl_command_parser_state s = STATE_MAGIC 0"
    and "p < length (ctl_namespace_registry s)"
    and "list_all chunk_ok ops"
    and "v = ns_namespace_len (ctl_namespace_registry s ! p)"
    and "concat (map received ops) =
      magicBytes @ [v] @ entry_name (ctl_namespace_registry s ! p) @ [cid]"
  shows "v \<noteq> EVENTLOG_SOCKET_CONTROL_PROTOCOL_VERSION
     \<and> (\<exists>rs s'. run_ops (parser_step nd) ops s = Returns rs s'
          \<and> list_all (\<lambda>status. status = STATUS_OK) rs
          \<and> ctl_effects s' = ctl_effects s @ spec_effects (ctl_namespace_registry s) p cid)"
proof -
  let ?reg = "ctl_namespace_registry s"
  let ?name = "entry_name (?reg ! p)"
  have inv: "registry_inv s" using assms(1) by (simp add: parser_ready_def registry_ready_def)
  note name = entry_name_resolves [OF inv assms(3)]
  have "entry_wf (?reg ! p)"
    using inv assms(3) by (simp add: registry_inv_def Let_def list_all_length)
  then have len: "length ?name = unat v" by (simp add: entry_name_def entry_wf_def assms(5))
  with name(1) have v: "v \<noteq> 0" by auto
  then have "spec_run ?reg (magicBytes @ [v] @ ?name @ [cid]) (SpecMagic 0, ctl_effects s) =
      Some (SpecMagic 0, ctl_effects s @ spec_effects ?reg p cid)"
    using spec_run_payload [OF name(1,3), of cid "ctl_effects s"] len
    by (simp add: spec_run_append spec_run_magic EVENTLOG_SOCKET_CONTROL_PROTOCOL_VERSION_def)
  then have "\<exists>rs s'. run_ops (parser_step nd) ops s = Returns rs s'
      \<and> list_all (\<lambda>status. status = STATUS_OK) rs
      \<and> ctl_effects s' = ctl_effects s @ spec_effects ?reg p cid"
    using parser_stream [OF assms(1,4), of _ nd] assms(2,6) by (fastforce simp: control_spec_def)
  with v show ?thesis by (simp add: EVENTLOG_SOCKET_CONTROL_PROTOCOL_VERSION_def)
qed

theorem unsupported_version_is_executed_witness:
  "\<exists>rs s'. run_ops (parser_step True) [demo_op (magicBytes @ [15] @ BUILTIN_NAMESPACE @ [5])]
       initial_control = Returns rs s'
     \<and> ctl_effects s' = [CallsRequestHeapCensus]"
proof -
  let ?b = "magicBytes @ [15] @ BUILTIN_NAMESPACE @ [5]"
  have "length ?b < 256" by (simp add: magicBytes_def BUILTIN_NAMESPACE_bytes)
  then have ok: "list_all chunk_ok [demo_op ?b]" and rec: "concat (map received [demo_op ?b]) = ?b"
    by (simp_all only: list.pred_inject simp_thms demo_op_ok list.map concat.simps append_Nil2)
  show ?thesis
    using unsupported_version_is_executed [OF parser_ready_initial _ _ ok, of 0 15 5 True]
    unfolding rec by (auto simp del: run_ops.simps simp add: spec_effects_builtin)
qed

section \<open>The messages of the README\<close>

text \<open>
  The README prints the messages of the builtin commands with the length byte \<open>\x15\<close> (21),
  although the name has 15 bytes.
\<close>

definition readme_message :: "byte \<Rightarrow> byte list" where
  "readme_message cid = [0xF0, 0x9E, 0x97, 0x8C, 0x00, 0x15] @ BUILTIN_NAMESPACE @ [cid]"

text \<open>A message as the README prints it is not executed: whatever the command ID and the
  chunks, no handler is called and the parser waits for five more bytes of a name.\<close>

theorem readme_messages_are_not_executed:
  assumes "parser_ready s" "ctl_command_parser_state s = STATE_MAGIC 0"
    and "list_all chunk_ok ops" "concat (map received ops) = readme_message cid"
  shows "\<exists>rs s'. run_ops (parser_step nd) ops s = Returns rs s'
     \<and> spec_of (ctl_command_parser_state s') = SpecNamespace 21 (BUILTIN_NAMESPACE @ [cid])
     \<and> ctl_effects s' = ctl_effects s"
proof -
  have "readme_message cid = magicBytes @ [0, 21] @ BUILTIN_NAMESPACE @ [cid]"
    by (simp add: readme_message_def magicBytes_def)
  moreover have "length BUILTIN_NAMESPACE = 15" by (simp add: BUILTIN_NAMESPACE_bytes)
  ultimately have "spec_run (ctl_namespace_registry s) (readme_message cid) (control_spec s) =
      Some (SpecNamespace 21 (BUILTIN_NAMESPACE @ [cid]), ctl_effects s)"
    using assms(2)
    by (simp add: spec_run_append spec_run_magic control_spec_def spec_run_namespace_partial
        EVENTLOG_SOCKET_CONTROL_PROTOCOL_VERSION_def)
  with parser_stream [OF assms(1,3), of _ nd] assms(4) show ?thesis
    by (fastforce simp: control_spec_def)
qed

theorem readme_messages_are_not_executed_witness:
  "\<exists>rs s'. run_ops (parser_step True) [demo_op (readme_message 5)] initial_control = Returns rs s'
     \<and> ctl_effects s' = []"
proof -
  have "length (readme_message 5) < 256" by (simp add: readme_message_def BUILTIN_NAMESPACE_bytes)
  then have "list_all chunk_ok [demo_op (readme_message 5)]"
    "concat (map received [demo_op (readme_message 5)]) = readme_message 5" by simp_all
  from readme_messages_are_not_executed [OF parser_ready_initial _ this, of True]
  show ?thesis by fastforce
qed


section \<open>A full chunk inside a namespace\<close>

definition inside_namespace :: "control \<Rightarrow> bool" where
  "inside_namespace s \<longleftrightarrow>
     (case ctl_command_parser_state s of
        STATE_NAMESPACE len pos buf \<Rightarrow> pos < len \<and> length buf = Suc (unat len)
      | _ \<Rightarrow> False)"

lemma memcpy_at_Nil: "off \<le> length dest \<Longrightarrow> memcpy_at dest off [] = Some dest"
  by (simp add: memcpy_at_def)

lemma full_chunk_round:
  assumes "inside_namespace s"
  shows "handle_chunk_round True env 256 chunk 0 s = Returns (Inr (-1)) s"
    and "handle_chunk_round False env 256 chunk 0 s = Aborts"
proof -
  obtain len pos buf where st: "ctl_command_parser_state s = STATE_NAMESPACE len pos buf"
    and p: "pos < len" "length buf = Suc (unat len)"
    using assms by (auto simp: inside_namespace_def split: ControlCommandParserState.splits)
  have pos: "len > 0" "len - pos > 0" "unat pos \<le> length buf"
    using p namespace_arith(2) [of pos len 0 1] by (auto simp: word_less_nat_alt)
  have z: "(256 :: byte) = 0" by simp
  have s: "s\<lparr>ctl_command_parser_state := STATE_NAMESPACE len pos buf\<rparr> = s" using st by simp
  show "handle_chunk_round True env 256 chunk 0 s = Returns (Inr (-1)) s"
    using st p pos by (simp add: handle_chunk_round_def parse_namespace_def Let_def memcpy_at_Nil s z)
  show "handle_chunk_round False env 256 chunk 0 s = Aborts"
    using st p pos by (simp add: handle_chunk_round_def parse_namespace_def Let_def z)
qed

lemma full_chunk_loop:
  assumes "handle_chunk_loop nd env n chunk i s = Some r"
  shows "\<not> (nd \<and> n = 256 \<and> i = 0 \<and> inside_namespace s)"
proof (rule handle_chunk_loop.raw_induct [where P = "\<lambda>nd env n chunk i s r.
    \<not> (nd \<and> n = 256 \<and> i = 0 \<and> inside_namespace s)", OF _ assms])
  fix f nd env n chunk i s r
  assume IH: "\<And>nd env n chunk i s y. f nd env n chunk i s = Some y \<Longrightarrow>
      \<not> (nd \<and> n = 256 \<and> i = 0 \<and> inside_namespace s)"
    and r: "(if i < n then
        case handle_chunk_round nd (env i) n chunk i s of
          Returns r s \<Rightarrow> (case r of Inl status \<Rightarrow> Some (Returns status s)
            | Inr i \<Rightarrow> f nd env n chunk (i + 1) s)
        | ThreadExits s \<Rightarrow> Some (ThreadExits s) | Aborts \<Rightarrow> Some Aborts
        | Crashes \<Rightarrow> Some Crashes | Hangs \<Rightarrow> Some Hangs
      else Some (Returns STATUS_OK s)) = Some r"
  show "\<not> (nd \<and> n = 256 \<and> i = 0 \<and> inside_namespace s)"
    using r IH [of True env 256 chunk 0 s r] by (cases nd) (auto simp: full_chunk_round)
qed

text \<open>A chunk of exactly 256 bytes (the size of the receive buffer) that arrives while the
  parser is inside a namespace is never processed. The number of bytes left is truncated to 8
  bits and becomes 0: with \<open>NDEBUG\<close> the loop repeats its first round for ever, and in a
  debug build the assertion on \<open>remaining_bytes_in_chunk\<close> fails.\<close>

theorem full_chunk_inside_namespace:
  assumes "inside_namespace s"
  shows "es_control_command_parser_handle_chunk True env 256 chunk s = Hangs \<and>
    es_control_command_parser_handle_chunk False env 256 chunk s = Aborts"
proof -
  have "handle_chunk_loop True env 256 chunk 0 s = None"
    using assms full_chunk_loop [of True env 256 chunk 0 s]
    by (cases "handle_chunk_loop True env 256 chunk 0 s") auto
  moreover have "handle_chunk_loop False env 256 chunk 0 s = Some Aborts"
    using full_chunk_round(2) [OF assms] by (simp add: handle_chunk_loop.simps)
  ultimately show ?thesis by (simp add: es_control_command_parser_handle_chunk_def)
qed

theorem full_chunk_inside_namespace_witness:
  "\<exists>rs s'. run_ops (parser_step True) [demo_op (magicBytes @ [0, 16, 97])] initial_control = Returns rs s'
     \<and> es_control_command_parser_handle_chunk True (\<lambda>_. demo_control_env) 256 (replicate 256 97) s' = Hangs"
proof -
  let ?b = "magicBytes @ [0, 16, 97]"
  have "length ?b < 256" by (simp add: magicBytes_def)
  then have ok: "list_all chunk_ok [demo_op ?b]" and rec: "concat (map received [demo_op ?b]) = ?b"
    by (simp_all only: list.pred_inject simp_thms demo_op_ok list.map concat.simps append_Nil2)
  have "spec_run (ctl_namespace_registry initial_control) ?b (control_spec initial_control) =
      Some (SpecNamespace 16 [97], [])"
    by (simp add: control_spec_def spec_run_append spec_run_magic
        EVENTLOG_SOCKET_CONTROL_PROTOCOL_VERSION_def)
  then obtain rs s' where s': "run_ops (parser_step True) [demo_op ?b] initial_control = Returns rs s'"
    "parser_ready s'" "spec_of (ctl_command_parser_state s') = SpecNamespace 16 [97]"
    using parser_stream [OF parser_ready_initial ok, of _ True] unfolding rec
    by (auto simp: control_spec_def)
  have "inside_namespace s'"
    using s'(2,3)
    by (cases "ctl_command_parser_state s'") (auto simp: inside_namespace_def parser_ready_def)
  from full_chunk_inside_namespace [OF this] s'(1) show ?thesis by blast
qed


section \<open>A namespace that is not registered\<close>

text \<open>
  A command to an unregistered namespace whose name has 22 bytes: they are the encoding of the
  command \<open>requestHeapCensus\<close>.
\<close>

definition unknown_message :: "byte list" where
  "unknown_message = put_Command (put_Command BUILTIN_NAMESPACE 5) 1"

lemma unknown_message_bytes:
  "unknown_message =
     [0xF0, 0x9E, 0x97, 0x8C, 0, 22, 0xF0, 0x9E, 0x97, 0x8C, 0, 15, 0x65, 0x76, 0x65, 0x6E, 0x74,
      0x6C, 0x6F, 0x67, 0x2D, 0x73, 0x6F, 0x63, 0x6B, 0x65, 0x74, 5, 1]"
  by (simp add: unknown_message_def put_Command_def put_Namespace_def magicBytes_def
      protocolVersion_def BUILTIN_NAMESPACE_bytes)

lemmas parser_eval =
  es_control_command_parser_handle_chunk_def handle_chunk_loop.simps handle_chunk_round_def
  parse_magic_def parse_protocol_version_def parse_namespace_len_def parse_namespace_def
  parse_command_id_def g_control_magic_def CONTROL_MAGIC_LEN_def
  EVENTLOG_SOCKET_CONTROL_PROTOCOL_VERSION_def es_control_command_parser_enter_state_def
  malloc_block_def memcpy_at_def store_resolve_ready command_handle_result Let_def

lemma builtin_find_command_5 [simp]:
  "find_command (ns_command_registry builtin_namespace_entry) 5 =
     Some \<lparr>cmd_command_id = 5, cmd_command_handler = Some HandlerRequestHeapCensus, cmd_command_data = 0\<rparr>"
  by (simp add: builtin_namespace_entry_def builtin_id_defs)

text \<open>On a namespace that is not registered, the parser resumes at the first byte of the name's
  part that is in the current chunk, so what it does depends on the chunks. If a message to an
  unknown namespace arrives in one chunk, a command encoded in the name is executed; if the
  name's last byte arrives in a second chunk, it is not. (The comment in the code says that
  all bytes of the name are skipped.)\<close>

theorem unknown_namespace_depends_on_chunks:
  "(\<exists>s'. es_control_command_parser_handle_chunk True (\<lambda>_. demo_control_env) 29 unknown_message
           initial_control = Returns STATUS_OK s' \<and> ctl_effects s' = [CallsRequestHeapCensus])
   \<and> (\<exists>s' s''. es_control_command_parser_handle_chunk True (\<lambda>_. demo_control_env) 27
           (take 27 unknown_message) initial_control = Returns STATUS_OK s'
         \<and> es_control_command_parser_handle_chunk True (\<lambda>_. demo_control_env) 2
           (drop 27 unknown_message) s' = Returns STATUS_OK s'' \<and> ctl_effects s'' = [])"
  unfolding unknown_message_bytes
  by (simp add: parser_eval spec_lookup_def store_match_Some BUILTIN_NAMESPACE_bytes
      es_control_request_heap_census_def)

end
