(* ===== verification/ES_WriteBuffer.thy ===== *)
theory ES_WriteBuffer
  imports ES_Prelude
begin

text \<open>
  The write buffer of \<open>write_buffer.c\<close>: a singly linked queue of allocated items, each with an
  allocated copy of its data. The heap is explicit: live items and live blocks are finite
  maps from addresses, \<open>free\<close> removes an address, and any access to an address that is not
  live is undefined behaviour (\<open>Crashes\<close>). \<open>None\<close> as a pointer is \<open>NULL\<close>.

  \<open>wb_rep s q\<close>: the buffer of \<open>s\<close> represents the list \<open>q\<close> of byte strings, and nothing else
  is allocated.
\<close>

section \<open>Operations\<close>

type_synonym addr = nat

record WriteBufferItem =
  wi_orig :: addr
  wi_data :: "addr \<times> nat"
  wi_size :: nat
  wi_next :: "addr option"

text \<open>The heap of the buffer and the two pointers of \<open>WriteBuffer\<close>.\<close>

record wb_state =
  wb_items :: "addr \<Rightarrow> WriteBufferItem option"
  wb_blocks :: "addr \<Rightarrow> byte list option"
  wb_head :: "addr option"
  wb_last :: "addr option"

text \<open>What the two calls of \<open>malloc\<close> in \<open>push\<close> return.\<close>

record push_env =
  pe_copy :: "addr option"
  pe_item :: "addr option"

definition es_write_buffer_push ::
  "bool \<Rightarrow> push_env \<Rightarrow> byte list \<Rightarrow> 'a wb_state_scheme \<Rightarrow> (unit, 'a wb_state_scheme) outcome" where
  "es_write_buffer_push ndebug env data s =
     (case pe_copy env of
        None \<Rightarrow> Crashes
      | Some copy \<Rightarrow>
          (let s = s\<lparr>wb_blocks := (wb_blocks s)(copy \<mapsto> data)\<rparr>
           in case pe_item env of
                None \<Rightarrow> Crashes
              | Some item \<Rightarrow>
                  (let s = s\<lparr>wb_items := (wb_items s)(item \<mapsto>
                             \<lparr>wi_orig = copy, wi_data = (copy, 0), wi_size = length data,
                              wi_next = None\<rparr>)\<rparr>
                   in case wb_last s of
                        None \<Rightarrow>
                          c_assert ndebug (wb_head s = None)
                            (Returns () (s\<lparr>wb_head := Some item, wb_last := Some item\<rparr>))
                      | Some last_item \<Rightarrow>
                          (case wb_items s last_item of
                             None \<Rightarrow> Crashes
                           | Some l \<Rightarrow>
                               Returns () (s\<lparr>wb_items := (wb_items s)(last_item \<mapsto> l\<lparr>wi_next := Some item\<rparr>),
                                             wb_last := Some item\<rparr>)))))"

definition wb_free_block :: "addr \<Rightarrow> 'a wb_state_scheme \<Rightarrow> (unit, 'a wb_state_scheme) outcome" where
  "wb_free_block a s =
     (if wb_blocks s a = None then Crashes
      else Returns () (s\<lparr>wb_blocks := (wb_blocks s)(a := None)\<rparr>))"

definition wb_free_item :: "addr \<Rightarrow> 'a wb_state_scheme \<Rightarrow> (unit, 'a wb_state_scheme) outcome" where
  "wb_free_item a s =
     (if wb_items s a = None then Crashes
      else Returns () (s\<lparr>wb_items := (wb_items s)(a := None)\<rparr>))"

definition es_write_buffer_pop :: "'a wb_state_scheme \<Rightarrow> (unit, 'a wb_state_scheme) outcome" where
  "es_write_buffer_pop s =
     (case wb_head s of
        None \<Rightarrow> Returns () s
      | Some head \<Rightarrow>
          (case wb_items s head of
             None \<Rightarrow> Crashes
           | Some h \<Rightarrow>
               (let s = s\<lparr>wb_head := wi_next h\<rparr>;
                    s = (if wb_last s = Some head then s\<lparr>wb_last := None\<rparr> else s)
                in call_bind (wb_free_block (wi_orig h) s) (\<lambda>_ s. wb_free_item head s))))"

text \<open>The loop of \<open>free\<close>; \<open>None\<close>: it never ends.\<close>

partial_function (option) write_buffer_free_loop ::
  "'a wb_state_scheme \<Rightarrow> (unit, 'a wb_state_scheme) outcome option" where
  "write_buffer_free_loop s =
     (if wb_head s \<noteq> None then
        (case es_write_buffer_pop s of
           Returns _ s \<Rightarrow> write_buffer_free_loop s
         | ThreadExits s \<Rightarrow> Some (ThreadExits s)
         | Aborts \<Rightarrow> Some Aborts
         | Crashes \<Rightarrow> Some Crashes
         | Hangs \<Rightarrow> Some Hangs)
      else Some (Returns () s))"

definition es_write_buffer_free :: "'a wb_state_scheme \<Rightarrow> (unit, 'a wb_state_scheme) outcome" where
  "es_write_buffer_free s =
     (case write_buffer_free_loop s of None \<Rightarrow> Hangs | Some result \<Rightarrow> result)"

section \<open>The representation\<close>

fun wb_chain :: "(addr \<Rightarrow> WriteBufferItem option) \<Rightarrow> addr option \<Rightarrow> addr list \<Rightarrow> bool" where
  "wb_chain items p [] \<longleftrightarrow> p = None"
| "wb_chain items p (a # as) \<longleftrightarrow>
     p = Some a \<and>
     (case items a of None \<Rightarrow> False | Some item \<Rightarrow> wb_chain items (wi_next item) as)"

text \<open>
  An item is \<open>orig\<close>, a block, and what is left to send of it: the pair of a position and a
  size that end where the block ends.
\<close>

definition item_is :: "'a wb_state_scheme \<Rightarrow> addr \<Rightarrow> addr \<Rightarrow> byte list \<Rightarrow> bool" where
  "item_is s a b d \<longleftrightarrow>
     (\<exists>item block. wb_items s a = Some item \<and> wb_blocks s b = Some block \<and> wi_orig item = b \<and>
        fst (wi_data item) = b \<and> snd (wi_data item) + wi_size item = length block \<and>
        d = drop (snd (wi_data item)) block)"

definition wb_layout :: "'a wb_state_scheme \<Rightarrow> addr list \<Rightarrow> addr list \<Rightarrow> byte list list \<Rightarrow> bool" where
  "wb_layout s as bs q \<longleftrightarrow>
     length as = length q \<and> length bs = length q \<and> distinct as \<and> distinct bs \<and>
     wb_chain (wb_items s) (wb_head s) as \<and>
     wb_last s = (if as = [] then None else Some (last as)) \<and>
     dom (wb_items s) = set as \<and> dom (wb_blocks s) = set bs \<and>
     (\<forall>i < length q. item_is s (as ! i) (bs ! i) (q ! i))"

definition wb_rep :: "'a wb_state_scheme \<Rightarrow> byte list list \<Rightarrow> bool" where
  "wb_rep s q \<longleftrightarrow> (\<exists>as bs. wb_layout s as bs q)"

text \<open>\<open>malloc\<close> succeeds, and returns addresses that are not in use.\<close>

definition push_env_ok :: "push_env \<Rightarrow> 'a wb_state_scheme \<Rightarrow> bool" where
  "push_env_ok env s \<longleftrightarrow>
     (\<exists>b a. pe_copy env = Some b \<and> pe_item env = Some a \<and>
        wb_blocks s b = None \<and> wb_items s a = None)"

lemma wb_chain_cong:
  "(\<And>a. a \<in> set as \<Longrightarrow> items a = items' a) \<Longrightarrow> wb_chain items p as = wb_chain items' p as"
  by (induction as arbitrary: p) (auto split: option.splits)

lemma wb_chain_dom: "wb_chain items p as \<Longrightarrow> set as \<subseteq> dom items"
  by (induction as arbitrary: p) (auto split: option.splits)

lemma wb_chain_snoc:
  assumes "wb_chain items p as" "as \<noteq> []" "distinct as" "a \<notin> set as"
    and "items (last as) = Some l" "wi_next item = None"
  shows "wb_chain (items(a \<mapsto> item, last as \<mapsto> l\<lparr>wi_next := Some a\<rparr>)) p (as @ [a])"
  using assms
proof (induction as arbitrary: p)
  case (Cons x xs)
  show ?case
  proof (cases "xs = []")
    case True
    with Cons.prems show ?thesis by auto
  next
    case False
    then have "last xs \<in> set xs" by simp
    with Cons.prems False have x: "x \<noteq> last xs" "x \<noteq> a" by auto
    from Cons.prems(1) obtain i where i: "p = Some x" "items x = Some i" "wb_chain items (wi_next i) xs"
      by (auto split: option.splits)
    have "wb_chain (items(a \<mapsto> item, last xs \<mapsto> l\<lparr>wi_next := Some a\<rparr>)) (wi_next i) (xs @ [a])"
      using Cons.prems False by (intro Cons.IH i) auto
    with i x False show ?thesis by (simp add: fun_upd_def)
  qed
qed simp


section \<open>What the operations do to the represented list\<close>

lemma wb_layout_last:
  assumes "wb_layout s as bs q" "as \<noteq> []"
  obtains l where "wb_last s = Some (last as)" "wb_items s (last as) = Some l"
  using assms unfolding wb_layout_def by (metis domD last_in_set)

lemma push_rep:
  assumes "wb_rep s q" "push_env_ok env s"
  shows "\<exists>s'. es_write_buffer_push nd env d s = Returns () s' \<and> wb_rep s' (q @ [d])
     \<and> wb_state.more s' = wb_state.more s"
proof -
  from assms(1) obtain as bs where L: "wb_layout s as bs q" by (auto simp: wb_rep_def)
  from assms(2) obtain b a where env: "pe_copy env = Some b" "pe_item env = Some a"
    "wb_blocks s b = None" "wb_items s a = None" by (auto simp: push_env_ok_def)
  have fresh: "a \<notin> set as" "b \<notin> set bs" using L env by (auto simp: wb_layout_def)
  let ?item = "\<lparr>wi_orig = b, wi_data = (b, 0), wi_size = length d, wi_next = None\<rparr>"
  show ?thesis
  proof (cases "as = []")
    case True
    let ?s' = "s\<lparr>wb_blocks := (wb_blocks s)(b \<mapsto> d), wb_items := (wb_items s)(a \<mapsto> ?item),
        wb_head := Some a, wb_last := Some a\<rparr>"
    have "es_write_buffer_push nd env d s = Returns () ?s'"
      using L True env by (simp add: es_write_buffer_push_def wb_layout_def Let_def)
    moreover have "wb_layout ?s' [a] [b] [d]"
      using L True by (auto simp: wb_layout_def item_is_def)
    moreover have "q = []" using L True by (auto simp: wb_layout_def)
    ultimately show ?thesis by (auto simp: wb_rep_def)
  next
    case False
    obtain l where l: "wb_last s = Some (last as)" "wb_items s (last as) = Some l"
      using L False by (rule wb_layout_last)
    have neq: "last as \<noteq> a" using False fresh(1) by auto
    let ?items = "(wb_items s)(a \<mapsto> ?item, last as \<mapsto> l\<lparr>wi_next := Some a\<rparr>)"
    let ?s' = "s\<lparr>wb_blocks := (wb_blocks s)(b \<mapsto> d), wb_items := ?items, wb_last := Some a\<rparr>"
    have push: "es_write_buffer_push nd env d s = Returns () ?s'"
      using l neq env by (simp add: es_write_buffer_push_def Let_def)
    have chain: "wb_chain ?items (wb_head s) (as @ [a])"
      using L False fresh l by (intro wb_chain_snoc) (auto simp: wb_layout_def)
    have old: "item_is ?s' (as ! i) (bs ! i) (q ! i)" if "i < length q" for i
    proof -
      have "as ! i \<noteq> a" "bs ! i \<noteq> b" using that L fresh by (auto simp: wb_layout_def)
      with that L l(2) show ?thesis by (auto simp: wb_layout_def item_is_def)
    qed
    have "wb_layout ?s' (as @ [a]) (bs @ [b]) (q @ [d])"
      unfolding wb_layout_def
    proof (intro conjI allI impI)
      show "wb_chain (wb_items ?s') (wb_head ?s') (as @ [a])" using chain by simp
      show "dom (wb_items ?s') = set (as @ [a])" using L False by (auto simp: wb_layout_def)
      show "item_is ?s' ((as @ [a]) ! i) ((bs @ [b]) ! i) ((q @ [d]) ! i)"
        if "i < length (q @ [d])" for i
      proof (cases "i < length q")
        case True
        with old L show ?thesis by (simp add: wb_layout_def nth_append)
      next
        case False
        with that have "i = length q" by simp
        with L neq show ?thesis by (simp add: wb_layout_def nth_append item_is_def)
      qed
    qed (use L fresh in \<open>auto simp: wb_layout_def\<close>)
    with push show ?thesis by (auto simp: wb_rep_def)
  qed
qed

lemma pop_rep_empty: "wb_rep s [] \<Longrightarrow> es_write_buffer_pop s = Returns () s"
  by (auto simp: wb_rep_def wb_layout_def es_write_buffer_pop_def)

lemma wb_head_iff: "wb_rep s q \<Longrightarrow> wb_head s = None \<longleftrightarrow> q = []"
  by (cases q) (auto simp: wb_rep_def wb_layout_def length_Suc_conv)

lemma pop_rep:
  assumes "wb_rep s (d # q)"
  shows "\<exists>s'. es_write_buffer_pop s = Returns () s' \<and> wb_rep s' q
     \<and> wb_state.more s' = wb_state.more s"
proof -
  from assms obtain a as b bs where L: "wb_layout s (a # as) (b # bs) (d # q)"
    by (auto simp: wb_rep_def wb_layout_def length_Suc_conv)
  then obtain i where i: "wb_items s a = Some i" "wb_head s = Some a"
    "wb_chain (wb_items s) (wi_next i) as" "wi_orig i = b" "wb_blocks s b \<noteq> None"
    by (auto simp: wb_layout_def item_is_def split: option.splits)
  let ?s' = "s\<lparr>wb_head := wi_next i, wb_last := (if as = [] then None else Some (last as)),
      wb_blocks := (wb_blocks s)(b := None), wb_items := (wb_items s)(a := None)\<rparr>"
  have "wb_last s = Some a \<longleftrightarrow> as = []"
    using L by (auto simp: wb_layout_def)
  then have "es_write_buffer_pop s = Returns () ?s'"
    using L i by (auto simp: es_write_buffer_pop_def wb_free_block_def wb_free_item_def Let_def
        wb_layout_def)
  moreover have "wb_layout ?s' as bs q"
  proof -
    have "wb_chain ((wb_items s)(a := None)) (wi_next i) as"
    proof (rule iffD1 [OF wb_chain_cong i(3)])
      show "wb_items s x = ((wb_items s)(a := None)) x" if "x \<in> set as" for x
        using that L by (auto simp: wb_layout_def)
    qed
    moreover have "item_is ?s' (as ! k) (bs ! k) (q ! k)" if "k < length q" for k
    proof -
      from L that have "item_is s (as ! k) (bs ! k) (q ! k)"
        unfolding wb_layout_def by (auto dest: spec [where x = "Suc k"])
      moreover have "as ! k \<noteq> a" "bs ! k \<noteq> b" using L that by (auto simp: wb_layout_def)
      ultimately show ?thesis by (simp add: item_is_def)
    qed
    ultimately show ?thesis using L by (auto simp: wb_layout_def)
  qed
  moreover have "wb_state.more ?s' = wb_state.more s" by simp
  ultimately show ?thesis unfolding wb_rep_def by blast
qed

lemma free_rep:
  "wb_rep s q \<Longrightarrow> \<exists>s'. es_write_buffer_free s = Returns () s' \<and> wb_rep s' []
     \<and> wb_state.more s' = wb_state.more s"
proof (induction q arbitrary: s)
  case Nil
  then have "write_buffer_free_loop s = Some (Returns () s)"
    by (subst write_buffer_free_loop.simps) (simp add: wb_head_iff)
  with Nil show ?case by (simp add: es_write_buffer_free_def)
next
  case (Cons d q)
  from pop_rep [OF Cons.prems] obtain s1 where s1: "es_write_buffer_pop s = Returns () s1"
    "wb_rep s1 q" "wb_state.more s1 = wb_state.more s" by blast
  have "write_buffer_free_loop s = write_buffer_free_loop s1"
    using s1(1) wb_head_iff [OF Cons.prems] by (subst write_buffer_free_loop.simps) simp
  then have "es_write_buffer_free s = es_write_buffer_free s1" by (simp add: es_write_buffer_free_def)
  with Cons.IH [OF s1(2)] s1(3) show ?case by simp
qed


section \<open>The interface: a first-in first-out queue of byte strings\<close>

text \<open>
  What the event log writer and the worker rely on. \<open>rep s q\<close> relates a state to the list it
  stores; \<open>alloc\<close> is the allocator's answer to the calls of one \<open>enqueue\<close>.
\<close>

datatype queue_op = Enqueue "byte list" | Dequeue | Release

fun queue_step :: "queue_op \<Rightarrow> byte list list \<Rightarrow> byte list list" where
  "queue_step (Enqueue d) q = q @ [d]"
| "queue_step Dequeue q = tl q"
| "queue_step Release q = []"

fun queue_call ::
  "('s \<Rightarrow> 'e) \<Rightarrow> ('e \<Rightarrow> byte list \<Rightarrow> 's \<Rightarrow> (unit, 's) outcome) \<Rightarrow> ('s \<Rightarrow> (unit, 's) outcome) \<Rightarrow>
   ('s \<Rightarrow> (unit, 's) outcome) \<Rightarrow> queue_op \<Rightarrow> 's \<Rightarrow> (unit, 's) outcome" where
  "queue_call alloc enqueue dequeue release (Enqueue d) s = enqueue (alloc s) d s"
| "queue_call alloc enqueue dequeue release Dequeue s = dequeue s"
| "queue_call alloc enqueue dequeue release Release s = release s"

locale byte_fifo =
  fixes rep :: "'s \<Rightarrow> byte list list \<Rightarrow> bool"
    and alloc_ok :: "'e \<Rightarrow> 's \<Rightarrow> bool"
    and enqueue :: "'e \<Rightarrow> byte list \<Rightarrow> 's \<Rightarrow> (unit, 's) outcome"
    and dequeue :: "'s \<Rightarrow> (unit, 's) outcome"
    and release :: "'s \<Rightarrow> (unit, 's) outcome"
  assumes enqueue:
      "rep s q \<Longrightarrow> alloc_ok env s \<Longrightarrow> \<exists>s'. enqueue env d s = Returns () s' \<and> rep s' (q @ [d])"
    and dequeue: "rep s (d # q) \<Longrightarrow> \<exists>s'. dequeue s = Returns () s' \<and> rep s' q"
    and dequeue_empty: "rep s [] \<Longrightarrow> dequeue s = Returns () s"
    and release: "rep s q \<Longrightarrow> \<exists>s'. release s = Returns () s' \<and> rep s' []"
begin

lemma call_refines:
  assumes "rep s q" "alloc_ok (alloc s) s"
  shows "\<exists>s'. queue_call alloc enqueue dequeue release op s = Returns () s' \<and> rep s' (queue_step op q)"
proof (cases op)
  case (Enqueue d)
  with enqueue [OF assms] show ?thesis by simp
next
  case Dequeue
  with dequeue dequeue_empty assms(1) show ?thesis by (cases q) auto
next
  case Release
  with release [OF assms(1)] show ?thesis by simp
qed

lemma run_refines_queue:
  assumes "\<forall>s q. rep s q \<longrightarrow> alloc_ok (alloc s) s"
  shows "rep s q \<Longrightarrow>
     \<exists>rs s'. run_ops (queue_call alloc enqueue dequeue release) ops s = Returns rs s'
       \<and> rep s' (fold queue_step ops q)"
proof (induction ops arbitrary: s q)
  case (Cons op ops)
  from Cons.prems assms have "alloc_ok (alloc s) s" by blast
  from call_refines [where alloc = alloc and op = op, OF Cons.prems this] obtain s1 where
    "queue_call alloc enqueue dequeue release op s = Returns () s1" "rep s1 (queue_step op q)"
    by blast
  with Cons.IH [of s1 "queue_step op q"] show ?case by fastforce
qed simp

end

interpretation wb: byte_fifo wb_rep push_env_ok "es_write_buffer_push nd"
    es_write_buffer_pop es_write_buffer_free for nd
proof
  show "\<exists>s'. es_write_buffer_push nd env d s = Returns () s' \<and> wb_rep s' (q @ [d])"
    if "wb_rep s q" "push_env_ok env s" for s :: "'a wb_state_scheme" and q env d
    using push_rep [OF that] by blast
  show "\<exists>s'. es_write_buffer_pop s = Returns () s' \<and> wb_rep s' q"
    if "wb_rep s (d # q)" for s :: "'a wb_state_scheme" and d q
    using pop_rep [OF that] by blast
  show "\<exists>s'. es_write_buffer_free s = Returns () s' \<and> wb_rep s' []"
    if "wb_rep s q" for s :: "'a wb_state_scheme" and q
    using free_rep [OF that] by blast
qed (rule pop_rep_empty)

definition empty_wb :: wb_state where
  "empty_wb = \<lparr>wb_items = Map.empty, wb_blocks = Map.empty, wb_head = None, wb_last = None\<rparr>"

lemma empty_wb_rep [simp]: "wb_rep empty_wb []"
  by (simp add: wb_rep_def wb_layout_def empty_wb_def)

lemma wb_rep_Nil_heap: "wb_rep s [] \<Longrightarrow> wb_items s = Map.empty \<and> wb_blocks s = Map.empty"
  by (auto simp: wb_rep_def wb_layout_def)

text \<open>C10: the write buffer is a first-in first-out queue and is safe with memory. Any sequence of
  pushes, pops and frees, starting from the empty buffer and with an allocator that returns
  unused addresses, returns without touching memory that is not allocated, without freeing
  anything twice and without failing the assertion in \<open>push\<close>; it leaves the list that the
  same operations leave of a list, and when that list is empty no memory is allocated.\<close>

theorem write_buffer_is_a_queue:
  assumes "\<forall>(s :: wb_state) q. wb_rep s q \<longrightarrow> push_env_ok (alloc s) s"
  shows "\<exists>rs s'. run_ops (queue_call alloc (es_write_buffer_push nd) es_write_buffer_pop
           es_write_buffer_free) ops empty_wb = Returns rs s'
     \<and> wb_rep s' (fold queue_step ops [])
     \<and> (fold queue_step ops [] = [] \<longrightarrow> wb_items s' = Map.empty \<and> wb_blocks s' = Map.empty)"
  using wb.run_refines_queue [OF assms empty_wb_rep, of nd ops] wb_rep_Nil_heap by fastforce

text \<open>An allocator: the least address above all live ones.\<close>

definition demo_alloc :: "'a wb_state_scheme \<Rightarrow> push_env" where
  "demo_alloc s = \<lparr>pe_copy = Some (Max (insert 0 (dom (wb_blocks s))) + 1),
                   pe_item = Some (Max (insert 0 (dom (wb_items s))) + 1)\<rparr>"

lemma Max_fresh: "finite (dom m) \<Longrightarrow> m (Suc (Max (insert 0 (dom m)))) = None"
  by (metis Max_ge Suc_n_not_le_n domIff finite_insert insertCI)

lemma demo_alloc_ok: "\<forall>(s :: 'a wb_state_scheme) q. wb_rep s q \<longrightarrow> push_env_ok (demo_alloc s) s"
  by (auto simp: push_env_ok_def demo_alloc_def wb_rep_def wb_layout_def intro!: Max_fresh)

theorem write_buffer_is_a_queue_witness:
  "\<exists>rs s'. run_ops (queue_call demo_alloc (es_write_buffer_push False) es_write_buffer_pop
       es_write_buffer_free) [Enqueue [1, 2], Enqueue [3], Dequeue, Enqueue [4]] empty_wb = Returns rs s'
     \<and> wb_rep s' [[3], [4]]"
  using write_buffer_is_a_queue [OF demo_alloc_ok, of False
      "[Enqueue [1, 2], Enqueue [3], Dequeue, Enqueue [4]]"] by auto

section \<open>The head of the queue\<close>

text \<open>The bytes of an item as \<open>write\<close> reads them; \<open>None\<close>: they are not all allocated.\<close>

definition item_bytes :: "WriteBufferItem \<Rightarrow> 'a wb_state_scheme \<Rightarrow> byte list option" where
  "item_bytes item s =
     (case wb_blocks s (fst (wi_data item)) of
        None \<Rightarrow> None
      | Some block \<Rightarrow>
          if snd (wi_data item) + wi_size item \<le> length block
          then Some (take (wi_size item) (drop (snd (wi_data item)) block)) else None)"

lemma head_rep:
  assumes "wb_rep s (d # q)"
  obtains a item where "wb_head s = Some a" "wb_items s a = Some item"
    "item_bytes item s = Some d" "wi_size item = length d"
proof -
  from assms obtain a as b bs where L: "wb_layout s (a # as) (b # bs) (d # q)"
    by (auto simp: wb_rep_def wb_layout_def length_Suc_conv)
  then have "wb_head s = Some a" "item_is s a b d" by (auto simp: wb_layout_def)
  then show ?thesis using that by (auto simp: item_is_def item_bytes_def)
qed

text \<open>What the worker does to the head after a partial write.\<close>

definition item_advance :: "addr \<Rightarrow> WriteBufferItem \<Rightarrow> nat \<Rightarrow> 'a wb_state_scheme \<Rightarrow> 'a wb_state_scheme" where
  "item_advance a item n s =
     s\<lparr>wb_items := (wb_items s)(a \<mapsto>
         item\<lparr>wi_size := wi_size item - n, wi_data := (fst (wi_data item), snd (wi_data item) + n)\<rparr>)\<rparr>"

lemma wb_chain_update:
  "wb_chain items p as \<Longrightarrow> items a = Some item \<Longrightarrow> wi_next item' = wi_next item \<Longrightarrow>
     wb_chain (items(a \<mapsto> item')) p as"
  by (induction as arbitrary: p) (auto split: option.splits)

lemma item_advance_rep:
  assumes "wb_rep s (d # q)" "wb_head s = Some a" "wb_items s a = Some item" "n \<le> length d"
  shows "wb_rep (item_advance a item n s) (drop n d # q)"
proof -
  from assms(1,2) obtain as b bs where L: "wb_layout s (a # as) (b # bs) (d # q)"
    by (auto simp: wb_rep_def wb_layout_def length_Suc_conv)
  have others: "item_is (item_advance a item n s) (as ! i) (bs ! i) (q ! i)" if "i < length q" for i
  proof -
    from L that have "item_is s (as ! i) (bs ! i) (q ! i)"
      unfolding wb_layout_def by (auto dest: spec [where x = "Suc i"])
    moreover have "as ! i \<noteq> a" using L that by (auto simp: wb_layout_def)
    ultimately show ?thesis by (simp add: item_is_def item_advance_def)
  qed
  have "item_is s a b d" using L by (auto simp: wb_layout_def)
  then have head: "item_is (item_advance a item n s) a b (drop n d)"
    using assms(3,4) by (auto simp: item_is_def item_advance_def add.commute)
  have "wb_chain ((wb_items s)(a \<mapsto> item\<lparr>wi_size := wi_size item - n,
      wi_data := (fst (wi_data item), snd (wi_data item) + n)\<rparr>)) (wb_head s) (a # as)"
    using L assms(3) by (intro wb_chain_update [of _ _ _ a item]) (auto simp: wb_layout_def)
  moreover have "wb_head (item_advance a item n s) = wb_head s"
    "wb_last (item_advance a item n s) = wb_last s"
    "wb_blocks (item_advance a item n s) = wb_blocks s" by (simp_all add: item_advance_def)
  ultimately have "wb_layout (item_advance a item n s) (a # as) (b # bs) (drop n d # q)"
    unfolding wb_layout_def
  proof (intro conjI allI impI)
    show "item_is (item_advance a item n s) ((a # as) ! i) ((b # bs) ! i) ((drop n d # q) ! i)"
      if "i < length (drop n d # q)" for i
      using that head others by (cases i) auto
  qed (use L assms(3) in \<open>auto simp: wb_layout_def item_advance_def\<close>)
  then show ?thesis unfolding wb_rep_def by blast
qed


section \<open>The contents of the buffer as a function of the state\<close>

text \<open>The walk along the list; a well-formed list is no longer than the number of live items.\<close>

fun wb_walk :: "nat \<Rightarrow> 'a wb_state_scheme \<Rightarrow> addr option \<Rightarrow> byte list list" where
  "wb_walk 0 s p = []"
| "wb_walk (Suc n) s p =
     (case p of
        None \<Rightarrow> []
      | Some a \<Rightarrow>
          (case wb_items s a of
             None \<Rightarrow> []
           | Some item \<Rightarrow>
               (case item_bytes item s of
                  None \<Rightarrow> []
                | Some d \<Rightarrow> d # wb_walk n s (wi_next item))))"

definition wb_contents :: "'a wb_state_scheme \<Rightarrow> byte list list" where
  "wb_contents s = wb_walk (card (dom (wb_items s))) s (wb_head s)"

lemma wb_walk_chain:
  assumes "wb_chain (wb_items s) p as" "length as = length q" "length bs = length q"
    and "\<forall>i < length q. item_is s (as ! i) (bs ! i) (q ! i)"
  shows "wb_walk (length as) s p = q"
  using assms
proof (induction as arbitrary: p q bs)
  case (Cons a as)
  from Cons.prems obtain d q' b bs' where q: "q = d # q'" "bs = b # bs'"
    by (auto simp: length_Suc_conv dest!: sym [of "Suc _"])
  from Cons.prems(1) obtain item where item: "p = Some a" "wb_items s a = Some item"
    "wb_chain (wb_items s) (wi_next item) as" by (auto split: option.splits)
  have "item_is s a b d" using Cons.prems(4) q by (auto dest: spec [where x = 0])
  then have d: "item_bytes item s = Some d" using item(2) by (auto simp: item_is_def item_bytes_def)
  have "wb_walk (length as) s (wi_next item) = q'"
    using Cons.prems q by (intro Cons.IH [of _ q' bs'] item(3)) (auto dest: spec [where x = "Suc _"])
  with item d q show ?case by simp
qed simp

lemma wb_rep_contents: "wb_rep s q \<Longrightarrow> wb_contents s = q"
proof -
  assume "wb_rep s q"
  then obtain as bs where "wb_layout s as bs q" by (auto simp: wb_rep_def)
  then have L: "wb_chain (wb_items s) (wb_head s) as" "length as = length q" "length bs = length q"
    "\<forall>i < length q. item_is s (as ! i) (bs ! i) (q ! i)" "card (dom (wb_items s)) = length as"
    by (simp_all add: wb_layout_def distinct_card)
  from wb_walk_chain [OF L(1-4)] L(5) show ?thesis by (simp add: wb_contents_def)
qed


lemma wb_contents_cong:
  assumes "wb_items s = wb_items t" "wb_blocks s = wb_blocks t" "wb_head s = wb_head t"
  shows "wb_contents s = wb_contents t"
proof -
  have "wb_walk n s p = wb_walk n t p" for n p
    by (induction n arbitrary: p) (simp_all add: item_bytes_def assms split: option.splits)
  then show ?thesis by (simp add: wb_contents_def assms)
qed

end
