(* ===== verification/ES_Hooks.thy ===== *)
theory ES_Hooks
  imports ES_Status
begin

text \<open>
  The hook registry of \<open>hooks.c\<close>: the handlers of the two hooks, registered at the end of a
  linked list and called from its head. The lists only grow, so they are HOL lists. A hook is
  an \<open>int\<close>, because C accepts any value for an \<open>enum\<close>. \<open>hk_calls\<close> records the calls of the
  user's handlers (with their data) in order.
\<close>

section \<open>Operations\<close>

definition EVENTLOG_SOCKET_HOOK_POST_START_EVENT_LOGGING :: int where
  "EVENTLOG_SOCKET_HOOK_POST_START_EVENT_LOGGING = 0"
definition EVENTLOG_SOCKET_HOOK_PRE_END_EVENT_LOGGING :: int where
  "EVENTLOG_SOCKET_HOOK_PRE_END_EVENT_LOGGING = 1"

record EventlogSocketHookHandlerEntry =
  hook_handler :: "nat option"
  hook_data :: user_data

record hooks =
  on_connect_handlers :: "EventlogSocketHookHandlerEntry list"
  on_disconnect_handlers :: "EventlogSocketHookHandlerEntry list"
  hk_mutex :: bool
  hk_calls :: "(nat \<times> user_data) list"

record hook_env =
  he_lock :: int
  he_unlock :: int
  he_malloc :: malloc_result

definition hooks_lock :: "hook_env \<Rightarrow> hooks \<Rightarrow> (EventlogSocketStatus, hooks) outcome" where
  "hooks_lock env s =
     (if mutex_blocks (hk_mutex s) then Hangs
      else Returns (STATUS_FROM_PTHREAD (he_lock env))
             (s\<lparr>hk_mutex := mutex_after_lock (he_lock env)\<rparr>))"

definition hooks_unlock_ignored :: "hook_env \<Rightarrow> hooks \<Rightarrow> hooks" where
  "hooks_unlock_ignored env s = s\<lparr>hk_mutex := mutex_after_unlock (he_unlock env)\<rparr>"

definition hooks_unlock :: "hook_env \<Rightarrow> hooks \<Rightarrow> (EventlogSocketStatus, hooks) outcome" where
  "hooks_unlock env s =
     Returns (STATUS_FROM_PTHREAD (he_unlock env)) (hooks_unlock_ignored env s)"

text \<open>The \<open>switch\<close> of both functions: which list the hook selects, if any.\<close>

datatype hook_list = OnConnect | OnDisconnect

definition select_hook_list :: "int \<Rightarrow> hook_list option" where
  "select_hook_list hook =
     (if hook = EVENTLOG_SOCKET_HOOK_POST_START_EVENT_LOGGING then Some OnConnect
      else if hook = EVENTLOG_SOCKET_HOOK_PRE_END_EVENT_LOGGING then Some OnDisconnect
      else None)"

fun hook_entries :: "hook_list \<Rightarrow> hooks \<Rightarrow> EventlogSocketHookHandlerEntry list" where
  "hook_entries OnConnect s = on_connect_handlers s"
| "hook_entries OnDisconnect s = on_disconnect_handlers s"

fun append_hook_entry :: "hook_list \<Rightarrow> EventlogSocketHookHandlerEntry \<Rightarrow> hooks \<Rightarrow> hooks" where
  "append_hook_entry OnConnect e s = s\<lparr>on_connect_handlers := on_connect_handlers s @ [e]\<rparr>"
| "append_hook_entry OnDisconnect e s = s\<lparr>on_disconnect_handlers := on_disconnect_handlers s @ [e]\<rparr>"

definition es_hooks_register_hook ::
  "bool \<Rightarrow> hook_env \<Rightarrow> int \<Rightarrow> nat option \<Rightarrow> user_data \<Rightarrow> hooks \<Rightarrow> (EventlogSocketStatus, hooks) outcome"
where
  "es_hooks_register_hook ndebug env hook handler data s =
     (if handler = None then Returns (STATUS_FROM_ERRNO EINVAL) s
      else RETURN_ON_ERROR (hooks_lock env s) (\<lambda>st. st) (\<lambda>s.
        (case select_hook_list hook of
           None \<Rightarrow> Returns (STATUS_FROM_ERRNO EINVAL) s
         | Some l \<Rightarrow>
             (case he_malloc env of
                MallocFails errno \<Rightarrow>
                  RETURN_ON_ERROR_CLEANUP (Returns (STATUS_FROM_ERRNO errno) s) (\<lambda>st. st)
                    (hooks_unlock_ignored env) (\<lambda>s. c_assert ndebug False Crashes)
              | MallocOk contents \<Rightarrow>
                  (let s = append_hook_entry l \<lparr>hook_handler = handler, hook_data = data\<rparr> s
                   in RETURN_ON_ERROR (hooks_unlock env s) (\<lambda>st. st) (Returns STATUS_OK))))))"

text \<open>The loop that calls the handlers.\<close>

fun call_hook_handlers :: "EventlogSocketHookHandlerEntry list \<Rightarrow> hooks \<Rightarrow> hooks" where
  "call_hook_handlers [] s = s"
| "call_hook_handlers (e # es) s =
     call_hook_handlers es
       (case hook_handler e of
          None \<Rightarrow> s
        | Some h \<Rightarrow> s\<lparr>hk_calls := hk_calls s @ [(h, hook_data e)]\<rparr>)"

definition es_hooks_handle_hook ::
  "hook_env \<Rightarrow> int \<Rightarrow> hooks \<Rightarrow> (EventlogSocketStatus, hooks) outcome" where
  "es_hooks_handle_hook env hook s =
     RETURN_ON_ERROR (hooks_lock env s) (\<lambda>st. st) (\<lambda>s.
       (case select_hook_list hook of
          None \<Rightarrow> Returns (STATUS_FROM_ERRNO EINVAL) s
        | Some l \<Rightarrow>
            (let s = call_hook_handlers (hook_entries l s) s
             in RETURN_ON_ERROR (hooks_unlock env s) (\<lambda>st. st) (Returns STATUS_OK))))"

definition initial_hooks :: hooks where
  "initial_hooks = \<lparr>on_connect_handlers = [], on_disconnect_handlers = [], hk_mutex = False,
                    hk_calls = []\<rparr>"

section \<open>Results\<close>

definition hook_env_ok :: "hook_env \<Rightarrow> bool" where
  "hook_env_ok env \<longleftrightarrow> he_lock env = 0 \<and> he_unlock env = 0 \<and> (\<exists>c. he_malloc env = MallocOk c)"

lemma hooks_lock_simps [simp]:
  "hk_mutex s \<Longrightarrow> hooks_lock env s = Hangs"
  "\<not> hk_mutex s \<Longrightarrow> hooks_lock env s = Returns (STATUS_FROM_PTHREAD (he_lock env))
     (s\<lparr>hk_mutex := (he_lock env = 0)\<rparr>)"
  by (simp_all add: hooks_lock_def mutex_blocks_def mutex_after_lock_def)

lemma hooks_unlock_simps [simp]:
  "hooks_unlock_ignored env s = s\<lparr>hk_mutex := (he_unlock env \<noteq> 0)\<rparr>"
  "hooks_unlock env s = Returns (STATUS_FROM_PTHREAD (he_unlock env)) (s\<lparr>hk_mutex := (he_unlock env \<noteq> 0)\<rparr>)"
  by (simp_all add: hooks_unlock_def hooks_unlock_ignored_def mutex_after_unlock_def)

definition handler_calls :: "EventlogSocketHookHandlerEntry list \<Rightarrow> (nat \<times> user_data) list" where
  "handler_calls es = [(h, hook_data e). e \<leftarrow> es, h \<leftarrow> (case hook_handler e of None \<Rightarrow> [] | Some h \<Rightarrow> [h])]"

lemma call_hook_handlers_eq:
  "call_hook_handlers es s = s\<lparr>hk_calls := hk_calls s @ handler_calls es\<rparr>"
  by (induction es arbitrary: s) (auto simp: handler_calls_def split: option.splits)

lemma hook_entries_simps [simp]:
  "hook_entries l (s\<lparr>hk_mutex := b\<rparr>) = hook_entries l s"
  "hook_entries l (s\<lparr>hk_calls := c\<rparr>) = hook_entries l s"
  "hook_entries l' (append_hook_entry l e s) = hook_entries l' s @ (if l = l' then [e] else [])"
  "hk_mutex (append_hook_entry l e s) = hk_mutex s"
  "hk_calls (append_hook_entry l e s) = hk_calls s"
  by (cases l; cases l'; simp)+

lemma register_hook_ok:
  assumes "\<not> hk_mutex s" "hook_env_ok env" "select_hook_list hook = Some l"
  shows "es_hooks_register_hook nd env hook (Some h) d s =
     Returns STATUS_OK (append_hook_entry l \<lparr>hook_handler = Some h, hook_data = d\<rparr> s)"
  using assms by (cases l) (auto simp: es_hooks_register_hook_def hook_env_ok_def Let_def)

lemma handle_hook_ok:
  assumes "\<not> hk_mutex s" "hook_env_ok env" "select_hook_list hook = Some l"
  shows "es_hooks_handle_hook env hook s =
     Returns STATUS_OK (s\<lparr>hk_calls := hk_calls s @ handler_calls (hook_entries l s)\<rparr>)"
  using assms by (auto simp: es_hooks_handle_hook_def hook_env_ok_def call_hook_handlers_eq Let_def)

datatype hook_op =
    OpRegisterHook hook_env int "nat option" user_data
  | OpHandleHook hook_env int

fun hook_step :: "bool \<Rightarrow> hook_op \<Rightarrow> hooks \<Rightarrow> (EventlogSocketStatus, hooks) outcome" where
  "hook_step nd (OpRegisterHook env hook h d) s = es_hooks_register_hook nd env hook h d s"
| "hook_step nd (OpHandleHook env hook) s = es_hooks_handle_hook env hook s"

fun hook_op_ok :: "hook_op \<Rightarrow> bool" where
  "hook_op_ok (OpRegisterHook env hook h d) \<longleftrightarrow>
     hook_env_ok env \<and> select_hook_list hook \<noteq> None \<and> h \<noteq> None"
| "hook_op_ok (OpHandleHook env hook) \<longleftrightarrow> hook_env_ok env \<and> select_hook_list hook \<noteq> None"

text \<open>The specification: two lists of handlers with data, and the calls made so far.\<close>

type_synonym hooks_abs = "(hook_list \<Rightarrow> (nat \<times> user_data) list) \<times> (nat \<times> user_data) list"

definition hooks_abs :: "hooks \<Rightarrow> hooks_abs" where
  "hooks_abs s = ((\<lambda>l. handler_calls (hook_entries l s)), hk_calls s)"

fun hook_astep :: "hook_op \<Rightarrow> hooks_abs \<Rightarrow> hooks_abs option" where
  "hook_astep (OpRegisterHook env hook h d) (hs, calls) =
     (case (select_hook_list hook, h) of
        (Some l, Some h) \<Rightarrow> Some (hs(l := hs l @ [(h, d)]), calls)
      | _ \<Rightarrow> None)"
| "hook_astep (OpHandleHook env hook) (hs, calls) =
     (case select_hook_list hook of Some l \<Rightarrow> Some (hs, calls @ hs l) | None \<Rightarrow> None)"

lemma handler_calls_append [simp]:
  "handler_calls (es @ fs) = handler_calls es @ handler_calls fs"
  "handler_calls [] = []"
  "handler_calls [\<lparr>hook_handler = Some h, hook_data = d\<rparr>] = [(h, d)]"
  by (simp_all add: handler_calls_def)

interpretation hooks: refining_ops "\<lambda>s. \<not> hk_mutex s" "hook_step nd" hook_op_ok
    "\<lambda>status. status = STATUS_OK" hooks_abs hook_astep
  for nd
proof
  fix s :: hooks and op
  assume s: "\<not> hk_mutex s" "hook_op_ok op"
  show "\<exists>r t. hook_step nd op s = Returns r t \<and> r = STATUS_OK \<and> \<not> hk_mutex t"
    using s by (cases op) (auto simp: register_hook_ok handle_hook_ok)
  show "hooks_abs t = a"
    if "hook_step nd op s = Returns r t" "hook_astep op (hooks_abs s) = Some a" for r t a
    using s that
    by (cases op) (auto simp: register_hook_ok handle_hook_ok hooks_abs_def fun_eq_iff)
qed

text \<open>C21: hooks are called in the order of registration, each with its own data, every time and only
  when the hook is triggered. Any sequence of registrations and triggers of the two hooks
  returns \<open>STATUS_OK\<close> at every step and makes the calls that the specification with two
  lists makes.\<close>

theorem hooks_run_in_registration_order:
  assumes "\<not> hk_mutex s" "list_all hook_op_ok ops"
    and "run_abstract hook_astep ops (hooks_abs s) = Some (hs, calls)"
  shows "\<exists>rs s'. run_ops (hook_step nd) ops s = Returns rs s'
     \<and> list_all (\<lambda>status. status = STATUS_OK) rs \<and> \<not> hk_mutex s' \<and> hk_calls s' = calls"
  using hooks.run_refines [OF assms, of nd] by (auto simp: hooks_abs_def)

definition demo_hook_env :: hook_env where
  "demo_hook_env = \<lparr>he_lock = 0, he_unlock = 0, he_malloc = MallocOk (\<lambda>_. 0)\<rparr>"

lemma demo_hook_env_ok [simp]: "hook_env_ok demo_hook_env"
  by (simp add: hook_env_ok_def demo_hook_env_def)

lemma hooks_abs_initial: "hooks_abs initial_hooks = ((\<lambda>l. []), [])"
proof -
  have "hook_entries l initial_hooks = []" for l by (cases l) (simp_all add: initial_hooks_def)
  then show ?thesis by (simp add: hooks_abs_def) (simp add: initial_hooks_def)
qed

theorem hooks_run_in_registration_order_witness:
  "\<exists>rs s'. run_ops (hook_step True)
      [OpRegisterHook demo_hook_env 0 (Some 1) 10, OpRegisterHook demo_hook_env 1 (Some 2) 20,
       OpRegisterHook demo_hook_env 0 (Some 3) 30, OpHandleHook demo_hook_env 0]
      initial_hooks = Returns rs s' \<and> hk_calls s' = [(1, 10), (3, 30)]"
proof -
  let ?ops = "[OpRegisterHook demo_hook_env 0 (Some 1) 10, OpRegisterHook demo_hook_env 1 (Some 2) 20,
       OpRegisterHook demo_hook_env 0 (Some 3) 30, OpHandleHook demo_hook_env 0]"
  have sel: "select_hook_list 0 = Some OnConnect" "select_hook_list 1 = Some OnDisconnect"
    by (simp_all add: select_hook_list_def EVENTLOG_SOCKET_HOOK_POST_START_EVENT_LOGGING_def
        EVENTLOG_SOCKET_HOOK_PRE_END_EVENT_LOGGING_def)
  have "run_abstract hook_astep ?ops (hooks_abs initial_hooks) =
      Some ((\<lambda>l. [])(OnConnect := [(1, 10), (3, 30)], OnDisconnect := [(2, 20)]), [(1, 10), (3, 30)])"
    by (simp add: sel hooks_abs_initial fun_upd_twist)
  from hooks_run_in_registration_order [OF _ _ this, of True] show ?thesis
    by (auto simp: sel initial_hooks_def simp del: run_ops.simps)
qed

text \<open>Registering a handler for a hook that does not exist returns \<open>EINVAL\<close> but leaves the
  registry's mutex locked: every later registration and every later trigger of any hook
  blocks for ever (and with it the worker thread at the next connection).\<close>

theorem invalid_hook_blocks_all_hooks:
  assumes "\<not> hk_mutex s" "he_lock env = 0" "select_hook_list hook = None"
  shows "\<exists>s'. es_hooks_register_hook nd env hook (Some h) d s = Returns (STATUS_FROM_ERRNO EINVAL) s'
     \<and> (\<forall>env' hook' h' d'. es_hooks_register_hook nd env' hook' (Some h') d' s' = Hangs
          \<and> es_hooks_handle_hook env' hook' s' = Hangs)"
  using assms by (simp add: es_hooks_register_hook_def es_hooks_handle_hook_def)

theorem invalid_hook_blocks_all_hooks_witness:
  "\<exists>s'. es_hooks_register_hook True demo_hook_env 2 (Some 1) 0 initial_hooks =
       Returns (STATUS_FROM_ERRNO EINVAL) s'
     \<and> es_hooks_handle_hook demo_hook_env 0 s' = Hangs"
  using invalid_hook_blocks_all_hooks [of initial_hooks demo_hook_env 2 True 1 0]
  by (auto simp: initial_hooks_def demo_hook_env_def select_hook_list_def
      EVENTLOG_SOCKET_HOOK_POST_START_EVENT_LOGGING_def
      EVENTLOG_SOCKET_HOOK_PRE_END_EVENT_LOGGING_def)

end
