(* ===== verification/ES_Writer.thy ===== *)
theory ES_Writer
  imports ES_WriteBuffer ES_Hooks
begin

unbundle bit_operations_syntax

text \<open>
  The event log writer of \<open>eventlog_socket.c\<close> (the functions the GHC RTS calls) and the state
  it shares with the worker thread: the write buffer, \<open>g_client_fd\<close>, \<open>g_init_state\<close>,
  \<open>g_mutex\<close> and the worker's wake pipe.

  \<open>es_sent fd\<close> is the list of bytes the kernel has accepted on \<open>fd\<close>, and \<open>es_closed\<close> the
  descriptors the program has closed; \<open>es_trace\<close> lists the calls into the RTS, the hooks
  triggered and the conditions signalled, and \<open>es_calls\<close> the system calls that set up the socket
  and the threads. They record what the environment has seen. \<open>es_worker_thread\<close> and
  \<open>es_control_thread\<close> are the addresses of the two \<open>pthread_t\<close> objects.
\<close>

section \<open>The shared state\<close>

definition EVENTLOG_SOCKET_SIG_INITIALIZED :: byte where
  "EVENTLOG_SOCKET_SIG_INITIALIZED = 1"
definition EVENTLOG_SOCKET_SIG_ATTACHED :: byte where
  "EVENTLOG_SOCKET_SIG_ATTACHED = 2"
definition EVENTLOG_SOCKET_SIG_RTS_READY :: byte where
  "EVENTLOG_SOCKET_SIG_RTS_READY = 4"
definition EVENTLOG_SOCKET_SIG_HAD_FIRST_CONNECTION :: byte where
  "EVENTLOG_SOCKET_SIG_HAD_FIRST_CONNECTION = 8"

lemmas sig_defs =
  EVENTLOG_SOCKET_SIG_INITIALIZED_def EVENTLOG_SOCKET_SIG_ATTACHED_def
  EVENTLOG_SOCKET_SIG_RTS_READY_def EVENTLOG_SOCKET_SIG_HAD_FIRST_CONNECTION_def

datatype es_event =
    EvEndEventLogging
  | EvStartEventLogging bool
  | EvPublish int
  | EvSignalNewConnection
  | EvSignalRtsReady
  | EvHook int
  | EvFirstConnection

text \<open>The system calls that set up and tear down the socket and the threads, when they succeed.\<close>

datatype sockopt = SO_RCVLOWAT int | SO_SNDBUF int | SO_LINGER int | SO_REUSEADDR int

datatype sock_address = SockUnix "byte list" | SockInet nat

datatype sys_call =
    SysSocket int
  | SysSetsockopt int sockopt
  | SysUnlink "byte list"
  | SysBind int sock_address
  | SysClose int
  | SysPipe int int
  | SysSetNonblock int
  | SysAtexitWorkerCleanup
  | SysAtexitControlCleanup
  | SysCreateWorker
  | SysCreateControl
  | SysDetachControl
  | SysCancelWorker
  | SysCancelControl
  | SysJoinWorker

record es_state = wb_state +
  es_client_fd :: int
  es_init_state :: byte
  es_mutex :: bool
  es_wake_pipe :: "int \<times> int"
  es_worker_status :: EventlogSocketStatus
  es_hooks :: hooks
  es_sent :: "int \<Rightarrow> byte list"
  es_closed :: "int list"
  es_listen_fd :: int
  es_sock_path :: "byte list option"
  es_trace :: "es_event list"
  es_worker_thread :: "nat option"
  es_control_thread :: "nat option"
  es_calls :: "sys_call list"

definition initial_es :: es_state where
  "initial_es =
     \<lparr>wb_items = Map.empty, wb_blocks = Map.empty, wb_head = None, wb_last = None,
      es_client_fd = -1, es_init_state = 0, es_mutex = False, es_wake_pipe = (-1, -1),
      es_worker_status = STATUS_OK, es_hooks = initial_hooks,
      es_sent = (\<lambda>_. []), es_closed = [], es_listen_fd = -1, es_sock_path = None,
      es_trace = [], es_worker_thread = None, es_control_thread = None, es_calls = []\<rparr>"

definition has_sig :: "byte \<Rightarrow> byte \<Rightarrow> bool" where
  "has_sig sig init_state = (init_state AND sig \<noteq> 0)"

text \<open>\<open>pthread_mutex_lock(&g_mutex)\<close> and \<open>pthread_mutex_unlock(&g_mutex)\<close>.\<close>

definition g_lock :: "int \<Rightarrow> es_state \<Rightarrow> (int, es_state) outcome" where
  "g_lock rc s =
     (if mutex_blocks (es_mutex s) then Hangs
      else Returns rc (s\<lparr>es_mutex := mutex_after_lock rc\<rparr>))"

definition g_unlock :: "int \<Rightarrow> es_state \<Rightarrow> es_state" where
  "g_unlock rc s = s\<lparr>es_mutex := mutex_after_unlock rc\<rparr>"

text \<open>The result of \<open>write\<close> or \<open>read\<close>, and the effect of a \<open>write\<close>.\<close>

datatype io_result = IoBytes nat | IoError int

definition sys_write :: "int \<Rightarrow> byte list \<Rightarrow> io_result \<Rightarrow> es_state \<Rightarrow> es_state" where
  "sys_write fd data res s =
     (case res of
        IoBytes n \<Rightarrow> s\<lparr>es_sent := (es_sent s)(fd := es_sent s fd @ take n data)\<rparr>
      | IoError errno \<Rightarrow> s)"

text \<open>What the system answers to the calls of one operation of the writer.\<close>

record write_env =
  we_lock :: int
  we_unlock :: int
  we_alloc :: "es_state \<Rightarrow> push_env"
  we_write :: io_result
  we_wake :: io_result

section \<open>Operations\<close>

text \<open>
  \<open>es_worker_wake\<close> of \<open>worker.c\<close>. Its \<open>EXIT_ON_ERROR\<close> ends the thread that calls it.
\<close>

definition es_worker_wake :: "io_result \<Rightarrow> es_state \<Rightarrow> (unit, es_state) outcome" where
  "es_worker_wake res s =
     (if snd (es_wake_pipe s) = -1 then Returns () s
      else
        (case res of
           IoError errno \<Rightarrow>
             if errno \<noteq> EAGAIN \<and> errno \<noteq> EWOULDBLOCK
             then EXIT_ON_ERROR (Returns (STATUS_FROM_ERRNO errno) s)
                    (\<lambda>st s. s\<lparr>es_worker_status := st\<rparr>) (Returns ())
             else Returns () s
         | IoBytes n \<Rightarrow> Returns () s))"

definition writer_init :: "write_env \<Rightarrow> es_state \<Rightarrow> (unit, es_state) outcome" where
  "writer_init env s =
     call_bind (g_lock (we_lock env) s) (\<lambda>_ s.
       (let s = s\<lparr>es_init_state := es_init_state s OR EVENTLOG_SOCKET_SIG_ATTACHED\<rparr>
        in Returns () (g_unlock (we_unlock env) s)))"

definition writer_enqueue ::
  "bool \<Rightarrow> write_env \<Rightarrow> byte list \<Rightarrow> es_state \<Rightarrow> (unit, es_state) outcome" where
  "writer_enqueue ndebug env data s =
     (let was_empty = (wb_head s = None)
      in call_bind (es_write_buffer_push ndebug (we_alloc env s) data s) (\<lambda>_ s.
           if was_empty then es_worker_wake (we_wake env) s else Returns () s))"

definition writer_write ::
  "bool \<Rightarrow> write_env \<Rightarrow> byte list \<Rightarrow> es_state \<Rightarrow> (bool, es_state) outcome" where
  "writer_write ndebug env eventlog s =
     call_bind (g_lock (we_lock env) s) (\<lambda>_ s.
       (let size = length eventlog;
            exit = (\<lambda>s. Returns True (g_unlock (we_unlock env) s));
            is_empty = (wb_head s = None);
            is_connected = (es_client_fd s \<ge> 0);
            had_first_connection = has_sig EVENTLOG_SOCKET_SIG_HAD_FIRST_CONNECTION (es_init_state s)
        in if \<not> is_empty then call_bind (writer_enqueue ndebug env eventlog s) (\<lambda>_. exit)
           else if \<not> is_connected then
             (if \<not> had_first_connection
              then call_bind (writer_enqueue ndebug env eventlog s) (\<lambda>_. exit)
              else exit s)
           else
             (let s = sys_write (es_client_fd s) eventlog (we_write env) s
              in case we_write env of
                   IoBytes num_bytes_written \<Rightarrow>
                     if num_bytes_written \<ge> size then exit s
                     else call_bind
                            (writer_enqueue ndebug env (drop num_bytes_written eventlog) s)
                            (\<lambda>_. exit)
                 | IoError errno \<Rightarrow>
                     if errno = EAGAIN \<or> errno = EWOULDBLOCK
                     then call_bind (writer_enqueue ndebug env eventlog s) (\<lambda>_. exit)
                     else exit s)))"

definition writer_flush :: "es_state \<Rightarrow> (unit, es_state) outcome" where
  "writer_flush s = Returns () s"

definition writer_stop :: "write_env \<Rightarrow> es_state \<Rightarrow> (unit, es_state) outcome" where
  "writer_stop env s =
     call_bind (g_lock (we_lock env) s) (\<lambda>_ s.
       (let s = s\<lparr>es_init_state := es_init_state s AND NOT EVENTLOG_SOCKET_SIG_ATTACHED\<rparr>
        in if es_client_fd s \<ge> 0 then
             (let s = s\<lparr>es_closed := es_closed s @ [es_client_fd s], es_client_fd := -1\<rparr>
              in call_bind (es_write_buffer_free s) (\<lambda>_ s. Returns () (g_unlock (we_unlock env) s)))
           else Returns () (g_unlock (we_unlock env) s)))"


section \<open>Results\<close>

text \<open>The state is usable: the mutex is free and the buffer represents a list.\<close>

definition es_ready :: "es_state \<Rightarrow> bool" where
  "es_ready s \<longleftrightarrow> \<not> es_mutex s \<and> wb_rep s (wb_contents s)"

text \<open>
  The documented behaviour of the system: locks succeed, \<open>malloc\<close> returns unused memory,
  and waking the worker at worst finds its pipe full.
\<close>

definition write_env_ok :: "write_env \<Rightarrow> bool" where
  "write_env_ok env \<longleftrightarrow>
     we_lock env = 0 \<and> we_unlock env = 0 \<and>
     (\<forall>s q. wb_rep s q \<longrightarrow> push_env_ok (we_alloc env s) s) \<and>
     (case we_wake env of IoBytes n \<Rightarrow> True | IoError errno \<Rightarrow> errno = EAGAIN)"

lemma es_ready_rep: "\<not> es_mutex s \<Longrightarrow> wb_rep s q \<Longrightarrow> es_ready s \<and> wb_contents s = q"
  by (simp add: es_ready_def wb_rep_contents)

lemma g_lock_ready [simp]: "\<not> es_mutex s \<Longrightarrow> g_lock 0 s = Returns 0 (s\<lparr>es_mutex := True\<rparr>)"
  "es_mutex s \<Longrightarrow> g_lock rc s = Hangs"
  by (simp_all add: g_lock_def mutex_blocks_def)

lemma g_unlock_0 [simp]: "g_unlock 0 s = s\<lparr>es_mutex := False\<rparr>"
  by (simp add: g_unlock_def)

text \<open>Two states with the same fields outside the write buffer.\<close>

definition same_es :: "es_state \<Rightarrow> es_state \<Rightarrow> bool" where
  "same_es s t \<longleftrightarrow> wb_state.more s = wb_state.more t"

lemma same_esD:
  assumes "same_es s t"
  shows "es_client_fd s = es_client_fd t" "es_init_state s = es_init_state t"
    "es_mutex s = es_mutex t" "es_wake_pipe s = es_wake_pipe t"
    "es_worker_status s = es_worker_status t" "es_hooks s = es_hooks t"
    "es_sent s = es_sent t" "es_closed s = es_closed t"
    "es_listen_fd s = es_listen_fd t" "es_sock_path s = es_sock_path t" "es_trace s = es_trace t"
  using assms by (cases s; cases t; simp add: same_es_def)+

lemma wb_rep_es_fields [simp]:
  "wb_rep (s\<lparr>es_client_fd := fd\<rparr>) q = wb_rep s q"
  "wb_rep (s\<lparr>es_init_state := i\<rparr>) q = wb_rep s q"
  "wb_rep (s\<lparr>es_mutex := m\<rparr>) q = wb_rep s q"
  "wb_rep (s\<lparr>es_worker_status := st\<rparr>) q = wb_rep s q"
  "wb_rep (s\<lparr>es_hooks := h\<rparr>) q = wb_rep s q"
  "wb_rep (s\<lparr>es_sent := snt\<rparr>) q = wb_rep s q"
  "wb_rep (s\<lparr>es_closed := cl\<rparr>) q = wb_rep s q"
  "wb_rep (s\<lparr>es_trace := tr\<rparr>) q = wb_rep s q"
  by (simp_all add: wb_rep_def wb_layout_def item_is_def)

lemma wb_contents_es_fields [simp]:
  "wb_contents (s\<lparr>es_client_fd := fd\<rparr>) = wb_contents s"
  "wb_contents (s\<lparr>es_init_state := i\<rparr>) = wb_contents s"
  "wb_contents (s\<lparr>es_mutex := m\<rparr>) = wb_contents s"
  "wb_contents (s\<lparr>es_worker_status := st\<rparr>) = wb_contents s"
  "wb_contents (s\<lparr>es_hooks := h\<rparr>) = wb_contents s"
  "wb_contents (s\<lparr>es_sent := snt\<rparr>) = wb_contents s"
  "wb_contents (s\<lparr>es_closed := cl\<rparr>) = wb_contents s"
  "wb_contents (s\<lparr>es_trace := tr\<rparr>) = wb_contents s"
  by (rule wb_contents_cong; simp)+

lemma worker_wake_ok:
  "write_env_ok env \<Longrightarrow> es_worker_wake (we_wake env) s = Returns () s"
  by (auto simp: write_env_ok_def es_worker_wake_def split: io_result.splits)

lemma enqueue_ok:
  assumes "write_env_ok env" "wb_rep s q"
  obtains s' where "writer_enqueue nd env d s = Returns () s'" "wb_rep s' (q @ [d])" "same_es s' s"
proof -
  from assms have "push_env_ok (we_alloc env s) s" unfolding write_env_ok_def by blast
  from push_rep [OF assms(2) this, of nd d] obtain s' where
    s': "es_write_buffer_push nd (we_alloc env s) d s = Returns () s'" "wb_rep s' (q @ [d])"
    "same_es s' s" by (auto simp: same_es_def)
  then have "writer_enqueue nd env d s = Returns () s'"
    by (simp add: writer_enqueue_def worker_wake_ok [OF assms(1)])
  with s' that show thesis by blast
qed

text \<open>
  The specification of one \<open>writer_write\<close>, on the bytes sent and the list of waiting blocks.
\<close>

definition write_spec ::
  "int \<Rightarrow> bool \<Rightarrow> io_result \<Rightarrow> byte list \<Rightarrow> (int \<Rightarrow> byte list) \<times> byte list list \<Rightarrow>
   (int \<Rightarrow> byte list) \<times> byte list list" where
  "write_spec fd had_first res d = (\<lambda>(sent, q).
     if q \<noteq> [] \<or> fd < 0 \<and> \<not> had_first then (sent, q @ [d])
     else if fd < 0 then (sent, [])
     else (case res of
             IoBytes n \<Rightarrow> (sent(fd := sent fd @ take n d), if n \<ge> length d then [] else [drop n d])
           | IoError errno \<Rightarrow> (sent, if errno = EAGAIN then [d] else [])))"

lemma EWOULDBLOCK_is_EAGAIN: "EWOULDBLOCK = EAGAIN"
  by (simp add: EWOULDBLOCK_def EAGAIN_def)

lemma writer_write_ok:
  assumes env: "write_env_ok env" and rep: "wb_rep s q" "\<not> es_mutex s"
  shows "\<exists>s' q'. writer_write nd env d s = Returns True s' \<and> wb_rep s' q' \<and> \<not> es_mutex s'
     \<and> es_client_fd s' = es_client_fd s \<and> es_init_state s' = es_init_state s
     \<and> es_hooks s' = es_hooks s \<and> es_trace s' = es_trace s \<and> es_closed s' = es_closed s
     \<and> (es_sent s', q') = write_spec (es_client_fd s)
          (has_sig EVENTLOG_SOCKET_SIG_HAD_FIRST_CONNECTION (es_init_state s)) (we_write env) d
          (es_sent s, q)"
proof -
  have e: "we_lock env = 0" "we_unlock env = 0" using env by (simp_all add: write_env_ok_def)
  let ?s1 = "s\<lparr>es_mutex := True\<rparr>"
  have head: "wb_head s = None \<longleftrightarrow> q = []" using rep(1) by (rule wb_head_iff)
  show ?thesis
  proof (cases "q \<noteq> [] \<or> es_client_fd s < 0 \<and>
      \<not> has_sig EVENTLOG_SOCKET_SIG_HAD_FIRST_CONNECTION (es_init_state s)")
    case True
    obtain s' where s': "writer_enqueue nd env d ?s1 = Returns () s'" "wb_rep s' (q @ [d])"
      "same_es s' ?s1" using enqueue_ok [OF env, of ?s1 q nd d] rep(1) by auto
    with True e rep(2) head same_esD [OF s'(3)] show ?thesis
      by (auto simp: writer_write_def write_spec_def Let_def intro!: exI [of _ "q @ [d]"])
  next
    case False
    show ?thesis
    proof (cases "es_client_fd s < 0")
      case True
      with False e rep head show ?thesis
        by (auto simp: writer_write_def write_spec_def Let_def intro!: exI [of _ "[]"])
    next
      case connected: False
      let ?s2 = "sys_write (es_client_fd s) d (we_write env) ?s1"
      have rep2: "wb_rep ?s2 []" using rep(1) False
        by (simp add: sys_write_def split: io_result.splits)
      obtain s' where s': "writer_enqueue nd env d ?s2 = Returns () s'" "wb_rep s' [d]" "same_es s' ?s2"
        using enqueue_ok [OF env rep2, of nd d] by auto
      note f = same_esD [OF s'(3)]
      show ?thesis
      proof (cases "we_write env")
        case (IoError errno)
        with False connected e rep head s' f show ?thesis
          by (auto simp: writer_write_def write_spec_def Let_def sys_write_def EWOULDBLOCK_is_EAGAIN
              intro!: exI [of _ "if errno = EAGAIN then [d] else []"])
      next
        case (IoBytes n)
        obtain t where t: "writer_enqueue nd env (drop n d) ?s2 = Returns () t" "wb_rep t [drop n d]"
          "same_es t ?s2" using enqueue_ok [OF env rep2, of nd "drop n d"] by auto
        with False connected e rep head same_esD [OF t(3)] IoBytes show ?thesis
          by (auto simp: writer_write_def write_spec_def Let_def sys_write_def
              intro!: exI [of _ "if n \<ge> length d then [] else [drop n d]"])
      qed
    qed
  qed
qed

end
