(* ===== verification/ES_Worker.thy ===== *)
theory ES_Worker
  imports ES_Writer
begin

text \<open>
  The worker thread of \<open>worker.c\<close>: its step functions and their loops. A step is a function
  of the shared state and of the system's answers. The GHC RTS is a client of the program: it
  changes the shared state only through the four functions of \<open>EventLogSocketWriter\<close>, so
  \<open>endEventLogging\<close> and \<open>startEventLogging\<close> are lists of calls of these functions, which
  are parameters of the step.
\<close>

section \<open>Answers of the system\<close>

record revents =
  rv_POLLIN :: bool
  rv_POLLOUT :: bool
  rv_POLLHUP :: bool
  rv_POLLRDHUP :: bool
  rv_POLLERR :: bool
  rv_POLLNVAL :: bool

definition no_revents :: revents where
  "no_revents = \<lparr>rv_POLLIN = False, rv_POLLOUT = False, rv_POLLHUP = False,
                 rv_POLLRDHUP = False, rv_POLLERR = False, rv_POLLNVAL = False\<rparr>"

datatype poll_result = PollError int | PollTimeout | PollReady revents revents

datatype accept_result = Accepted int | AcceptError int

datatype rts_status = EVENTLOG_NOT_SUPPORTED | EVENTLOG_NOT_CONFIGURED | EVENTLOG_RUNNING

section \<open>The RTS as a client of the writer\<close>

datatype writer_op =
    WriterInit write_env
  | WriterWrite write_env "byte list"
  | WriterFlush
  | WriterStop write_env

fun writer_step :: "bool \<Rightarrow> writer_op \<Rightarrow> es_state \<Rightarrow> (bool, es_state) outcome" where
  "writer_step nd (WriterInit env) s = call_bind (writer_init env s) (\<lambda>_. Returns True)"
| "writer_step nd (WriterWrite env d) s = writer_write nd env d s"
| "writer_step nd WriterFlush s = call_bind (writer_flush s) (\<lambda>_. Returns True)"
| "writer_step nd (WriterStop env) s = call_bind (writer_stop env s) (\<lambda>_. Returns True)"

definition rts_calls :: "bool \<Rightarrow> writer_op list \<Rightarrow> es_state \<Rightarrow> (unit, es_state) outcome" where
  "rts_calls nd ops s = call_bind (run_ops (writer_step nd) ops s) (\<lambda>_. Returns ())"

definition trace_event :: "es_event \<Rightarrow> es_state \<Rightarrow> es_state" where
  "trace_event e s = s\<lparr>es_trace := es_trace s @ [e]\<rparr>"

section \<open>Status, waking and draining\<close>

definition es_worker_status_read :: "es_state \<Rightarrow> EventlogSocketStatus" where
  "es_worker_status_read s = es_worker_status s"

text \<open>\<open>EXIT_ON_ERROR\<close> in \<open>worker.c\<close>: store the status in \<open>g_status\<close> and end the thread.\<close>

abbreviation worker_save :: "EventlogSocketStatus \<Rightarrow> es_state \<Rightarrow> es_state" where
  "worker_save st s \<equiv> s\<lparr>es_worker_status := st\<rparr>"

text \<open>
  The loop of \<open>es_worker_wake_drain\<close>: \<open>reads k\<close> is the answer to the \<open>k\<close>-th \<open>read\<close>.
  \<open>None\<close>: it never ends.
\<close>

partial_function (option) wake_drain_loop :: "(nat \<Rightarrow> io_result) \<Rightarrow> nat \<Rightarrow> unit option" where
  "wake_drain_loop reads k =
     (case reads k of
        IoBytes n \<Rightarrow> if n > 0 then wake_drain_loop reads (Suc k) else Some ()
      | IoError errno \<Rightarrow>
          if errno = EINTR then wake_drain_loop reads (Suc k)
          else if errno = EAGAIN \<or> errno = EWOULDBLOCK then Some ()
          else Some ())"

definition es_worker_wake_drain :: "(nat \<Rightarrow> io_result) \<Rightarrow> es_state \<Rightarrow> (unit, es_state) outcome" where
  "es_worker_wake_drain reads s =
     (if fst (es_wake_pipe s) = -1 then Returns () s
      else
        (case wake_drain_loop reads 0 of
           None \<Rightarrow> Hangs
         | Some _ \<Rightarrow> Returns () s))"

section \<open>A step without pending data\<close>

record nonwrite_env =
  ne_poll :: poll_result
  ne_reads :: "nat \<Rightarrow> io_result"
  ne_lock :: int
  ne_unlock :: int

definition es_worker_step_nonwrite :: "nonwrite_env \<Rightarrow> int \<Rightarrow> es_state \<Rightarrow> (unit, es_state) outcome" where
  "es_worker_step_nonwrite env fd s =
     (let nfds = (if fst (es_wake_pipe s) \<noteq> -1 then 2 else 1 :: nat);
          finish = (\<lambda>r0 r1.
            if nfds = 2 \<and> rv_POLLIN r1 then es_worker_wake_drain (ne_reads env) s
            else if rv_POLLHUP r0 then
              call_bind (g_lock (ne_lock env) s) (\<lambda>_ s.
                call_bind (es_write_buffer_free (s\<lparr>es_client_fd := -1\<rparr>)) (\<lambda>_ s.
                  Returns () (g_unlock (ne_unlock env) s)))
            else Returns () s)
      in case ne_poll env of
           PollError errno \<Rightarrow> if errno = EINTR then Returns () s else Returns () s
         | PollTimeout \<Rightarrow> finish no_revents no_revents
         | PollReady r0 r1 \<Rightarrow> finish r0 r1)"

section \<open>A step with pending data\<close>

record step_write_env =
  se_poll :: poll_result
  se_writes :: "nat \<Rightarrow> io_result"
  se_lock :: int
  se_unlock :: int

text \<open>The loop over the items of the write buffer; \<open>writes k\<close> answers the \<open>k\<close>-th \<open>write\<close>.\<close>

partial_function (option) step_write_loop ::
  "(nat \<Rightarrow> io_result) \<Rightarrow> nat \<Rightarrow> es_state \<Rightarrow> (unit, es_state) outcome option" where
  "step_write_loop writes k s =
     (case wb_head s of
        None \<Rightarrow> Some (Returns () s)
      | Some a \<Rightarrow>
          (case wb_items s a of
             None \<Rightarrow> Some Crashes
           | Some item \<Rightarrow>
               (case item_bytes item s of
                  None \<Rightarrow> Some Crashes
                | Some data \<Rightarrow>
                    (let s = sys_write (es_client_fd s) data (writes k) s
                     in case writes k of
                          IoError errno \<Rightarrow>
                            if errno = EAGAIN \<or> errno = EWOULDBLOCK then Some (Returns () s)
                            else if errno = EPIPE then
                              Some (es_write_buffer_free (s\<lparr>es_client_fd := -1\<rparr>))
                            else Some (Returns () s)
                        | IoBytes num_bytes_written \<Rightarrow>
                            if num_bytes_written \<ge> wi_size item then
                              (case es_write_buffer_pop s of
                                 Returns _ s \<Rightarrow> step_write_loop writes (Suc k) s
                               | ThreadExits s \<Rightarrow> Some (ThreadExits s)
                               | Aborts \<Rightarrow> Some Aborts
                               | Crashes \<Rightarrow> Some Crashes
                               | Hangs \<Rightarrow> Some Hangs)
                            else Some (Returns () (item_advance a item num_bytes_written s))))))"

definition es_worker_step_write ::
  "bool \<Rightarrow> step_write_env \<Rightarrow> int \<Rightarrow> es_state \<Rightarrow> (unit, es_state) outcome" where
  "es_worker_step_write ndebug env fd s =
     (let finish = (\<lambda>r.
            if rv_POLLHUP r then
              call_bind (g_lock (se_lock env) s) (\<lambda>_ s.
                c_assert ndebug (fd = es_client_fd s)
                  (call_bind (es_write_buffer_free (s\<lparr>es_client_fd := -1\<rparr>)) (\<lambda>_ s.
                     Returns () (g_unlock (se_unlock env) s))))
            else if rv_POLLOUT r then
              call_bind (g_lock (se_lock env) s) (\<lambda>_ s.
                call_bind (case step_write_loop (se_writes env) 0 s of None \<Rightarrow> Hangs | Some r \<Rightarrow> r)
                  (\<lambda>_ s. Returns () (g_unlock (se_unlock env) s)))
            else Returns () s)
      in case se_poll env of
           PollError errno \<Rightarrow> if errno \<noteq> EAGAIN then Returns () s else finish no_revents
         | PollTimeout \<Rightarrow> Returns () s
         | PollReady r _ \<Rightarrow> finish r)"


section \<open>A step without a connection\<close>

text \<open>
  The answers to the calls of \<open>es_worker_step_listen\<close>. \<open>le_rc\<close> numbers the calls of
  \<open>pthread_mutex_lock\<close> and \<open>pthread_mutex_unlock\<close> in the order of the text. \<open>le_wait k\<close> is
  the \<open>k\<close>-th wait on \<open>ghc_rts_ready_cond\<close>: its return value and what the other threads do to
  the state while the mutex is released. \<open>le_start k\<close> is the \<open>k\<close>-th call of
  \<open>startEventLogging\<close>: its result and its calls of the writer. \<open>le_other\<close> is what the other
  threads do while the step does not hold the mutex, numbered in the order of the text: after the
  wait for the RTS, before event logging is stopped, before the connection is published, before
  event logging is started, and before the first connection is recorded; what the handlers of the
  hooks write belongs there too. The results of \<open>fcntl\<close> are only logged.
\<close>

record listen_env =
  le_listen :: "int option"
  le_poll :: "nat \<Rightarrow> poll_result"
  le_accept :: accept_result
  le_rc :: "nat \<Rightarrow> int"
  le_wait :: "nat \<Rightarrow> es_state \<Rightarrow> int \<times> es_state"
  le_other :: "nat \<Rightarrow> es_state \<Rightarrow> es_state"
  le_status :: rts_status
  le_hook_end :: hook_env
  le_hook_start :: hook_env
  le_end :: "writer_op list"
  le_start :: "nat \<Rightarrow> bool \<times> writer_op list"

partial_function (option) wait_rts_ready_loop ::
  "listen_env \<Rightarrow> nat \<Rightarrow> es_state \<Rightarrow> (unit, es_state) outcome option" where
  "wait_rts_ready_loop env k s =
     (if has_sig EVENTLOG_SOCKET_SIG_RTS_READY (es_init_state s) then Some (Returns () s)
      else
        (case le_wait env k s of (rc, s) \<Rightarrow>
           if STATUS_IS_ERROR (STATUS_FROM_PTHREAD rc)
           then Some (ThreadExits (g_unlock (le_rc env 1) (worker_save (STATUS_FROM_PTHREAD rc) s)))
           else wait_rts_ready_loop env (Suc k) s))"

definition es_worker_wait_rts_ready :: "listen_env \<Rightarrow> es_state \<Rightarrow> (unit, es_state) outcome" where
  "es_worker_wait_rts_ready env s =
     EXIT_ON_ERROR (call_bind (g_lock (le_rc env 0) s) (\<lambda>rc. Returns (STATUS_FROM_PTHREAD rc)))
       worker_save (\<lambda>s.
       call_bind (case wait_rts_ready_loop env 0 s of None \<Rightarrow> Hangs | Some r \<Rightarrow> r) (\<lambda>_ s.
         EXIT_ON_ERROR (Returns (STATUS_FROM_PTHREAD (le_rc env 1)) (g_unlock (le_rc env 1) s))
           worker_save (Returns ())))"

text \<open>The loop that polls until a client wants to connect.\<close>

partial_function (option) listen_poll_loop ::
  "(nat \<Rightarrow> poll_result) \<Rightarrow> nat \<Rightarrow> EventlogSocketStatus option" where
  "listen_poll_loop poll k =
     (case poll k of
        PollError errno \<Rightarrow> Some (STATUS_FROM_ERRNO errno)
      | PollTimeout \<Rightarrow> listen_poll_loop poll (Suc k)
      | PollReady r0 r1 \<Rightarrow> Some STATUS_OK)"

text \<open>The loop that calls \<open>startEventLogging\<close> until it succeeds.\<close>

partial_function (option) start_logging_loop ::
  "bool \<Rightarrow> listen_env \<Rightarrow> nat \<Rightarrow> es_state \<Rightarrow> (unit, es_state) outcome option" where
  "start_logging_loop nd env k s =
     (case le_start env k of (is_started, ops) \<Rightarrow>
        (case rts_calls nd ops (trace_event (EvStartEventLogging is_started) s) of
           Returns _ s \<Rightarrow>
             if is_started then Some (Returns () s) else start_logging_loop nd env (Suc k) s
         | ThreadExits s \<Rightarrow> Some (ThreadExits s)
         | Aborts \<Rightarrow> Some Aborts
         | Crashes \<Rightarrow> Some Crashes
         | Hangs \<Rightarrow> Some Hangs))"

text \<open>A call of \<open>es_hooks_handle_hook\<close> on the shared state.\<close>

definition handle_hook_es :: "hook_env \<Rightarrow> int \<Rightarrow> es_state \<Rightarrow> (EventlogSocketStatus, es_state) outcome" where
  "handle_hook_es env hook s =
     (case es_hooks_handle_hook env hook (es_hooks s) of
        Returns st h \<Rightarrow> Returns st (trace_event (EvHook hook) (s\<lparr>es_hooks := h\<rparr>))
      | ThreadExits h \<Rightarrow> ThreadExits (s\<lparr>es_hooks := h\<rparr>)
      | Aborts \<Rightarrow> Aborts
      | Crashes \<Rightarrow> Crashes
      | Hangs \<Rightarrow> Hangs)"

definition should_stop_logging :: "rts_status \<Rightarrow> byte \<Rightarrow> bool" where
  "should_stop_logging status init_state =
     (status = EVENTLOG_RUNNING \<and>
       (\<not> has_sig EVENTLOG_SOCKET_SIG_ATTACHED init_state \<or>
        has_sig EVENTLOG_SOCKET_SIG_HAD_FIRST_CONNECTION init_state))"

definition should_start_logging :: "rts_status \<Rightarrow> byte \<Rightarrow> bool" where
  "should_start_logging status init_state =
     (should_stop_logging status init_state \<or> status \<noteq> EVENTLOG_RUNNING)"

text \<open>
  The part of the step after the client has been accepted and the RTS is ready: stop event
  logging, publish the connection, start event logging, record the first connection.
\<close>

definition connect_stop :: "bool \<Rightarrow> listen_env \<Rightarrow> bool \<Rightarrow> bool \<Rightarrow> es_state \<Rightarrow> (unit, es_state) outcome" where
  "connect_stop nd env should_stop is_attached s =
     (if should_stop then
        (let end_logging = (\<lambda>s. rts_calls nd (le_end env) (trace_event EvEndEventLogging s))
         in if is_attached then
              EXIT_ON_ERROR
                (handle_hook_es (le_hook_end env) EVENTLOG_SOCKET_HOOK_PRE_END_EVENT_LOGGING s)
                worker_save end_logging
            else end_logging s)
      else Returns () s)"

definition connect_publish :: "listen_env \<Rightarrow> int \<Rightarrow> es_state \<Rightarrow> (unit, es_state) outcome" where
  "connect_publish env client_fd s =
     call_bind (g_lock (le_rc env 4) s) (\<lambda>_ s.
       (let s = trace_event (EvPublish client_fd) (s\<lparr>es_client_fd := client_fd\<rparr>);
            s = trace_event EvSignalNewConnection s
        in Returns () (g_unlock (le_rc env 5) s)))"

definition connect_start :: "bool \<Rightarrow> listen_env \<Rightarrow> bool \<Rightarrow> es_state \<Rightarrow> (unit, es_state) outcome" where
  "connect_start nd env should_start s =
     (if should_start then
        call_bind (case start_logging_loop nd env 0 s of None \<Rightarrow> Hangs | Some r \<Rightarrow> r) (\<lambda>_ s.
          EXIT_ON_ERROR
            (handle_hook_es (le_hook_start env) EVENTLOG_SOCKET_HOOK_POST_START_EVENT_LOGGING s)
            worker_save (Returns ()))
      else Returns () s)"

definition connect_mark_first :: "listen_env \<Rightarrow> bool \<Rightarrow> es_state \<Rightarrow> (unit, es_state) outcome" where
  "connect_mark_first env had_first_connection s =
     (if \<not> had_first_connection then
        call_bind (g_lock (le_rc env 6) s) (\<lambda>_ s.
          (let s = trace_event EvFirstConnection
                     (s\<lparr>es_init_state :=
                        es_init_state s OR EVENTLOG_SOCKET_SIG_HAD_FIRST_CONNECTION\<rparr>)
           in Returns () (g_unlock (le_rc env 7) s)))
      else Returns () s)"

definition connect_client :: "bool \<Rightarrow> listen_env \<Rightarrow> int \<Rightarrow> es_state \<Rightarrow> (unit, es_state) outcome" where
  "connect_client nd env client_fd s =
     call_bind (g_lock (le_rc env 2) s) (\<lambda>_ s.
      (let init_state = es_init_state s;
           s = g_unlock (le_rc env 3) s;
           should_stop = should_stop_logging (le_status env) init_state;
           should_start = should_start_logging (le_status env) init_state;
           is_attached = has_sig EVENTLOG_SOCKET_SIG_ATTACHED init_state;
           had_first_connection = has_sig EVENTLOG_SOCKET_SIG_HAD_FIRST_CONNECTION init_state
       in call_bind (connect_stop nd env should_stop is_attached (le_other env 1 s)) (\<lambda>_ s.
            call_bind (connect_publish env client_fd (le_other env 2 s)) (\<lambda>_ s.
              call_bind (connect_start nd env should_start (le_other env 3 s)) (\<lambda>_ s.
                connect_mark_first env had_first_connection (le_other env 4 s))))))"

definition es_worker_step_listen :: "bool \<Rightarrow> listen_env \<Rightarrow> es_state \<Rightarrow> (unit, es_state) outcome" where
  "es_worker_step_listen nd env s =
     EXIT_ON_ERROR
       (Returns (case le_listen env of Some errno \<Rightarrow> STATUS_FROM_ERRNO errno | None \<Rightarrow> STATUS_OK) s)
       worker_save (\<lambda>s.
       (case listen_poll_loop (le_poll env) 0 of
          None \<Rightarrow> Hangs
        | Some status \<Rightarrow>
            EXIT_ON_ERROR (Returns status s) worker_save (\<lambda>s.
              (let accepted = (\<lambda>client_fd s.
                     call_bind (es_worker_wait_rts_ready env s) (\<lambda>_ s.
                       connect_client nd env client_fd (le_other env 0 s)))
               in case le_accept env of
                    AcceptError errno \<Rightarrow>
                      if errno = EAGAIN \<or> errno = EWOULDBLOCK \<or> errno = ECONNABORTED
                      then Returns () s
                      else EXIT_ON_ERROR (Returns (STATUS_FROM_ERRNO errno) s) worker_save
                             (accepted (-1))
                  | Accepted client_fd \<Rightarrow> accepted client_fd s))))"

section \<open>One step of the worker\<close>

text \<open>
  The snapshot of the shared state, and the step it selects. \<open>ws_other\<close> is what the other
  threads do between the two (the mutex is free).
\<close>

record worker_env =
  ws_lock :: int
  ws_unlock :: int
  ws_other :: "es_state \<Rightarrow> es_state"
  ws_nonwrite :: nonwrite_env
  ws_write :: step_write_env
  ws_listen :: listen_env

definition es_worker_step :: "bool \<Rightarrow> worker_env \<Rightarrow> es_state \<Rightarrow> (unit, es_state) outcome" where
  "es_worker_step nd env s =
     EXIT_ON_ERROR (call_bind (g_lock (ws_lock env) s) (\<lambda>rc. Returns (STATUS_FROM_PTHREAD rc)))
       worker_save (\<lambda>s.
       (let client_fd = es_client_fd s;
            write_buffer_empty = (wb_head s = None)
        in EXIT_ON_ERROR (Returns (STATUS_FROM_PTHREAD (ws_unlock env)) (g_unlock (ws_unlock env) s))
             worker_save (\<lambda>s.
             (let s = ws_other env s
              in if client_fd \<noteq> -1 then
                   (if write_buffer_empty then es_worker_step_nonwrite (ws_nonwrite env) client_fd s
                    else es_worker_step_write nd (ws_write env) client_fd s)
                 else es_worker_step_listen nd (ws_listen env) s))))"

end
