(* ===== verification/ES_Stream.thy ===== *)
theory ES_Stream
  imports ES_Worker
begin

text \<open>
  The event stream: what the RTS writes reaches the client, in order, once, whatever the
  interleaving of the writer and the worker and however the kernel splits the writes; and the
  conditions under which bytes are dropped.
\<close>

section \<open>The worker's write loop\<close>

text \<open>The effect of the loop on the bytes sent and the waiting blocks; \<open>True\<close>: the pipe broke.\<close>

fun drain_spec ::
  "(nat \<Rightarrow> io_result) \<Rightarrow> nat \<Rightarrow> byte list \<Rightarrow> byte list list \<Rightarrow> byte list \<times> byte list list \<times> bool" where
  "drain_spec writes k sent [] = (sent, [], False)"
| "drain_spec writes k sent (d # q) =
     (case writes k of
        IoBytes n \<Rightarrow>
          if n \<ge> length d then drain_spec writes (Suc k) (sent @ d) q
          else (sent @ take n d, drop n d # q, False)
      | IoError errno \<Rightarrow>
          if errno = EPIPE then (sent, [], True) else (sent, d # q, False))"

lemma drain_spec_stream:
  "drain_spec writes k sent q = (sent', q', False) \<Longrightarrow> sent' @ concat q' = sent @ concat q"
proof (induction writes k sent q rule: drain_spec.induct)
  case (2 writes k sent d q)
  have "sent @ take n d @ drop n d = sent @ d" for n by simp
  with 2 show ?case by (auto split: io_result.splits if_splits)
qed simp

lemma drain_spec_broken:
  "drain_spec writes k sent q = (sent', q', broken) \<Longrightarrow> \<forall>k. writes k \<noteq> IoError EPIPE \<Longrightarrow> \<not> broken"
  by (induction writes k sent q rule: drain_spec.induct) (auto split: io_result.splits if_splits)

lemma errno_distinct: "EPIPE \<noteq> EAGAIN" "EPIPE \<noteq> EWOULDBLOCK"
  by (simp_all add: errno_defs)

lemma step_write_loop_ok:
  assumes "wb_rep s q"
    and "drain_spec writes k (es_sent s (es_client_fd s)) q = (sent', q', broken)"
  shows "\<exists>s'. step_write_loop writes k s = Some (Returns () s') \<and> wb_rep s' q'
     \<and> es_mutex s' = es_mutex s \<and> es_init_state s' = es_init_state s
     \<and> es_sent s' = (es_sent s)(es_client_fd s := sent')
     \<and> es_client_fd s' = (if broken then -1 else es_client_fd s)"
  using assms
proof (induction q arbitrary: s k)
  case Nil
  then have "wb_head s = None" by (simp add: wb_head_iff)
  then have "step_write_loop writes k s = Some (Returns () s)"
    by (subst step_write_loop.simps) simp
  with Nil show ?case by auto
next
  case (Cons d q)
  let ?fd = "es_client_fd s"
  obtain a item where head: "wb_head s = Some a" "wb_items s a = Some item"
    "item_bytes item s = Some d" "wi_size item = length d"
    using head_rep [OF Cons.prems(1)] by blast
  show ?case
  proof (cases "writes k")
    case (IoError errno)
    show ?thesis
    proof (cases "errno = EPIPE")
      case True
      have "wb_rep (s\<lparr>es_client_fd := -1\<rparr>) (d # q)" using Cons.prems(1) by simp
      from free_rep [OF this] obtain s' where s': "es_write_buffer_free (s\<lparr>es_client_fd := -1\<rparr>) =
        Returns () s'" "wb_rep s' []" "same_es s' (s\<lparr>es_client_fd := -1\<rparr>)"
        by (auto simp: same_es_def)
      have "step_write_loop writes k s = Some (Returns () s')"
        using head IoError True s'(1)
        by (subst step_write_loop.simps) (simp add: sys_write_def errno_distinct)
      with same_esD [OF s'(3)] s'(2) Cons.prems(2) IoError True show ?thesis by auto
    next
      case False
      then have "step_write_loop writes k s = Some (Returns () s)"
        using head IoError by (subst step_write_loop.simps) (simp add: sys_write_def)
      with False Cons.prems IoError show ?thesis by auto
    qed
  next
    case (IoBytes n)
    let ?s1 = "sys_write ?fd d (writes k) s"
    have s1: "es_sent ?s1 = (es_sent s)(?fd := es_sent s ?fd @ take n d)" "es_client_fd ?s1 = ?fd"
      "es_mutex ?s1 = es_mutex s" "es_init_state ?s1 = es_init_state s" "wb_rep ?s1 (d # q)"
      "wb_items ?s1 a = Some item" "wb_head ?s1 = Some a"
      using IoBytes Cons.prems(1) head by (simp_all add: sys_write_def)
    show ?thesis
    proof (cases "n \<ge> length d")
      case True
      from pop_rep [OF s1(5)] obtain s2 where s2: "es_write_buffer_pop ?s1 = Returns () s2"
        "wb_rep s2 q" "same_es s2 ?s1" by (auto simp: same_es_def)
      note f = same_esD [OF s2(3)]
      have sent2: "es_sent s2 (es_client_fd s2) = es_sent s ?fd @ d" using f s1 True by simp
      have "drain_spec writes (Suc k) (es_sent s2 (es_client_fd s2)) q = (sent', q', broken)"
        using Cons.prems(2) IoBytes True sent2 by simp
      from Cons.IH [OF s2(2) this] obtain s' where s': "step_write_loop writes (Suc k) s2 = Some (Returns () s')"
        "wb_rep s' q'" "es_mutex s' = es_mutex s2" "es_init_state s' = es_init_state s2"
        "es_sent s' = (es_sent s2)(es_client_fd s2 := sent')"
        "es_client_fd s' = (if broken then -1 else es_client_fd s2)" by blast
      have "step_write_loop writes k s = step_write_loop writes (Suc k) s2"
        using head IoBytes True s2(1) by (subst step_write_loop.simps) (simp add: Let_def)
      with s' f s1 show ?thesis by (simp add: fun_eq_iff)
    next
      case False
      have "step_write_loop writes k s = Some (Returns () (item_advance a item n ?s1))"
        using head IoBytes False by (subst step_write_loop.simps) (simp add: Let_def)
      moreover have "wb_rep (item_advance a item n ?s1) (drop n d # q)"
        using s1 False by (intro item_advance_rep) auto
      ultimately show ?thesis
        using s1 Cons.prems(2) IoBytes False by (auto simp: item_advance_def)
    qed
  qed
qed


section \<open>One connection: writers and worker interleaved\<close>

text \<open>
  The operations on an open connection, each one critical section: the RTS writes a block, or
  the worker drains the buffer (\<open>fd\<close> is the descriptor of its earlier snapshot).
\<close>

datatype stream_op =
    RtsWrites write_env "byte list"
  | WorkerDrains step_write_env int

fun stream_step :: "bool \<Rightarrow> stream_op \<Rightarrow> es_state \<Rightarrow> (unit, es_state) outcome" where
  "stream_step nd (RtsWrites env d) s = call_bind (writer_write nd env d s) (\<lambda>_. Returns ())"
| "stream_step nd (WorkerDrains env fd) s = es_worker_step_write nd env fd s"

text \<open>
  The environment's part: the connection does not break. \<open>write\<close> either accepts some bytes
  or asks to try again; \<open>poll\<close> does not report a hangup. The worker's \<open>write\<close> may also fail
  in any way other than \<open>EPIPE\<close>.
\<close>

definition step_write_env_ok :: "step_write_env \<Rightarrow> bool" where
  "step_write_env_ok env \<longleftrightarrow>
     se_lock env = 0 \<and> se_unlock env = 0 \<and> (\<forall>k. se_writes env k \<noteq> IoError EPIPE) \<and>
     (case se_poll env of PollReady r _ \<Rightarrow> \<not> rv_POLLHUP r | _ \<Rightarrow> True)"

fun stream_ok :: "stream_op \<Rightarrow> bool" where
  "stream_ok (RtsWrites env d) \<longleftrightarrow>
     write_env_ok env \<and> (case we_write env of IoBytes n \<Rightarrow> True | IoError errno \<Rightarrow> errno = EAGAIN)"
| "stream_ok (WorkerDrains env fd) \<longleftrightarrow> step_write_env_ok env"

fun written :: "stream_op \<Rightarrow> byte list" where
  "written (RtsWrites env d) = d"
| "written (WorkerDrains env fd) = []"

definition connected :: "es_state \<Rightarrow> bool" where
  "connected s \<longleftrightarrow> es_ready s \<and> es_client_fd s \<ge> 0"

text \<open>What the client has and will get: the bytes sent, then those waiting.\<close>

definition es_stream :: "es_state \<Rightarrow> int \<times> byte list" where
  "es_stream s = (es_client_fd s, es_sent s (es_client_fd s) @ concat (wb_contents s))"

fun stream_astep :: "stream_op \<Rightarrow> int \<times> byte list \<Rightarrow> (int \<times> byte list) option" where
  "stream_astep op (fd, bytes) = Some (fd, bytes @ written op)"

lemma stream_write:
  assumes "connected s" "stream_ok (RtsWrites env d)"
  shows "\<exists>s'. writer_write nd env d s = Returns True s' \<and> connected s'
     \<and> es_stream s' = (es_client_fd s, snd (es_stream s) @ d)"
proof -
  let ?fd = "es_client_fd s"
  have s: "\<not> es_mutex s" "wb_rep s (wb_contents s)" "?fd \<ge> 0"
    using assms(1) by (simp_all add: connected_def es_ready_def)
  have env: "write_env_ok env" using assms(2) by simp
  from writer_write_ok [OF env s(2,1), of nd d] obtain s' q' where s':
    "writer_write nd env d s = Returns True s'" "wb_rep s' q'" "\<not> es_mutex s'" "es_client_fd s' = ?fd"
    "(es_sent s', q') = write_spec ?fd
        (has_sig EVENTLOG_SOCKET_SIG_HAD_FIRST_CONNECTION (es_init_state s)) (we_write env) d
        (es_sent s, wb_contents s)" by blast
  have "es_sent s' ?fd @ concat q' = es_sent s ?fd @ concat (wb_contents s) @ d"
    using s'(5) s(3) assms(2) by (auto simp: write_spec_def split: if_splits io_result.splits)
  with s' s(3) es_ready_rep [OF s'(3,2)] show ?thesis by (auto simp: connected_def es_stream_def)
qed

lemma stream_drain:
  assumes "connected s" "step_write_env_ok env"
  shows "\<exists>s'. es_worker_step_write nd env fd s = Returns () s' \<and> connected s'
     \<and> es_stream s' = es_stream s"
proof (cases "\<exists>r r'. se_poll env = PollReady r r' \<and> rv_POLLOUT r")
  case False
  then have "es_worker_step_write nd env fd s = Returns () s"
    using assms(2)
    by (auto simp: es_worker_step_write_def step_write_env_ok_def no_revents_def Let_def
        split: poll_result.splits)
  with assms(1) show ?thesis by blast
next
  case True
  then obtain r r' where r: "se_poll env = PollReady r r'" "rv_POLLOUT r" "\<not> rv_POLLHUP r"
    using assms(2) by (auto simp: step_write_env_ok_def)
  let ?s1 = "s\<lparr>es_mutex := True\<rparr>" and ?q = "wb_contents s" and ?fd = "es_client_fd s"
  have s: "\<not> es_mutex s" "wb_rep s ?q" "?fd \<ge> 0"
    using assms(1) by (simp_all add: connected_def es_ready_def)
  obtain sent' q' broken where d: "drain_spec (se_writes env) 0 (es_sent s ?fd) ?q = (sent', q', broken)"
    by (metis prod_cases3)
  have "\<not> broken"
    using d assms(2) drain_spec_broken [of "se_writes env" 0 "es_sent s ?fd" ?q]
    by (auto simp: step_write_env_ok_def)
  with d have d: "drain_spec (se_writes env) 0 (es_sent s ?fd) ?q = (sent', q', False)" by simp
  with step_write_loop_ok [of ?s1 ?q "se_writes env" 0 sent' q' False] s(2) obtain s' where s':
    "step_write_loop (se_writes env) 0 ?s1 = Some (Returns () s')" "wb_rep s' q'"
    "es_sent s' = (es_sent s)(?fd := sent')" "es_client_fd s' = ?fd" by auto
  have "es_worker_step_write nd env fd s = Returns () (s'\<lparr>es_mutex := False\<rparr>)"
    using r s(1) s'(1) assms(2) by (simp add: es_worker_step_write_def step_write_env_ok_def Let_def)
  moreover have "wb_rep (s'\<lparr>es_mutex := False\<rparr>) q'" using s'(2) by simp
  ultimately show ?thesis
    using es_ready_rep [of "s'\<lparr>es_mutex := False\<rparr>" q'] s(3) s' drain_spec_stream [OF d]
    by (auto simp: connected_def es_stream_def)
qed

lemma stream_step_ok:
  assumes "connected s" "stream_ok op"
  shows "\<exists>t. stream_step nd op s = Returns () t \<and> connected t
     \<and> es_stream t = (es_client_fd s, snd (es_stream s) @ written op)"
proof (cases op)
  case (RtsWrites env d)
  with stream_write [OF assms(1), of env d nd] assms(2) show ?thesis by force
next
  case (WorkerDrains env fd)
  with stream_drain [OF assms(1), of env nd fd] assms(2) show ?thesis
    by (auto simp: es_stream_def)
qed

interpretation stream: refining_ops connected "stream_step nd" stream_ok "\<lambda>_. True"
    es_stream stream_astep
  for nd
proof
  fix s op
  assume s: "connected s" "stream_ok op"
  from stream_step_ok [OF this, of nd] obtain t where t: "stream_step nd op s = Returns () t"
    "connected t" "es_stream t = (es_client_fd s, snd (es_stream s) @ written op)" by blast
  show "\<exists>r t. stream_step nd op s = Returns r t \<and> True \<and> connected t" using t by blast
  show "es_stream t' = a"
    if "stream_step nd op s = Returns r t'" "stream_astep op (es_stream s) = Some a" for r t' a
    using that t by (cases "es_stream s") (auto simp: es_stream_def)
qed

lemma run_abstract_stream:
  "run_abstract stream_astep ops (fd, bytes) = Some (fd, bytes @ concat (map written ops))"
  by (induction ops arbitrary: bytes) auto

lemma stream_run:
  assumes "connected s" "list_all stream_ok ops"
  shows "\<exists>rs s'. run_ops (stream_step nd) ops s = Returns rs s' \<and> connected s'
     \<and> es_client_fd s' = es_client_fd s
     \<and> es_sent s' (es_client_fd s) @ concat (wb_contents s') =
         es_sent s (es_client_fd s) @ concat (wb_contents s) @ concat (map written ops)"
proof -
  have a: "run_abstract stream_astep ops (es_stream s) =
      Some (es_client_fd s, snd (es_stream s) @ concat (map written ops))"
    unfolding es_stream_def by (simp only: run_abstract_stream snd_conv)
  from stream.run_refines [OF assms a, of nd] show ?thesis
    by (fastforce simp: es_stream_def)
qed

text \<open>On a connection that does not break, the client receives the event stream. For any
  interleaving of the RTS's writes and the worker's steps, and for any way the kernel splits
  or postpones the writes, every step returns; and the bytes the kernel has accepted for the
  client, followed by those waiting in the buffer, are the bytes sent and waiting before
  followed by the written blocks in their order: nothing is lost, repeated or reordered.\<close>

theorem stream_in_order_without_loss:
  assumes "connected s" "list_all stream_ok ops"
  shows "\<exists>rs s'. run_ops (stream_step nd) ops s = Returns rs s' \<and> connected s'
     \<and> es_client_fd s' = es_client_fd s
     \<and> es_sent s' (es_client_fd s) @ concat (wb_contents s') =
         es_sent s (es_client_fd s) @ concat (wb_contents s) @ concat (map written ops)"
  using assms by (rule stream_run)

definition demo_write_env :: "io_result \<Rightarrow> write_env" where
  "demo_write_env res =
     \<lparr>we_lock = 0, we_unlock = 0, we_alloc = demo_alloc, we_write = res, we_wake = IoBytes 1\<rparr>"

lemma demo_write_env_ok [simp]:
  "write_env_ok (demo_write_env res)" "we_write (demo_write_env res) = res"
  using demo_alloc_ok by (auto simp: write_env_ok_def demo_write_env_def)

definition demo_drain_env :: "(nat \<Rightarrow> io_result) \<Rightarrow> step_write_env" where
  "demo_drain_env writes =
     \<lparr>se_poll = PollReady (no_revents\<lparr>rv_POLLOUT := True\<rparr>) no_revents, se_writes = writes,
      se_lock = 0, se_unlock = 0\<rparr>"

lemma demo_drain_env_ok [simp]:
  "\<forall>k. writes k \<noteq> IoError EPIPE \<Longrightarrow> step_write_env_ok (demo_drain_env writes)"
  by (simp add: step_write_env_ok_def demo_drain_env_def no_revents_def)

definition demo_connected :: es_state where
  "demo_connected = initial_es\<lparr>es_client_fd := 7\<rparr>"

lemma initial_es_rep [simp]: "wb_rep initial_es []"
  by (simp add: wb_rep_def wb_layout_def initial_es_def)

lemma initial_es_simps [simp]:
  "wb_contents initial_es = []" "es_mutex initial_es = False" "es_sent initial_es fd = []"
  "es_client_fd initial_es = -1" "es_init_state initial_es = 0" "es_trace initial_es = []"
  "es_hooks initial_es = initial_hooks"
  using wb_rep_contents [OF initial_es_rep] by (simp_all add: initial_es_def)

lemma demo_connected_ok [simp]:
  "connected demo_connected" "es_client_fd demo_connected = 7" "wb_contents demo_connected = []"
  "es_sent demo_connected fd = []"
  using es_ready_rep [of demo_connected "[]"]
  by (simp_all add: connected_def demo_connected_def)

theorem stream_in_order_without_loss_witness:
  "\<exists>rs s'. run_ops (stream_step False)
      [RtsWrites (demo_write_env (IoBytes 1)) [1, 2, 3], RtsWrites (demo_write_env (IoBytes 0)) [4, 5],
       WorkerDrains (demo_drain_env (\<lambda>k. IoBytes 2)) 7] demo_connected = Returns rs s'
     \<and> es_sent s' 7 @ concat (wb_contents s') = [1, 2, 3, 4, 5]"
proof -
  let ?ops = "[RtsWrites (demo_write_env (IoBytes 1)) [1, 2, 3],
      RtsWrites (demo_write_env (IoBytes 0)) [4, 5], WorkerDrains (demo_drain_env (\<lambda>k. IoBytes 2)) 7]"
  have "list_all stream_ok ?ops" by simp
  from stream_in_order_without_loss [OF demo_connected_ok(1) this, of False]
  show ?thesis by auto
qed

section \<open>Delivery, hangup and stop\<close>

lemma drain_spec_all:
  "\<forall>i < length q. writes (k + i) = IoBytes (length (q ! i)) \<Longrightarrow>
     drain_spec writes k sent q = (sent @ concat q, [], False)"
proof (induction q arbitrary: k sent)
  case (Cons d q)
  have "writes k = IoBytes (length d)" using Cons.prems by (auto dest: spec [where x = 0])
  moreover have "\<forall>i < length q. writes (Suc k + i) = IoBytes (length (q ! i))"
    using Cons.prems by (auto dest: spec [where x = "Suc _"])
  ultimately show ?case using Cons.IH [of "Suc k" "sent @ d"] by simp
qed simp

text \<open>When the socket is ready and accepts the waiting blocks, one step of the worker delivers
  the whole backlog and leaves no memory allocated.\<close>

theorem worker_delivers_backlog:
  assumes "connected s" "step_write_env_ok env"
    and "se_poll env = PollReady r r'" "rv_POLLOUT r"
    and "\<forall>i < length (wb_contents s). se_writes env i = IoBytes (length (wb_contents s ! i))"
  shows "\<exists>s'. es_worker_step_write nd env fd s = Returns () s'
     \<and> es_sent s' (es_client_fd s) = es_sent s (es_client_fd s) @ concat (wb_contents s)
     \<and> wb_contents s' = [] \<and> wb_items s' = Map.empty \<and> wb_blocks s' = Map.empty"
proof -
  let ?s1 = "s\<lparr>es_mutex := True\<rparr>" and ?q = "wb_contents s" and ?fd = "es_client_fd s"
  have s: "\<not> es_mutex s" "wb_rep s ?q"
    using assms(1) by (simp_all add: connected_def es_ready_def)
  have hup: "\<not> rv_POLLHUP r" using assms(2,3) by (simp add: step_write_env_ok_def)
  have d: "drain_spec (se_writes env) 0 (es_sent s ?fd) ?q = (es_sent s ?fd @ concat ?q, [], False)"
    using assms(5) by (intro drain_spec_all) simp
  with step_write_loop_ok [of ?s1 ?q "se_writes env" 0 _ "[]" False] s(2) obtain s' where s':
    "step_write_loop (se_writes env) 0 ?s1 = Some (Returns () s')" "wb_rep s' []"
    "es_sent s' = (es_sent s)(?fd := es_sent s ?fd @ concat ?q)" by auto
  have "es_worker_step_write nd env fd s = Returns () (s'\<lparr>es_mutex := False\<rparr>)"
    using assms(2-4) hup s(1) s'(1) by (simp add: es_worker_step_write_def step_write_env_ok_def Let_def)
  moreover have "wb_rep (s'\<lparr>es_mutex := False\<rparr>) []" using s'(2) by simp
  ultimately show ?thesis
    using s'(3) wb_rep_contents wb_rep_Nil_heap by fastforce
qed

lemma demo_backlog:
  obtains rs s where "run_ops (stream_step False) [RtsWrites (demo_write_env (IoError EAGAIN)) [1, 2, 3]]
      demo_connected = Returns rs s" "connected s" "wb_contents s = [[1, 2, 3]]" "es_client_fd s = 7"
    "es_sent s 7 = []"
proof -
  have env: "write_env_ok (demo_write_env (IoError EAGAIN))" by simp
  from writer_write_ok [OF env, of demo_connected "[]" False "[1, 2, 3]"] obtain s' q' where s':
    "writer_write False (demo_write_env (IoError EAGAIN)) [1, 2, 3] demo_connected = Returns True s'"
    "wb_rep s' q'" "\<not> es_mutex s'" "es_client_fd s' = 7" "es_sent s' = (\<lambda>_. [])" "q' = [[1, 2, 3]]"
    by (auto simp: demo_connected_def write_spec_def fun_eq_iff)
  with es_ready_rep [OF s'(3,2)] that [of "[()]" s'] show thesis by (simp add: connected_def)
qed

theorem worker_delivers_backlog_witness:
  "\<exists>rs s s'. run_ops (stream_step False) [RtsWrites (demo_write_env (IoError EAGAIN)) [1, 2, 3]]
      demo_connected = Returns rs s
     \<and> es_worker_step_write False (demo_drain_env (\<lambda>k. IoBytes 3)) 7 s = Returns () s'
     \<and> es_sent s' 7 = [1, 2, 3] \<and> wb_contents s' = []"
proof -
  obtain rs s where s: "run_ops (stream_step False) [RtsWrites (demo_write_env (IoError EAGAIN)) [1, 2, 3]]
      demo_connected = Returns rs s" "connected s" "wb_contents s = [[1, 2, 3]]" "es_client_fd s = 7"
    "es_sent s 7 = []" by (rule demo_backlog)
  have "step_write_env_ok (demo_drain_env (\<lambda>k. IoBytes 3))" by simp
  from worker_delivers_backlog [OF s(2) this, of "no_revents\<lparr>rv_POLLOUT := True\<rparr>" no_revents False 7]
  show ?thesis using s by (force simp: demo_drain_env_def)
qed

text \<open>When the client hangs up, a step of the worker (with or without pending data) drops the
  backlog, frees its memory and forgets the connection, but it does not close the descriptor:
  \<open>es_closed\<close> is unchanged, so every client that hangs up costs the process a descriptor.\<close>

theorem hangup_drops_backlog_and_leaks_descriptor:
  assumes "connected s"
    and "se_poll env = PollReady r r'" "rv_POLLHUP r" "se_lock env = 0" "se_unlock env = 0"
    and "ne_poll env' = PollReady r r''" "\<not> rv_POLLIN r''" "ne_lock env' = 0" "ne_unlock env' = 0"
    and "out \<in> {es_worker_step_write nd env (es_client_fd s) s,
                es_worker_step_nonwrite env' (es_client_fd s) s}"
  shows "\<exists>s'. out = Returns () s' \<and> es_client_fd s' = -1 \<and> \<not> es_mutex s'
     \<and> wb_contents s' = [] \<and> wb_items s' = Map.empty \<and> wb_blocks s' = Map.empty
     \<and> es_sent s' = es_sent s \<and> es_closed s' = es_closed s"
proof -
  let ?s1 = "s\<lparr>es_mutex := True\<rparr>"
  have s: "\<not> es_mutex s" "wb_rep s (wb_contents s)"
    using assms(1) by (simp_all add: connected_def es_ready_def)
  have "wb_rep (?s1\<lparr>es_client_fd := -1\<rparr>) (wb_contents s)" using s(2) by simp
  from free_rep [OF this] obtain t where t:
    "es_write_buffer_free (?s1\<lparr>es_client_fd := -1\<rparr>) = Returns () t" "wb_rep t []"
    "same_es t (?s1\<lparr>es_client_fd := -1\<rparr>)" by (auto simp: same_es_def)
  let ?s' = "t\<lparr>es_mutex := False\<rparr>"
  have "es_worker_step_write nd env (es_client_fd s) s = Returns () ?s'"
    using assms s(1) t(1) by (simp add: es_worker_step_write_def Let_def)
  moreover have "es_worker_step_nonwrite env' (es_client_fd s) s = Returns () ?s'"
    using assms s(1) t(1) by (simp add: es_worker_step_nonwrite_def Let_def)
  moreover have "wb_rep ?s' []" using t(2) by simp
  ultimately show ?thesis
    using assms(10) same_esD [OF t(3)] wb_rep_contents [of ?s' "[]"] wb_rep_Nil_heap [of ?s'] by auto
qed


theorem hangup_drops_backlog_and_leaks_descriptor_witness:
  "\<exists>rs s s'. run_ops (stream_step False) [RtsWrites (demo_write_env (IoError EAGAIN)) [1, 2, 3]]
      demo_connected = Returns rs s \<and> wb_contents s = [[1, 2, 3]]
     \<and> es_worker_step_write False ((demo_drain_env (\<lambda>k. IoBytes 3))\<lparr>se_poll :=
          PollReady (no_revents\<lparr>rv_POLLHUP := True\<rparr>) no_revents\<rparr>) 7 s = Returns () s'
     \<and> wb_contents s' = [] \<and> es_closed s' = es_closed s"
proof -
  let ?r = "no_revents\<lparr>rv_POLLHUP := True\<rparr>"
  let ?env = "(demo_drain_env (\<lambda>k. IoBytes 3))\<lparr>se_poll := PollReady ?r no_revents\<rparr>"
  let ?env' = "\<lparr>ne_poll = PollReady ?r no_revents, ne_reads = (\<lambda>_. IoBytes 0), ne_lock = 0, ne_unlock = 0\<rparr>"
  obtain rs s where s: "run_ops (stream_step False) [RtsWrites (demo_write_env (IoError EAGAIN)) [1, 2, 3]]
      demo_connected = Returns rs s" "connected s" "wb_contents s = [[1, 2, 3]]" "es_client_fd s = 7"
    "es_sent s 7 = []" by (rule demo_backlog)
  from hangup_drops_backlog_and_leaks_descriptor [OF s(2), of ?env ?r no_revents ?env' no_revents _ False]
  have "\<exists>s'. es_worker_step_write False ?env 7 s = Returns () s'
      \<and> wb_contents s' = [] \<and> es_closed s' = es_closed s"
    using s(4) by (fastforce simp: no_revents_def demo_drain_env_def)
  with s show ?thesis by blast
qed

text \<open>\<open>stopEventLogWriter\<close> detaches the writer, closes the connection's descriptor exactly once
  and frees the buffer; stopping again changes nothing.\<close>

theorem writer_stop_closes_once:
  assumes "connected s" "we_lock env = 0" "we_unlock env = 0"
  shows "\<exists>s'. writer_stop env s = Returns () s' \<and> es_ready s' \<and> es_client_fd s' = -1
     \<and> es_closed s' = es_closed s @ [es_client_fd s]
     \<and> \<not> has_sig EVENTLOG_SOCKET_SIG_ATTACHED (es_init_state s')
     \<and> wb_items s' = Map.empty \<and> wb_blocks s' = Map.empty
     \<and> writer_stop env s' = Returns () s'"
proof -
  let ?i = "es_init_state s AND NOT EVENTLOG_SOCKET_SIG_ATTACHED"
  let ?s1 = "s\<lparr>es_mutex := True, es_init_state := ?i, es_closed := es_closed s @ [es_client_fd s],
      es_client_fd := -1\<rparr>"
  have s: "\<not> es_mutex s" "wb_rep s (wb_contents s)" "es_client_fd s \<ge> 0"
    using assms(1) by (simp_all add: connected_def es_ready_def)
  have "wb_rep ?s1 (wb_contents s)" using s(2) by simp
  from free_rep [OF this] obtain t where t: "es_write_buffer_free ?s1 = Returns () t" "wb_rep t []"
    "same_es t ?s1" by (auto simp: same_es_def)
  let ?s' = "t\<lparr>es_mutex := False\<rparr>"
  note f = same_esD [OF t(3)]
  have rep: "wb_rep ?s' []" using t(2) by simp
  have stop: "writer_stop env s = Returns () ?s'"
    using s assms(2,3) t(1) by (simp add: writer_stop_def Let_def)
  have idem: "?i AND NOT EVENTLOG_SOCKET_SIG_ATTACHED = ?i"
    by (simp add: and.assoc)
  have "es_init_state ?s' = ?i" using f by simp
  then have "?s'\<lparr>es_mutex := True, es_init_state := es_init_state ?s' AND
      NOT EVENTLOG_SOCKET_SIG_ATTACHED, es_mutex := False\<rparr> = ?s'"
    using idem by simp
  then have again: "writer_stop env ?s' = Returns () ?s'"
    using assms(2,3) f by (simp add: writer_stop_def Let_def)
  have "\<not> has_sig EVENTLOG_SOCKET_SIG_ATTACHED (es_init_state ?s')"
    using f by (simp add: has_sig_def and.assoc)
  with stop again f rep es_ready_rep [of ?s' "[]"] wb_rep_Nil_heap [OF rep] show ?thesis by auto
qed

theorem writer_stop_closes_once_witness:
  "\<exists>s'. writer_stop (demo_write_env (IoBytes 0)) demo_connected = Returns () s'
     \<and> es_client_fd s' = -1 \<and> es_closed s' = es_closed demo_connected @ [7]"
  using writer_stop_closes_once [OF demo_connected_ok(1), of "demo_write_env (IoBytes 0)"]
  by (auto simp: demo_write_env_def)

section \<open>Before the first connection, and after it\<close>

definition unconnected :: "bool \<Rightarrow> es_state \<Rightarrow> bool" where
  "unconnected had_first s \<longleftrightarrow>
     es_ready s \<and> es_client_fd s < 0 \<and>
     has_sig EVENTLOG_SOCKET_SIG_HAD_FIRST_CONNECTION (es_init_state s) = had_first \<and>
     (had_first \<longrightarrow> wb_contents s = [])"

fun rts_write_step :: "bool \<Rightarrow> write_env \<times> byte list \<Rightarrow> es_state \<Rightarrow> (bool, es_state) outcome" where
  "rts_write_step nd (env, d) s = writer_write nd env d s"

lemma unconnected_write:
  assumes "unconnected h s" "write_env_ok env"
  shows "\<exists>s'. writer_write nd env d s = Returns True s' \<and> unconnected h s'
     \<and> es_client_fd s' = es_client_fd s \<and> es_init_state s' = es_init_state s \<and> es_sent s' = es_sent s
     \<and> es_hooks s' = es_hooks s \<and> wb_contents s' = (if h then [] else wb_contents s @ [d])"
proof -
  have s: "\<not> es_mutex s" "wb_rep s (wb_contents s)"
    using assms(1) by (simp_all add: unconnected_def es_ready_def)
  from writer_write_ok [OF assms(2) s(2,1), of nd d] obtain s' q' where s':
    "writer_write nd env d s = Returns True s'" "wb_rep s' q'" "\<not> es_mutex s'"
    "es_client_fd s' = es_client_fd s" "es_init_state s' = es_init_state s" "es_hooks s' = es_hooks s"
    "(es_sent s', q') = write_spec (es_client_fd s)
        (has_sig EVENTLOG_SOCKET_SIG_HAD_FIRST_CONNECTION (es_init_state s)) (we_write env) d
        (es_sent s, wb_contents s)" by blast
  have u: "es_client_fd s < 0" "h \<Longrightarrow> wb_contents s = []"
    "has_sig EVENTLOG_SOCKET_SIG_HAD_FIRST_CONNECTION (es_init_state s) = h"
    using assms(1) by (simp_all add: unconnected_def)
  have "es_sent s' = es_sent s \<and> q' = (if h then [] else wb_contents s @ [d])"
    using s'(7) u by (cases h) (simp_all add: write_spec_def)
  with s' u es_ready_rep [OF s'(3,2)] show ?thesis by (simp add: unconnected_def)
qed

lemma unconnected_run:
  assumes "unconnected had_first s" "list_all (\<lambda>(env, d). write_env_ok env) ops"
  shows "\<exists>rs s'. run_ops (rts_write_step nd) ops s = Returns rs s' \<and> unconnected had_first s'
     \<and> es_client_fd s' = es_client_fd s \<and> es_init_state s' = es_init_state s \<and> es_sent s' = es_sent s
     \<and> es_hooks s' = es_hooks s
     \<and> wb_contents s' = (if had_first then [] else wb_contents s @ map snd ops)"
  using assms
proof (induction ops arbitrary: s)
  case Nil
  then show ?case by (auto simp: unconnected_def)
next
  case (Cons op ops)
  obtain env d where op: "op = (env, d)" by (cases op)
  from unconnected_write [OF Cons.prems(1), of env nd d] Cons.prems(2) op obtain t where t:
    "writer_write nd env d s = Returns True t" "unconnected had_first t"
    "es_client_fd t = es_client_fd s" "es_init_state t = es_init_state s" "es_sent t = es_sent s"
    "es_hooks t = es_hooks s" "wb_contents t = (if had_first then [] else wb_contents s @ [d])" by auto
  from Cons.IH [OF t(2)] Cons.prems(2) t op show ?case by fastforce
qed

text \<open>Until the first client connects, every block the RTS writes is kept, in order; after the
  first connection, while no client is connected, every block is dropped.\<close>

theorem writes_without_connection:
  assumes "unconnected had_first s" "list_all (\<lambda>(env, d). write_env_ok env) ops"
  shows "\<exists>rs s'. run_ops (rts_write_step nd) ops s = Returns rs s' \<and> unconnected had_first s'
     \<and> es_client_fd s' = es_client_fd s \<and> es_init_state s' = es_init_state s \<and> es_sent s' = es_sent s
     \<and> wb_contents s' = (if had_first then [] else wb_contents s @ map snd ops)"
  using unconnected_run [OF assms, of nd] by blast

theorem writes_without_connection_witness:
  "\<exists>rs s'. run_ops (rts_write_step False)
      [(demo_write_env (IoBytes 0), [1, 2]), (demo_write_env (IoBytes 0), [3])] initial_es = Returns rs s'
     \<and> wb_contents s' = [[1, 2], [3]]"
proof -
  let ?ops = "[(demo_write_env (IoBytes 0), [1, 2]), (demo_write_env (IoBytes 0), [3])]"
  have "unconnected False initial_es" by (simp add: unconnected_def es_ready_def has_sig_def)
  moreover have "list_all (\<lambda>(env, d). write_env_ok env) ?ops" by simp
  ultimately have "\<exists>rs s'. run_ops (rts_write_step False) ?ops initial_es = Returns rs s'
      \<and> wb_contents s' = wb_contents initial_es @ map snd ?ops"
    using writes_without_connection [of False initial_es ?ops False] by auto
  then show ?thesis by simp
qed

text \<open>If waking the worker fails with an error other than \<open>EAGAIN\<close> while a block is queued, the
  thread of the RTS that writes the event ends with \<open>pthread_exit\<close> inside the critical
  section: \<open>g_mutex\<close> stays locked and every later write of any thread blocks for ever.\<close>

theorem failed_wake_ends_rts_thread:
  assumes "unconnected False s" "wb_contents s = []"
    and "we_lock env = 0" "push_env_ok (we_alloc env (s\<lparr>es_mutex := True\<rparr>)) s"
    and "snd (es_wake_pipe s) \<noteq> -1"
    and "we_wake env = IoError errno" "errno \<noteq> EAGAIN" "errno \<noteq> EWOULDBLOCK" "errno \<noteq> 0"
  shows "\<exists>s'. writer_write nd env d s = ThreadExits s' \<and> es_worker_status s' = STATUS_FROM_ERRNO errno
     \<and> (\<forall>nd' env' d'. writer_write nd' env' d' s' = Hangs)"
proof -
  let ?s1 = "s\<lparr>es_mutex := True\<rparr>"
  have s: "\<not> es_mutex s" "wb_rep ?s1 []" "wb_head s = None"
    using assms(1,2) wb_head_iff [of s "[]"] by (simp_all add: unconnected_def es_ready_def)
  have "push_env_ok (we_alloc env ?s1) ?s1" using assms(4) by (simp add: push_env_ok_def)
  from push_rep [OF s(2) this, of nd d] obtain t where t:
    "es_write_buffer_push nd (we_alloc env ?s1) d ?s1 = Returns () t" "same_es t ?s1"
    by (auto simp: same_es_def)
  note f = same_esD [OF t(2)]
  have "writer_write nd env d s = ThreadExits (t\<lparr>es_worker_status := STATUS_FROM_ERRNO errno\<rparr>)"
    using s assms t(1) f
    by (simp add: writer_write_def writer_enqueue_def es_worker_wake_def unconnected_def Let_def)
  moreover have "writer_write nd' env' d' (t\<lparr>es_worker_status := STATUS_FROM_ERRNO errno\<rparr>) = Hangs"
    for nd' env' d'
    using f by (simp add: writer_write_def)
  ultimately show ?thesis by auto
qed

theorem failed_wake_ends_rts_thread_witness:
  "\<exists>s'. writer_write True ((demo_write_env (IoBytes 0))\<lparr>we_wake := IoError EPIPE\<rparr>) [1]
         (initial_es\<lparr>es_wake_pipe := (3, 4)\<rparr>) = ThreadExits s'
     \<and> writer_write True (demo_write_env (IoBytes 0)) [2] s' = Hangs"
proof -
  let ?s = "initial_es\<lparr>es_wake_pipe := (3, 4)\<rparr>"
  have rep: "wb_rep ?s []" "\<not> es_mutex ?s" by (simp_all add: wb_rep_def wb_layout_def initial_es_def)
  have "push_env_ok (demo_alloc (?s\<lparr>es_mutex := True\<rparr>)) ?s"
    by (simp add: push_env_ok_def demo_alloc_def initial_es_def)
  then show ?thesis
    using failed_wake_ends_rts_thread [of ?s "(demo_write_env (IoBytes 0))\<lparr>we_wake := IoError EPIPE\<rparr>"
        EPIPE True "[1]"] es_ready_rep [OF rep(2,1)]
    by (auto simp: unconnected_def has_sig_def demo_write_env_def errno_defs)
qed

end
