(* ===== verification/ES_Connect.thy ===== *)
theory ES_Connect
  imports ES_Stream
begin

text \<open>
  What happens when a client connects: which calls of the RTS and of the hooks the worker makes
  and in which order, and what becomes of the events buffered before the first connection.
\<close>

section \<open>The signals of the init state\<close>

lemma has_sig_bits:
  "has_sig EVENTLOG_SOCKET_SIG_INITIALIZED i = bit i 0"
  "has_sig EVENTLOG_SOCKET_SIG_ATTACHED i = bit i 1"
  "has_sig EVENTLOG_SOCKET_SIG_RTS_READY i = bit i 2"
  "has_sig EVENTLOG_SOCKET_SIG_HAD_FIRST_CONNECTION i = bit i 3"
  using and_exp_eq_0_iff_not_bit [of i 0] and_exp_eq_0_iff_not_bit [of i 1]
    and_exp_eq_0_iff_not_bit [of i 2] and_exp_eq_0_iff_not_bit [of i 3]
  by (simp_all add: has_sig_def sig_defs)

lemma sig_bit_simps:
  "bit EVENTLOG_SOCKET_SIG_ATTACHED n = (n = 1)"
  "bit EVENTLOG_SOCKET_SIG_RTS_READY n = (n = 2)"
  "bit EVENTLOG_SOCKET_SIG_HAD_FIRST_CONNECTION n = (n = 3)"
  using bit_exp_iff [of 1 n, where 'a = byte] bit_exp_iff [of 2 n, where 'a = byte]
    bit_exp_iff [of 3 n, where 'a = byte]
  by (auto simp: sig_defs)


lemma had_first_simps [simp]:
  "has_sig EVENTLOG_SOCKET_SIG_HAD_FIRST_CONNECTION (i OR EVENTLOG_SOCKET_SIG_ATTACHED) =
     has_sig EVENTLOG_SOCKET_SIG_HAD_FIRST_CONNECTION i"
  "has_sig EVENTLOG_SOCKET_SIG_HAD_FIRST_CONNECTION (i AND NOT EVENTLOG_SOCKET_SIG_ATTACHED) =
     has_sig EVENTLOG_SOCKET_SIG_HAD_FIRST_CONNECTION i"
  "has_sig EVENTLOG_SOCKET_SIG_HAD_FIRST_CONNECTION (i OR EVENTLOG_SOCKET_SIG_HAD_FIRST_CONNECTION)"
  "has_sig EVENTLOG_SOCKET_SIG_ATTACHED (i OR EVENTLOG_SOCKET_SIG_ATTACHED)"
  "has_sig EVENTLOG_SOCKET_SIG_ATTACHED (i OR EVENTLOG_SOCKET_SIG_HAD_FIRST_CONNECTION) =
     has_sig EVENTLOG_SOCKET_SIG_ATTACHED i"
  "has_sig EVENTLOG_SOCKET_SIG_RTS_READY (i OR EVENTLOG_SOCKET_SIG_RTS_READY)"
  by (simp_all add: has_sig_bits bit_or_iff bit_and_iff bit_not_iff sig_bit_simps)

section \<open>The RTS as a client\<close>

fun writer_op_ok :: "writer_op \<Rightarrow> bool" where
  "writer_op_ok (WriterInit env) \<longleftrightarrow> write_env_ok env"
| "writer_op_ok (WriterWrite env d) \<longleftrightarrow> write_env_ok env"
| "writer_op_ok WriterFlush \<longleftrightarrow> True"
| "writer_op_ok (WriterStop env) \<longleftrightarrow> write_env_ok env"

text \<open>
  What the functions of the writer never change: the hooks, the trace of RTS calls, and
  whether there has been a connection.
\<close>

definition writer_frame :: "hooks \<times> es_event list \<times> bool \<Rightarrow> es_state \<Rightarrow> bool" where
  "writer_frame fr s \<longleftrightarrow>
     es_ready s \<and>
     fr = (es_hooks s, es_trace s, has_sig EVENTLOG_SOCKET_SIG_HAD_FIRST_CONNECTION (es_init_state s))"

lemma writer_step_frame:
  assumes "writer_frame fr s" "writer_op_ok op"
  shows "\<exists>s'. writer_step nd op s = Returns True s' \<and> writer_frame fr s'"
proof (cases op)
  case (WriterInit env)
  with assms show ?thesis
    by (auto simp: writer_frame_def writer_init_def es_ready_def write_env_ok_def Let_def)
next
  case (WriterWrite env d)
  have s: "\<not> es_mutex s" "wb_rep s (wb_contents s)"
    using assms(1) by (simp_all add: writer_frame_def es_ready_def)
  have env: "write_env_ok env" using assms(2) WriterWrite by simp
  from writer_write_ok [OF env s(2,1), of nd d] obtain s' q' where s':
    "writer_write nd env d s = Returns True s'" "wb_rep s' q'" "\<not> es_mutex s'"
    "es_init_state s' = es_init_state s" "es_hooks s' = es_hooks s" "es_trace s' = es_trace s" by blast
  with es_ready_rep [OF s'(3,2)] assms(1) WriterWrite
  show ?thesis by (simp add: writer_frame_def)
next
  case WriterFlush
  with assms show ?thesis by (simp add: writer_flush_def)
next
  case (WriterStop env)
  have s: "\<not> es_mutex s" "wb_rep s (wb_contents s)"
    using assms(1) by (simp_all add: writer_frame_def es_ready_def)
  have e: "we_lock env = 0" "we_unlock env = 0"
    using assms(2) WriterStop by (simp_all add: write_env_ok_def)
  show ?thesis
  proof (cases "es_client_fd s \<ge> 0")
    case True
    with s e have "connected s" by (simp add: connected_def es_ready_def)
    let ?s1 = "s\<lparr>es_mutex := True, es_init_state := es_init_state s AND NOT EVENTLOG_SOCKET_SIG_ATTACHED,
        es_closed := es_closed s @ [es_client_fd s], es_client_fd := -1\<rparr>"
    have "wb_rep ?s1 (wb_contents s)" using s(2) by simp
    from free_rep [OF this] obtain t where t: "es_write_buffer_free ?s1 = Returns () t" "wb_rep t []"
      "same_es t ?s1" by (auto simp: same_es_def)
    have "wb_rep (t\<lparr>es_mutex := False\<rparr>) []" using t(2) by simp
    then have "es_ready (t\<lparr>es_mutex := False\<rparr>)" using es_ready_rep by simp
    with True s e t(1) same_esD [OF t(3)] assms(1) WriterStop show ?thesis
      by (auto simp: writer_stop_def Let_def writer_frame_def)
  next
    case False
    have "wb_contents (s\<lparr>es_init_state := i, es_mutex := m\<rparr>) = wb_contents s" for i m
      by (rule wb_rep_contents) (use s(2) in simp)
    with False s e assms(1) WriterStop show ?thesis
      by (auto simp: writer_stop_def Let_def writer_frame_def es_ready_def)
  qed
qed

interpretation rts: total_state_ops "writer_frame fr" "writer_step nd" writer_op_ok "\<lambda>r. r = True"
  for fr nd
  by unfold_locales (metis writer_step_frame)

lemma rts_calls_frame:
  assumes "writer_frame fr s" "list_all writer_op_ok ops"
  obtains s' where "rts_calls nd ops s = Returns () s'" "writer_frame fr s'"
  using rts.run_total [OF assms, of nd] by (auto simp: rts_calls_def)


section \<open>A client connects\<close>

text \<open>
  The environment's part: locks succeed, the hooks' registry works, the RTS calls the writer
  with a working allocator, \<open>startEventLogging\<close> succeeds at the \<open>k\<close>-th attempt, and the other
  threads call no functions but those of the writer.
\<close>

definition connect_env_ok :: "listen_env \<Rightarrow> nat \<Rightarrow> bool" where
  "connect_env_ok env k \<longleftrightarrow>
     (\<forall>i. le_rc env i = 0) \<and> hook_env_ok (le_hook_end env) \<and> hook_env_ok (le_hook_start env) \<and>
     list_all writer_op_ok (le_end env) \<and> (\<forall>j. list_all writer_op_ok (snd (le_start env j))) \<and>
     fst (le_start env k) \<and> (\<forall>j < k. \<not> fst (le_start env j)) \<and>
     (\<forall>fr i s. writer_frame fr s \<longrightarrow> writer_frame fr (le_other env i s))"

lemma writer_frame_trace:
  "writer_frame (h, tr, b) s \<Longrightarrow> writer_frame (h, tr @ [e], b) (trace_event e s)"
  by (auto simp: writer_frame_def trace_event_def es_ready_def)

lemma start_logging_loop_ok:
  assumes "writer_frame (h, tr, b) s" "\<forall>j. list_all writer_op_ok (snd (le_start env j))"
    and "fst (le_start env (i + k))" "\<forall>j < k. \<not> fst (le_start env (i + j))"
  shows "\<exists>s'. start_logging_loop nd env i s = Some (Returns () s') \<and>
     writer_frame (h, tr @ replicate k (EvStartEventLogging False) @ [EvStartEventLogging True], b) s'"
  using assms(1,3,4)
proof (induction k arbitrary: i s tr)
  case 0
  obtain started ops where st: "le_start env i = (started, ops)" by (cases "le_start env i")
  with 0 assms(2) have ok: "started" "list_all writer_op_ok ops" by (auto dest: spec [of _ i])
  have fr: "writer_frame (h, tr @ [EvStartEventLogging True], b) (trace_event (EvStartEventLogging True) s)"
    using 0(1) by (rule writer_frame_trace)
  obtain t where "rts_calls nd ops (trace_event (EvStartEventLogging True) s) = Returns () t"
    "writer_frame (h, tr @ [EvStartEventLogging True], b) t"
    using rts_calls_frame [OF fr ok(2), of nd] by blast
  with st ok show ?case by (subst start_logging_loop.simps) simp
next
  case (Suc k)
  obtain started ops where st: "le_start env i = (started, ops)" by (cases "le_start env i")
  with Suc.prems(3) assms(2) have ok: "\<not> started" "list_all writer_op_ok ops"
    by (auto dest: spec [of _ i] spec [of _ 0])
  have fr: "writer_frame (h, tr @ [EvStartEventLogging False], b) (trace_event (EvStartEventLogging False) s)"
    using Suc.prems(1) by (rule writer_frame_trace)
  obtain t where t: "rts_calls nd ops (trace_event (EvStartEventLogging False) s) = Returns () t"
    "writer_frame (h, tr @ [EvStartEventLogging False], b) t"
    using rts_calls_frame [OF fr ok(2), of nd] by blast
  have "\<forall>j < k. \<not> fst (le_start env (Suc i + j))"
    using Suc.prems(3) by (auto dest: spec [where x = "Suc _"])
  with Suc.IH [OF t(2), of "Suc i"] Suc.prems(2) obtain s' where
    "start_logging_loop nd env (Suc i) t = Some (Returns () s')"
    "writer_frame (h, (tr @ [EvStartEventLogging False]) @ replicate k (EvStartEventLogging False) @
       [EvStartEventLogging True], b) s'" by auto
  with st ok t(1) show ?case by (subst start_logging_loop.simps) (simp add: replicate_append_same)
qed

lemma handle_hook_es_ok:
  assumes "writer_frame (h, tr, b) s" "\<not> hk_mutex h" "hook_env_ok env" "select_hook_list hook \<noteq> None"
  shows "\<exists>h' s'. handle_hook_es env hook s = Returns STATUS_OK s' \<and> \<not> hk_mutex h'
     \<and> writer_frame (h', tr @ [EvHook hook], b) s' \<and> es_client_fd s' = es_client_fd s"
proof -
  obtain l where l: "select_hook_list hook = Some l" using assms(4) by blast
  have h: "es_hooks s = h" using assms(1) by (simp add: writer_frame_def)
  let ?h' = "h\<lparr>hk_calls := hk_calls h @ handler_calls (hook_entries l h)\<rparr>"
  have "handle_hook_es env hook s = Returns STATUS_OK (trace_event (EvHook hook) (s\<lparr>es_hooks := ?h'\<rparr>))"
    using assms(2,3) l h by (simp add: handle_hook_es_def handle_hook_ok)
  moreover have "writer_frame (?h', tr @ [EvHook hook], b) (trace_event (EvHook hook) (s\<lparr>es_hooks := ?h'\<rparr>))"
    using assms(1) by (intro writer_frame_trace) (auto simp: writer_frame_def es_ready_def)
  moreover have "es_client_fd (trace_event (EvHook hook) (s\<lparr>es_hooks := ?h'\<rparr>)) = es_client_fd s"
    by (simp add: trace_event_def)
  moreover have "\<not> hk_mutex ?h'" using assms(2) by simp
  ultimately show ?thesis by blast
qed

lemma select_hook_list_valid [simp]:
  "select_hook_list EVENTLOG_SOCKET_HOOK_PRE_END_EVENT_LOGGING = Some OnDisconnect"
  "select_hook_list EVENTLOG_SOCKET_HOOK_POST_START_EVENT_LOGGING = Some OnConnect"
  by (simp_all add: select_hook_list_def EVENTLOG_SOCKET_HOOK_PRE_END_EVENT_LOGGING_def
      EVENTLOG_SOCKET_HOOK_POST_START_EVENT_LOGGING_def)


lemma writer_frame_unlocked: "writer_frame fr s \<Longrightarrow> \<not> es_mutex s"
  by (simp add: writer_frame_def es_ready_def)

definition stop_trace :: "bool \<Rightarrow> bool \<Rightarrow> es_event list" where
  "stop_trace should_stop is_attached =
     (if should_stop then
        (if is_attached then [EvHook EVENTLOG_SOCKET_HOOK_PRE_END_EVENT_LOGGING] else []) @ [EvEndEventLogging]
      else [])"

definition start_trace :: "nat \<Rightarrow> bool \<Rightarrow> es_event list" where
  "start_trace k should_start =
     (if should_start then
        replicate k (EvStartEventLogging False) @
        [EvStartEventLogging True, EvHook EVENTLOG_SOCKET_HOOK_POST_START_EVENT_LOGGING]
      else [])"

definition first_trace :: "bool \<Rightarrow> es_event list" where
  "first_trace had_first_connection = (if had_first_connection then [] else [EvFirstConnection])"

lemma connect_stop_ok:
  assumes "writer_frame (h, tr, b) s" "\<not> hk_mutex h" "connect_env_ok env k"
  shows "\<exists>h' s'. connect_stop nd env stop att s = Returns () s' \<and> \<not> hk_mutex h'
     \<and> writer_frame (h', tr @ stop_trace stop att, b) s' \<and> (\<not> stop \<longrightarrow> s' = s)"
proof (cases stop)
  case True
  have ops: "list_all writer_op_ok (le_end env)" and hk: "hook_env_ok (le_hook_end env)"
    using assms(3) by (simp_all add: connect_env_ok_def)
  have fin: "\<exists>t'. rts_calls nd (le_end env) (trace_event EvEndEventLogging t) = Returns () t'
      \<and> writer_frame (h', tr' @ [EvEndEventLogging], b) t'" if "writer_frame (h', tr', b) t" for h' tr' t
  proof -
    have "writer_frame (h', tr' @ [EvEndEventLogging], b) (trace_event EvEndEventLogging t)"
      using that by (rule writer_frame_trace)
    from rts_calls_frame [OF this ops, of nd] show ?thesis by blast
  qed
  show ?thesis
  proof (cases att)
    case True
    from handle_hook_es_ok [OF assms(1,2) hk, of EVENTLOG_SOCKET_HOOK_PRE_END_EVENT_LOGGING]
    obtain h' t where t: "handle_hook_es (le_hook_end env) EVENTLOG_SOCKET_HOOK_PRE_END_EVENT_LOGGING s =
        Returns STATUS_OK t" "\<not> hk_mutex h'"
      "writer_frame (h', tr @ [EvHook EVENTLOG_SOCKET_HOOK_PRE_END_EVENT_LOGGING], b) t" by auto
    from fin [OF t(3)] t(1,2) \<open>stop\<close> True show ?thesis
      by (auto simp: connect_stop_def stop_trace_def)
  next
    case False
    from fin [OF assms(1)] assms(2) \<open>stop\<close> False show ?thesis
      by (auto simp: connect_stop_def stop_trace_def)
  qed
next
  case False
  with assms(1,2) show ?thesis by (auto simp: connect_stop_def stop_trace_def)
qed

lemma connect_publish_ok:
  assumes "writer_frame (h, tr, b) s" "connect_env_ok env k"
  shows "\<exists>s'. connect_publish env fd s = Returns () s' \<and> es_client_fd s' = fd
     \<and> writer_frame (h, tr @ [EvPublish fd, EvSignalNewConnection], b) s'
     \<and> wb_contents s' = wb_contents s \<and> es_sent s' = es_sent s \<and> es_init_state s' = es_init_state s"
  using assms
  by (auto simp: connect_publish_def connect_env_ok_def writer_frame_def es_ready_def
      trace_event_def Let_def)

lemma connect_start_ok:
  assumes "writer_frame (h, tr, b) s" "\<not> hk_mutex h" "connect_env_ok env k"
  shows "\<exists>h' s'. connect_start nd env start s = Returns () s' \<and> \<not> hk_mutex h'
     \<and> writer_frame (h', tr @ start_trace k start, b) s' \<and> (\<not> start \<longrightarrow> s' = s)"
proof (cases start)
  case True
  have ops: "\<forall>j. list_all writer_op_ok (snd (le_start env j))" and hk: "hook_env_ok (le_hook_start env)"
    and k: "fst (le_start env (0 + k))" "\<forall>j < k. \<not> fst (le_start env (0 + j))"
    using assms(3) by (simp_all add: connect_env_ok_def)
  from start_logging_loop_ok [OF assms(1) ops k] obtain t where t:
    "start_logging_loop nd env 0 s = Some (Returns () t)"
    "writer_frame (h, tr @ replicate k (EvStartEventLogging False) @ [EvStartEventLogging True], b) t" by blast
  from handle_hook_es_ok [OF t(2) assms(2) hk, of EVENTLOG_SOCKET_HOOK_POST_START_EVENT_LOGGING] t(1) True
  show ?thesis by (auto simp: connect_start_def start_trace_def)
next
  case False
  with assms(1,2) show ?thesis by (auto simp: connect_start_def start_trace_def)
qed

lemma connect_mark_first_ok:
  assumes "writer_frame (h, tr, b) s" "connect_env_ok env k"
  shows "\<exists>s'. connect_mark_first env b s = Returns () s' \<and> writer_frame (h, tr @ first_trace b, True) s'
     \<and> es_client_fd s' = es_client_fd s \<and> wb_contents s' = wb_contents s \<and> es_sent s' = es_sent s"
  using assms
  by (auto simp: connect_mark_first_def connect_env_ok_def writer_frame_def es_ready_def trace_event_def
      first_trace_def Let_def)

lemma connect_client_ok:
  assumes "es_ready s" "\<not> hk_mutex (es_hooks s)" "connect_env_ok env k"
  defines "stop \<equiv> le_status env = EVENTLOG_RUNNING \<and>
      (\<not> has_sig EVENTLOG_SOCKET_SIG_ATTACHED (es_init_state s) \<or>
       has_sig EVENTLOG_SOCKET_SIG_HAD_FIRST_CONNECTION (es_init_state s))"
    and "start \<equiv> le_status env \<noteq> EVENTLOG_RUNNING \<or>
      \<not> has_sig EVENTLOG_SOCKET_SIG_ATTACHED (es_init_state s) \<or>
      has_sig EVENTLOG_SOCKET_SIG_HAD_FIRST_CONNECTION (es_init_state s)"
  shows "\<exists>s'. connect_client nd env fd s = Returns () s' \<and> es_ready s'
     \<and> has_sig EVENTLOG_SOCKET_SIG_HAD_FIRST_CONNECTION (es_init_state s')
     \<and> es_trace s' = es_trace s
         @ stop_trace stop (has_sig EVENTLOG_SOCKET_SIG_ATTACHED (es_init_state s))
         @ [EvPublish fd, EvSignalNewConnection] @ start_trace k start
         @ first_trace (has_sig EVENTLOG_SOCKET_SIG_HAD_FIRST_CONNECTION (es_init_state s))
     \<and> (\<not> start \<and> (\<forall>i s. le_other env i s = s) \<longrightarrow> es_client_fd s' = fd \<and> wb_contents s' = wb_contents s \<and> es_sent s' = es_sent s)"
proof -
  let ?att = "has_sig EVENTLOG_SOCKET_SIG_ATTACHED (es_init_state s)"
  let ?had = "has_sig EVENTLOG_SOCKET_SIG_HAD_FIRST_CONNECTION (es_init_state s)"
  let ?h = "es_hooks s" and ?tr = "es_trace s"
  have locks: "\<And>i. le_rc env i = 0" and free: "\<not> es_mutex s"
    using assms(1,3) by (simp_all add: connect_env_ok_def es_ready_def)
  have fr0: "writer_frame (?h, ?tr, ?had) s" using assms(1) by (simp add: writer_frame_def)
  have other: "writer_frame fr (le_other env i t)" if "writer_frame fr t" for fr i t
    using assms(3) that unfolding connect_env_ok_def by blast
  let ?quiet = "\<forall>i s. le_other env i s = s"
  from connect_stop_ok [OF other [OF fr0] assms(2,3), of nd stop ?att] obtain h1 s1 where s1:
    "connect_stop nd env stop ?att (le_other env 1 s) = Returns () s1" "\<not> hk_mutex h1"
    "writer_frame (h1, ?tr @ stop_trace stop ?att, ?had) s1" "\<not> stop \<Longrightarrow> s1 = le_other env 1 s" by blast
  from connect_publish_ok [OF other [OF s1(3)] assms(3), of fd] obtain s2 where s2:
    "connect_publish env fd (le_other env 2 s1) = Returns () s2" "es_client_fd s2 = fd"
    "writer_frame (h1, (?tr @ stop_trace stop ?att) @ [EvPublish fd, EvSignalNewConnection], ?had) s2"
    "wb_contents s2 = wb_contents (le_other env 2 s1)" "es_sent s2 = es_sent (le_other env 2 s1)" by blast
  from connect_start_ok [OF other [OF s2(3)] s1(2) assms(3), of nd start] obtain h3 s3 where s3:
    "connect_start nd env start (le_other env 3 s2) = Returns () s3"
    "writer_frame (h3, ((?tr @ stop_trace stop ?att) @ [EvPublish fd, EvSignalNewConnection]) @
       start_trace k start, ?had) s3" "\<not> start \<Longrightarrow> s3 = le_other env 3 s2" by blast
  from connect_mark_first_ok [OF other [OF s3(2)] assms(3)] obtain s4 where s4:
    "connect_mark_first env ?had (le_other env 4 s3) = Returns () s4"
    "es_client_fd s4 = es_client_fd (le_other env 4 s3)"
    "writer_frame (h3, (((?tr @ stop_trace stop ?att) @ [EvPublish fd, EvSignalNewConnection]) @
       start_trace k start) @ first_trace ?had, True) s4"
    "wb_contents s4 = wb_contents (le_other env 4 s3)" "es_sent s4 = es_sent (le_other env 4 s3)" by blast
  have dec: "should_stop_logging (le_status env) (es_init_state s) = stop"
    "should_start_logging (le_status env) (es_init_state s) = start"
    by (auto simp: should_stop_logging_def should_start_logging_def stop_def start_def)
  have id: "s\<lparr>es_mutex := False\<rparr> = s" using free by simp
  have "connect_client nd env fd s = Returns () s4"
    using locks free s1(1) s2(1) s3(1) s4(1) by (simp add: connect_client_def Let_def dec id)
  moreover have "\<not> start \<Longrightarrow> \<not> stop" by (auto simp: stop_def start_def)
  then have "\<not> start \<and> ?quiet \<longrightarrow> es_client_fd s4 = fd \<and> wb_contents s4 = wb_contents s \<and> es_sent s4 = es_sent s"
    using s4(2,4,5) s3(3) s2(2,4,5) s1(4) by simp
  moreover have "es_ready s4" "has_sig EVENTLOG_SOCKET_SIG_HAD_FIRST_CONNECTION (es_init_state s4)"
    "es_trace s4 = ?tr @ stop_trace stop ?att @ [EvPublish fd, EvSignalNewConnection] @ start_trace k start
       @ first_trace ?had"
    using s4(3) by (simp_all add: writer_frame_def)
  ultimately show ?thesis by blast
qed

text \<open>C22: what happens when a client connects, in terms of calls and their order. Event logging is
  stopped exactly if it is running and either another writer runs or a client has been
  connected before; the pre-end hooks run before it is stopped, and only if the writer is
  attached; the connection is published and signalled after that; event logging is started,
  with retries, exactly if it was stopped or was not running, and the post-start hooks run
  once after it has started. Last, and only for the first client, \<open>HAD_FIRST_CONNECTION\<close> is set.
  (The comment at \<open>eventlog_socket.c:111\<close> has this signal before the writer is attached, in the
  order 1, 4, 3, 2; the code has it after \<open>startEventLogging\<close>.)\<close>

theorem client_connection_protocol:
  assumes "es_ready s" "\<not> hk_mutex (es_hooks s)" "connect_env_ok env k"
  defines "stop \<equiv> le_status env = EVENTLOG_RUNNING \<and>
      (\<not> has_sig EVENTLOG_SOCKET_SIG_ATTACHED (es_init_state s) \<or>
       has_sig EVENTLOG_SOCKET_SIG_HAD_FIRST_CONNECTION (es_init_state s))"
    and "start \<equiv> le_status env \<noteq> EVENTLOG_RUNNING \<or>
      \<not> has_sig EVENTLOG_SOCKET_SIG_ATTACHED (es_init_state s) \<or>
      has_sig EVENTLOG_SOCKET_SIG_HAD_FIRST_CONNECTION (es_init_state s)"
  shows "\<exists>s'. connect_client nd env fd s = Returns () s' \<and> es_ready s'
     \<and> has_sig EVENTLOG_SOCKET_SIG_HAD_FIRST_CONNECTION (es_init_state s')
     \<and> es_trace s' = es_trace s
         @ stop_trace stop (has_sig EVENTLOG_SOCKET_SIG_ATTACHED (es_init_state s))
         @ [EvPublish fd, EvSignalNewConnection] @ start_trace k start
         @ first_trace (has_sig EVENTLOG_SOCKET_SIG_HAD_FIRST_CONNECTION (es_init_state s))
     \<and> (\<not> start \<and> (\<forall>i s. le_other env i s = s) \<longrightarrow> es_client_fd s' = fd \<and> wb_contents s' = wb_contents s \<and> es_sent s' = es_sent s)"
  unfolding stop_def start_def using assms(1-3) by (rule connect_client_ok)

definition demo_listen_env :: listen_env where
  "demo_listen_env =
     \<lparr>le_listen = None, le_poll = (\<lambda>_. PollReady no_revents no_revents), le_accept = Accepted 7,
      le_rc = (\<lambda>_. 0), le_wait = (\<lambda>_ s. (0, s)), le_other = (\<lambda>_ s. s), le_status = EVENTLOG_RUNNING,
      le_hook_end = demo_hook_env, le_hook_start = demo_hook_env,
      le_end = [WriterStop (demo_write_env (IoBytes 0))],
      le_start = (\<lambda>k. (k = 1, if k = 1 then [WriterInit (demo_write_env (IoBytes 0)),
        WriterWrite (demo_write_env (IoBytes 2)) [1, 2]] else []))\<rparr>"

lemma demo_listen_env_ok: "connect_env_ok demo_listen_env 1"
  by (simp add: connect_env_ok_def demo_listen_env_def)

lemma initial_es_ready [simp]: "es_ready initial_es"
  by (simp add: es_ready_def)

theorem client_connection_protocol_witness:
  "\<exists>s'. connect_client False demo_listen_env 7 initial_es = Returns () s'
     \<and> es_trace s' = [EvEndEventLogging, EvPublish 7, EvSignalNewConnection,
          EvStartEventLogging False, EvStartEventLogging True, EvHook 0, EvFirstConnection]"
  using client_connection_protocol [OF initial_es_ready _ demo_listen_env_ok, of False 7]
  by (auto simp: initial_hooks_def has_sig_def demo_listen_env_def stop_trace_def start_trace_def
      first_trace_def EVENTLOG_SOCKET_HOOK_POST_START_EVENT_LOGGING_def)

text \<open>Events written before the first client connects are not lost. In a program with a C main
  that attaches the writer before the RTS starts: the blocks written before the connection, the
  worker's connection step, and then any interleaving of writes and worker steps on the
  connection, all return; and what the client has received, followed by what is waiting, is
  everything the RTS has written since the start, in order.\<close>

theorem events_before_first_connection_are_delivered:
  assumes "unconnected False s" "has_sig EVENTLOG_SOCKET_SIG_ATTACHED (es_init_state s)"
    and "\<not> hk_mutex (es_hooks s)" "es_sent s fd = []" "fd \<ge> 0"
    and "connect_env_ok env k" "le_status env = EVENTLOG_RUNNING" "\<forall>i s. le_other env i s = s"
    and "list_all (\<lambda>(env, d). write_env_ok env) before" "list_all stream_ok after"
  shows "\<exists>r1 s1 s2 r3 s3.
       run_ops (rts_write_step nd) before s = Returns r1 s1
     \<and> connect_client nd env fd s1 = Returns () s2
     \<and> run_ops (stream_step nd) after s2 = Returns r3 s3
     \<and> es_sent s3 fd @ concat (wb_contents s3) =
         concat (wb_contents s) @ concat (map snd before) @ concat (map written after)"
proof -
  from unconnected_run [OF assms(1,9), of nd] obtain r1 s1 where s1:
    "run_ops (rts_write_step nd) before s = Returns r1 s1" "unconnected False s1"
    "es_init_state s1 = es_init_state s" "es_sent s1 = es_sent s" "es_hooks s1 = es_hooks s"
    "wb_contents s1 = wb_contents s @ map snd before" by auto
  have h: "es_ready s1" "\<not> hk_mutex (es_hooks s1)"
    "\<not> has_sig EVENTLOG_SOCKET_SIG_HAD_FIRST_CONNECTION (es_init_state s1)"
    using s1 assms(3) by (simp_all add: unconnected_def)
  from connect_client_ok [OF h(1,2) assms(6), of nd fd] assms(2,7,8) s1(3) h(3) obtain s2 where s2:
    "connect_client nd env fd s1 = Returns () s2" "es_ready s2" "es_client_fd s2 = fd"
    "wb_contents s2 = wb_contents s1" "es_sent s2 = es_sent s1" by auto
  have "connected s2" using s2 assms(5) by (simp add: connected_def)
  from stream_run [OF this assms(10), of nd] obtain r3 s3 where
    "run_ops (stream_step nd) after s2 = Returns r3 s3"
    "es_sent s3 fd @ concat (wb_contents s3) =
       es_sent s2 fd @ concat (wb_contents s2) @ concat (map written after)"
    using s2(3) by auto
  with s1 s2 assms(4) show ?thesis by fastforce
qed

definition demo_attached :: es_state where
  "demo_attached = initial_es\<lparr>es_init_state := EVENTLOG_SOCKET_SIG_ATTACHED\<rparr>"

lemma demo_attached_ok:
  "unconnected False demo_attached" "has_sig EVENTLOG_SOCKET_SIG_ATTACHED (es_init_state demo_attached)"
  "\<not> hk_mutex (es_hooks demo_attached)" "es_sent demo_attached 7 = []" "wb_contents demo_attached = []"
  by (simp_all add: demo_attached_def unconnected_def es_ready_def has_sig_bits sig_bit_simps
      initial_hooks_def)

theorem events_before_first_connection_are_delivered_witness:
  "\<exists>r1 s1 s2 r3 s3.
       run_ops (rts_write_step False) [(demo_write_env (IoBytes 0), [1, 2])] demo_attached = Returns r1 s1
     \<and> connect_client False demo_listen_env 7 s1 = Returns () s2
     \<and> run_ops (stream_step False) [WorkerDrains (demo_drain_env (\<lambda>k. IoBytes 1)) 7,
         RtsWrites (demo_write_env (IoBytes 0)) [3]] s2 = Returns r3 s3
     \<and> es_sent s3 7 @ concat (wb_contents s3) = [1, 2, 3]"
proof -
  let ?before = "[(demo_write_env (IoBytes 0), [1, 2])]"
  let ?after = "[WorkerDrains (demo_drain_env (\<lambda>k. IoBytes 1)) 7, RtsWrites (demo_write_env (IoBytes 0)) [3]]"
  have "le_status demo_listen_env = EVENTLOG_RUNNING" "\<forall>i s. le_other demo_listen_env i s = s"
    by (simp_all add: demo_listen_env_def)
  moreover have "list_all (\<lambda>(env, d). write_env_ok env) ?before" "list_all stream_ok ?after" by simp_all
  ultimately show ?thesis
    using events_before_first_connection_are_delivered [OF demo_attached_ok(1-4) _ demo_listen_env_ok,
        of ?before ?after False] demo_attached_ok(5)
    by (simp del: run_ops.simps)
qed

end
