(* ===== verification/ES_Config.thy ===== *)
theory ES_Config
  imports ES_Status
begin

text \<open>
  Addresses and options (\<open>eventlog_socket.h\<close>) and the functions of \<open>eventlog_socket.c\<close> that
  read them from the environment and free them. The strings of an address are allocated: the
  heap is a finite map from addresses to character arrays, and freeing an address that is not
  live is undefined behaviour (\<open>Crashes\<close>).
\<close>

section \<open>Operations\<close>

text \<open>
  The tagged union \<open>EventlogSocketAddr\<close>; the last constructor is an object whose tag is none
  of the two (for example an uninitialised object).
\<close>

datatype EventlogSocketAddr =
    EVENTLOG_SOCKET_UNIX "nat option"
  | EVENTLOG_SOCKET_INET "nat option" "nat option"
  | EVENTLOG_SOCKET_OTHER int

record EventlogSocketOpts =
  eso_wait :: bool
  eso_sndbuf :: int
  eso_linger :: int

record config =
  cfg_heap :: "nat \<Rightarrow> byte list option"
  cfg_addr :: EventlogSocketAddr
  cfg_opts :: EventlogSocketOpts

text \<open>
  What the system answers: the environment variables (C strings), and for the \<open>k\<close>-th call of
  \<open>malloc\<close> its result and the address it returns.
\<close>

record config_env =
  ce_getenv :: "string \<Rightarrow> byte list option"
  ce_malloc :: "nat \<Rightarrow> malloc_result"
  ce_addr :: "nat \<Rightarrow> nat"

definition EVENTLOG_SOCKET_ENV_UNIX_PATH :: string where
  "EVENTLOG_SOCKET_ENV_UNIX_PATH = ''GHC_EVENTLOG_UNIX_PATH''"
definition EVENTLOG_SOCKET_ENV_INET_HOST :: string where
  "EVENTLOG_SOCKET_ENV_INET_HOST = ''GHC_EVENTLOG_INET_HOST''"
definition EVENTLOG_SOCKET_ENV_INET_PORT :: string where
  "EVENTLOG_SOCKET_ENV_INET_PORT = ''GHC_EVENTLOG_INET_PORT''"
definition EVENTLOG_SOCKET_ENV_WAIT :: string where
  "EVENTLOG_SOCKET_ENV_WAIT = ''GHC_EVENTLOG_WAIT''"

text \<open>The size of \<open>sun_path\<close> (108 on Linux).\<close>

definition get_unix_path_max :: nat where
  "get_unix_path_max = 108"

definition eventlog_socket_opts_init :: "EventlogSocketOpts option \<Rightarrow> EventlogSocketOpts option" where
  "eventlog_socket_opts_init opts =
     (case opts of
        None \<Rightarrow> None
      | Some opts \<Rightarrow> Some (opts\<lparr>eso_wait := False, eso_sndbuf := 0, eso_linger := 0\<rparr>))"

text \<open>\<open>es_strndup\<close> with its allocation: the address of the copy, or \<open>errno\<close>.\<close>

definition strndup_heap ::
  "config_env \<Rightarrow> nat \<Rightarrow> nat \<Rightarrow> byte list \<Rightarrow> config \<Rightarrow> (int + nat) \<times> config" where
  "strndup_heap env k n str s =
     (case es_strndup (ce_malloc env k) n (Some str) of
        Null errno \<Rightarrow> (Inl errno, s)
      | Ptr copy \<Rightarrow> (Inr (ce_addr env k), s\<lparr>cfg_heap := (cfg_heap s)(ce_addr env k \<mapsto> copy)\<rparr>))"

definition free_string :: "nat \<Rightarrow> config \<Rightarrow> (unit, config) outcome" where
  "free_string a s =
     (if cfg_heap s a = None then Crashes
      else Returns () (s\<lparr>cfg_heap := (cfg_heap s)(a := None)\<rparr>))"

text \<open>\<open>if (p != NULL) free(p);\<close>\<close>

definition free_nonnull :: "nat option \<Rightarrow> config \<Rightarrow> (unit, config) outcome" where
  "free_nonnull p s = (case p of None \<Rightarrow> Returns () s | Some a \<Rightarrow> free_string a s)"

definition eventlog_socket_addr_free :: "EventlogSocketAddr option \<Rightarrow> config \<Rightarrow> (unit, config) outcome" where
  "eventlog_socket_addr_free addr s =
     (case addr of
        None \<Rightarrow> Returns () s
      | Some (EVENTLOG_SOCKET_UNIX path) \<Rightarrow> free_nonnull path s
      | Some (EVENTLOG_SOCKET_INET host port) \<Rightarrow>
          call_bind (free_nonnull host s) (\<lambda>_ s. free_nonnull port s)
      | Some (EVENTLOG_SOCKET_OTHER tag) \<Rightarrow> Returns () s)"

definition eventlog_socket_opts_free :: "EventlogSocketOpts option \<Rightarrow> config \<Rightarrow> (unit, config) outcome" where
  "eventlog_socket_opts_free opts s = Returns () s"

text \<open>The last part of \<open>eventlog_socket_from_env\<close>: write the options, if asked for, and return.\<close>

definition from_env_options ::
  "config_env \<Rightarrow> bool \<Rightarrow> EventlogSocketStatusCode \<Rightarrow> config \<Rightarrow> (EventlogSocketStatus, config) outcome"
where
  "from_env_options env opts_out_nonnull status_code s =
     Returns (STATUS_FROM_CODE status_code)
       (if opts_out_nonnull then
          s\<lparr>cfg_opts := (the (eventlog_socket_opts_init (Some (cfg_opts s))))
             \<lparr>eso_wait := ce_getenv env EVENTLOG_SOCKET_ENV_WAIT \<noteq> None\<rparr>\<rparr>
        else s)"

definition eventlog_socket_from_env ::
  "config_env \<Rightarrow> bool \<Rightarrow> bool \<Rightarrow> config \<Rightarrow> (EventlogSocketStatus, config) outcome" where
  "eventlog_socket_from_env env addr_out_nonnull opts_out_nonnull s =
     (if \<not> addr_out_nonnull then Returns (STATUS_FROM_ERRNO EINVAL) s
      else
        (let status_code = EVENTLOG_SOCKET_ERR_ENV_NOADDR
         in case ce_getenv env EVENTLOG_SOCKET_ENV_UNIX_PATH of
              Some unix_path \<Rightarrow>
                (let unix_path_max = get_unix_path_max;
                     unix_path_len = strlen unix_path;
                     status_code = (if unix_path_len > unix_path_max
                                    then EVENTLOG_SOCKET_ERR_ENV_TOOLONG else status_code)
                 in case strndup_heap env 0 unix_path_len unix_path s of
                      (Inl errno, s) \<Rightarrow> Returns (STATUS_FROM_ERRNO errno) s
                    | (Inr unix_path_copy, s) \<Rightarrow>
                        (let s = s\<lparr>cfg_addr := EVENTLOG_SOCKET_UNIX (Some unix_path_copy)\<rparr>;
                             status_code = EVENTLOG_SOCKET_OK
                         in from_env_options env opts_out_nonnull status_code s))
            | None \<Rightarrow>
                (let inet_host = ce_getenv env EVENTLOG_SOCKET_ENV_INET_HOST;
                     inet_port = ce_getenv env EVENTLOG_SOCKET_ENV_INET_PORT;
                     has_inet_host = (inet_host \<noteq> None);
                     has_inet_port = (inet_port \<noteq> None);
                     copy = (\<lambda>k str s.
                       case str of
                         Some str \<Rightarrow> strndup_heap env k (strlen str) str s
                       | None \<Rightarrow> strndup_heap env k 0 [0] s)
                 in if has_inet_host \<or> has_inet_port then
                      (case copy 0 inet_host s of
                         (Inl errno, s) \<Rightarrow> Returns (STATUS_FROM_ERRNO errno) s
                       | (Inr inet_host_copy, s) \<Rightarrow>
                           (case copy 1 inet_port s of
                              (Inl errno, s) \<Rightarrow>
                                call_bind (free_string inet_host_copy s) (\<lambda>_.
                                  Returns (STATUS_FROM_ERRNO errno))
                            | (Inr inet_port_copy, s) \<Rightarrow>
                                (let s = s\<lparr>cfg_addr := EVENTLOG_SOCKET_INET (Some inet_host_copy)
                                              (Some inet_port_copy)\<rparr>;
                                     status_code =
                                       (if \<not> has_inet_host then EVENTLOG_SOCKET_ERR_ENV_NOHOST
                                        else if \<not> has_inet_port then EVENTLOG_SOCKET_ERR_ENV_NOPORT
                                        else EVENTLOG_SOCKET_OK)
                                 in from_env_options env opts_out_nonnull status_code s)))
                    else from_env_options env opts_out_nonnull status_code s)))"

section \<open>Results\<close>

text \<open>The allocator returns unused, different addresses.\<close>

definition config_env_fresh :: "config_env \<Rightarrow> config \<Rightarrow> bool" where
  "config_env_fresh env s \<longleftrightarrow>
     cfg_heap s (ce_addr env 0) = None \<and> cfg_heap s (ce_addr env 1) = None \<and>
     ce_addr env 0 \<noteq> ce_addr env 1"

text \<open>The text of a C string, and the string an address of the heap points to.\<close>

definition c_text :: "byte list \<Rightarrow> byte list" where
  "c_text s = take (strlen s) s"

definition points_to :: "config \<Rightarrow> nat option \<Rightarrow> byte list \<Rightarrow> bool" where
  "points_to s p str \<longleftrightarrow> (\<exists>a. p = Some a \<and> cfg_heap s a = Some (c_text str @ [0]))"

fun addr_is :: "config \<Rightarrow> byte list option \<Rightarrow> byte list option \<Rightarrow> byte list option \<Rightarrow> EventlogSocketAddr \<Rightarrow> bool"
where
  "addr_is s (Some path) host port addr \<longleftrightarrow>
     (case addr of EVENTLOG_SOCKET_UNIX p \<Rightarrow> points_to s p path | _ \<Rightarrow> False)"
| "addr_is s None host port addr \<longleftrightarrow>
     (case addr of
        EVENTLOG_SOCKET_INET h p \<Rightarrow>
          points_to s h (case host of Some x \<Rightarrow> x | None \<Rightarrow> [0]) \<and>
          points_to s p (case port of Some x \<Rightarrow> x | None \<Rightarrow> [0])
      | _ \<Rightarrow> False)"

fun from_env_code ::
  "byte list option \<Rightarrow> byte list option \<Rightarrow> byte list option \<Rightarrow> EventlogSocketStatusCode" where
  "from_env_code (Some path) host port = EVENTLOG_SOCKET_OK"
| "from_env_code None None None = EVENTLOG_SOCKET_ERR_ENV_NOADDR"
| "from_env_code None None (Some port) = EVENTLOG_SOCKET_ERR_ENV_NOHOST"
| "from_env_code None (Some host) None = EVENTLOG_SOCKET_ERR_ENV_NOPORT"
| "from_env_code None (Some host) (Some port) = EVENTLOG_SOCKET_OK"

lemma strndup_heap_ok:
  "ce_malloc env k = MallocOk c \<Longrightarrow>
     strndup_heap env k (strlen str) str s =
       (Inr (ce_addr env k), s\<lparr>cfg_heap := (cfg_heap s)(ce_addr env k \<mapsto> c_text str @ [0])\<rparr>)"
  "ce_malloc env k = MallocOk c \<Longrightarrow>
     strndup_heap env k 0 [0] s =
       (Inr (ce_addr env k), s\<lparr>cfg_heap := (cfg_heap s)(ce_addr env k \<mapsto> [0])\<rparr>)"
  using es_strndup_strlen [of c str]
  by (simp_all add: strndup_heap_def c_text_def es_strndup_def)

lemma strndup_heap_fails:
  "ce_malloc env k = MallocFails e \<Longrightarrow> strndup_heap env k n str s = (Inl e, s)"
  by (simp add: strndup_heap_def es_strndup_def)

text \<open>The \<open>errno\<close> of the first allocation that the configuration needs and that fails, if there is one.\<close>

fun alloc_errno :: "malloc_result \<Rightarrow> int option" where
  "alloc_errno (MallocFails errno) = Some errno"
| "alloc_errno (MallocOk contents) = None"

definition from_env_errno ::
  "config_env \<Rightarrow> byte list option \<Rightarrow> byte list option \<Rightarrow> byte list option \<Rightarrow> int option" where
  "from_env_errno env path host port =
     (if path = None \<and> host = None \<and> port = None then None
      else
        (case alloc_errno (ce_malloc env 0) of
           Some errno \<Rightarrow> Some errno
         | None \<Rightarrow> if path \<noteq> None then None else alloc_errno (ce_malloc env 1)))"

lemma from_env_errno_None:
  assumes "\<forall>k. \<exists>c. ce_malloc env k = MallocOk c"
  shows "from_env_errno env path host port = None"
proof -
  have "alloc_errno (ce_malloc env k) = None" for k
    using assms by (metis alloc_errno.simps(2))
  then show ?thesis by (simp add: from_env_errno_def)
qed

lemma from_env_no_memory:
  assumes "config_env_fresh env s"
    and path: "path = ce_getenv env EVENTLOG_SOCKET_ENV_UNIX_PATH"
    and host: "host = ce_getenv env EVENTLOG_SOCKET_ENV_INET_HOST"
    and port: "port = ce_getenv env EVENTLOG_SOCKET_ENV_INET_PORT"
    and errno: "from_env_errno env path host port = Some errno"
  shows "eventlog_socket_from_env env True opts s = Returns (STATUS_FROM_ERRNO errno) s"
proof (cases "ce_malloc env 0")
  case (MallocFails e)
  with errno path [symmetric] host [symmetric] port [symmetric] show ?thesis
    by (auto simp: eventlog_socket_from_env_def from_env_errno_def strndup_heap_fails Let_def
        split: option.splits if_splits)
next
  case (MallocOk c)
  with errno have e: "path = None" "host \<noteq> None \<or> port \<noteq> None" "ce_malloc env 1 = MallocFails errno"
    by (cases "ce_malloc env 1"; auto simp: from_env_errno_def split: if_splits)+
  have fresh: "cfg_heap s (ce_addr env 0) = None" using assms(1) by (simp add: config_env_fresh_def)
  show ?thesis
    using e path [symmetric] host [symmetric] port [symmetric] fresh
    by (auto simp: eventlog_socket_from_env_def strndup_heap_fails strndup_heap_ok [OF MallocOk]
        free_string_def fun_upd_idem Let_def split: option.splits)
qed

lemma from_env_vars:
  assumes "from_env_errno env path host port = None" "config_env_fresh env s"
    and path: "path = ce_getenv env EVENTLOG_SOCKET_ENV_UNIX_PATH"
    and host: "host = ce_getenv env EVENTLOG_SOCKET_ENV_INET_HOST"
    and port: "port = ce_getenv env EVENTLOG_SOCKET_ENV_INET_PORT"
  shows "\<exists>s'. eventlog_socket_from_env env True opts s = Returns (STATUS_FROM_CODE (from_env_code path host port)) s'
     \<and> (if from_env_code path host port = EVENTLOG_SOCKET_ERR_ENV_NOADDR
        then cfg_addr s' = cfg_addr s \<and> cfg_heap s' = cfg_heap s
        else addr_is s' path host port (cfg_addr s'))
     \<and> cfg_opts s' = (if opts then \<lparr>eso_wait = ce_getenv env EVENTLOG_SOCKET_ENV_WAIT \<noteq> None,
                                  eso_sndbuf = 0, eso_linger = 0\<rparr> else cfg_opts s)"
proof -
  have ne: "ce_addr env 0 \<noteq> ce_addr env 1" using assms(2) by (simp add: config_env_fresh_def)
  show ?thesis
  proof (cases path)
    case None
    have dup: "strndup_heap env 0 (strlen str) str t =
          (Inr (ce_addr env 0), t\<lparr>cfg_heap := (cfg_heap t)(ce_addr env 0 \<mapsto> c_text str @ [0])\<rparr>)"
        "strndup_heap env 0 0 [0] t = (Inr (ce_addr env 0), t\<lparr>cfg_heap := (cfg_heap t)(ce_addr env 0 \<mapsto> [0])\<rparr>)"
        "strndup_heap env 1 (strlen str) str t =
          (Inr (ce_addr env 1), t\<lparr>cfg_heap := (cfg_heap t)(ce_addr env 1 \<mapsto> c_text str @ [0])\<rparr>)"
        "strndup_heap env 1 0 [0] t = (Inr (ce_addr env 1), t\<lparr>cfg_heap := (cfg_heap t)(ce_addr env 1 \<mapsto> [0])\<rparr>)"
      if "host \<noteq> None \<or> port \<noteq> None" for str t
      using assms(1) None that
      by (cases "ce_malloc env 0"; cases "ce_malloc env 1";
          simp add: from_env_errno_def strndup_heap_ok split: if_splits)+
    show ?thesis
      using ne dup None path [symmetric] host [symmetric] port [symmetric]
      by (cases host; cases port)
        (auto simp: eventlog_socket_from_env_def from_env_options_def eventlog_socket_opts_init_def
          points_to_def c_text_def Let_def split: if_splits)
  next
    case (Some str)
    have "strndup_heap env 0 (strlen str) str t =
        (Inr (ce_addr env 0), t\<lparr>cfg_heap := (cfg_heap t)(ce_addr env 0 \<mapsto> c_text str @ [0])\<rparr>)" for t
      using assms(1) Some
      by (cases "ce_malloc env 0") (simp_all add: from_env_errno_def strndup_heap_ok)
    with Some path [symmetric] show ?thesis
      by (auto simp: eventlog_socket_from_env_def from_env_options_def eventlog_socket_opts_init_def
          points_to_def c_text_def Let_def)
  qed
qed

text \<open>C26: \<open>eventlog_socket_from_env\<close> by the variables that are set. If an allocation that it needs
  fails, it returns the system error and everything is unchanged. Otherwise it returns \<open>OK\<close> for a
  Unix path or for a host with a port, \<open>NOHOST\<close> or \<open>NOPORT\<close> when one of the two is missing, and
  \<open>NOADDR\<close> when nothing is set; except in the last case the address points to fresh copies of the
  variables' values (empty strings for missing ones); and the options, if asked for, are the
  defaults with \<open>eso_wait\<close> from the environment. This is the code's behaviour and deviates from
  \<open>eventlog_socket.h:232-237\<close> in two cases: a path that is too long for a socket address should give
  \<open>ERR_ENV_TOOLONG\<close>, but gives \<open>OK\<close> (\<open>too_long_path_is_accepted\<close>); and with \<open>NOADDR\<close> the options
  should be unchanged, but are overwritten.\<close>

theorem from_env_by_variables:
  assumes "config_env_fresh env s"
    and path: "path = ce_getenv env EVENTLOG_SOCKET_ENV_UNIX_PATH"
    and host: "host = ce_getenv env EVENTLOG_SOCKET_ENV_INET_HOST"
    and port: "port = ce_getenv env EVENTLOG_SOCKET_ENV_INET_PORT"
  shows "case from_env_errno env path host port of
       Some errno \<Rightarrow> eventlog_socket_from_env env True opts s = Returns (STATUS_FROM_ERRNO errno) s
     | None \<Rightarrow> \<exists>s'.
         eventlog_socket_from_env env True opts s = Returns (STATUS_FROM_CODE (from_env_code path host port)) s'
       \<and> (if from_env_code path host port = EVENTLOG_SOCKET_ERR_ENV_NOADDR
          then cfg_addr s' = cfg_addr s \<and> cfg_heap s' = cfg_heap s
          else addr_is s' path host port (cfg_addr s'))
       \<and> cfg_opts s' = (if opts then \<lparr>eso_wait = ce_getenv env EVENTLOG_SOCKET_ENV_WAIT \<noteq> None,
                                    eso_sndbuf = 0, eso_linger = 0\<rparr> else cfg_opts s)"
  using from_env_no_memory [OF assms] from_env_vars [OF _ assms]
  by (cases "from_env_errno env path host port") simp_all

definition demo_config :: config where
  "demo_config = \<lparr>cfg_heap = Map.empty, cfg_addr = EVENTLOG_SOCKET_OTHER 7,
                  cfg_opts = \<lparr>eso_wait = False, eso_sndbuf = 3, eso_linger = 4\<rparr>\<rparr>"

definition demo_config_env :: "(string \<Rightarrow> byte list option) \<Rightarrow> config_env" where
  "demo_config_env vars =
     \<lparr>ce_getenv = vars, ce_malloc = (\<lambda>_. MallocOk (\<lambda>_. 0)), ce_addr = (\<lambda>k. 100 + k)\<rparr>"

lemma demo_config_env_ok [simp]:
  "\<forall>k. \<exists>c. ce_malloc (demo_config_env vars) k = MallocOk c"
  "config_env_fresh (demo_config_env vars) demo_config"
  "ce_getenv (demo_config_env vars) = vars"
  "from_env_errno (demo_config_env vars) path host port = None"
  by (simp_all add: demo_config_env_def config_env_fresh_def demo_config_def from_env_errno_def)

theorem from_env_by_variables_witness:
  "\<exists>s'. eventlog_socket_from_env (demo_config_env [EVENTLOG_SOCKET_ENV_INET_HOST \<mapsto> c_string ''a'',
          EVENTLOG_SOCKET_ENV_WAIT \<mapsto> [0]]) True True demo_config =
        Returns (STATUS_FROM_CODE EVENTLOG_SOCKET_ERR_ENV_NOPORT) s'
     \<and> eso_wait (cfg_opts s')"
  using from_env_by_variables [where env = "demo_config_env [EVENTLOG_SOCKET_ENV_INET_HOST \<mapsto> c_string ''a'',
          EVENTLOG_SOCKET_ENV_WAIT \<mapsto> [0]]" and s = demo_config and opts = True, OF _ refl refl refl]
  by (auto simp: EVENTLOG_SOCKET_ENV_INET_HOST_def EVENTLOG_SOCKET_ENV_WAIT_def
      EVENTLOG_SOCKET_ENV_UNIX_PATH_def EVENTLOG_SOCKET_ENV_INET_PORT_def)

lemma from_env_balance:
  assumes "config_env_fresh env s"
  shows "case eventlog_socket_from_env env True opts s of
      Returns status s' \<Rightarrow>
        (if ess_status_code status = EVENTLOG_SOCKET_ERR_SYS \<or>
            ess_status_code status = EVENTLOG_SOCKET_ERR_ENV_NOADDR
         then cfg_heap s' = cfg_heap s \<and> cfg_addr s' = cfg_addr s
         else
           (case eventlog_socket_addr_free (Some (cfg_addr s')) s' of
              Returns _ s'' \<Rightarrow> cfg_heap s'' = cfg_heap s
            | _ \<Rightarrow> False))
    | _ \<Rightarrow> False"
proof -
  note fresh = assms [unfolded config_env_fresh_def]
  have dup: "(\<exists>e. \<forall>n str t. strndup_heap env k n str t = (Inl e, t)) \<or>
      (\<forall>n str t. \<exists>copy. strndup_heap env k n str t =
         (Inr (ce_addr env k), t\<lparr>cfg_heap := (cfg_heap t)(ce_addr env k \<mapsto> copy)\<rparr>))" for k
    by (cases "ce_malloc env k") (auto simp: strndup_heap_def es_strndup_def)
  show ?thesis
    using dup [of 0] dup [of 1]
  proof (elim disjE exE)
    fix e0 e1
    assume "\<forall>n str t. strndup_heap env 0 n str t = (Inl e0, t)"
    then show ?thesis
      by (simp add: eventlog_socket_from_env_def from_env_options_def STATUS_FROM_ERRNO_def
          STATUS_FROM_CODE_def Let_def split: option.splits)
  next
    fix e0
    assume "\<forall>n str t. strndup_heap env 0 n str t = (Inl e0, t)"
    then show ?thesis
      by (simp add: eventlog_socket_from_env_def from_env_options_def STATUS_FROM_ERRNO_def
          STATUS_FROM_CODE_def Let_def split: option.splits)
  next
    fix e1
    assume ok: "\<forall>n str t. \<exists>copy. strndup_heap env 0 n str t =
         (Inr (ce_addr env 0), t\<lparr>cfg_heap := (cfg_heap t)(ce_addr env 0 \<mapsto> copy)\<rparr>)"
      and fail: "\<forall>n str t. strndup_heap env 1 n str t = (Inl e1, t)"
    from ok obtain copy where "\<And>n str t. strndup_heap env 0 n str t =
         (Inr (ce_addr env 0), t\<lparr>cfg_heap := (cfg_heap t)(ce_addr env 0 \<mapsto> copy n str t)\<rparr>)"
      by metis
    with fail fresh show ?thesis
      by (simp add: eventlog_socket_from_env_def from_env_options_def STATUS_FROM_ERRNO_def
          STATUS_FROM_CODE_def free_string_def free_nonnull_def eventlog_socket_addr_free_def Let_def
          fun_upd_idem split: option.splits)
  next
    assume ok: "\<forall>n str t. \<exists>copy. strndup_heap env 0 n str t =
         (Inr (ce_addr env 0), t\<lparr>cfg_heap := (cfg_heap t)(ce_addr env 0 \<mapsto> copy)\<rparr>)"
      "\<forall>n str t. \<exists>copy. strndup_heap env 1 n str t =
         (Inr (ce_addr env 1), t\<lparr>cfg_heap := (cfg_heap t)(ce_addr env 1 \<mapsto> copy)\<rparr>)"
    from ok obtain copy copy' where "\<And>n str t. strndup_heap env 0 n str t =
         (Inr (ce_addr env 0), t\<lparr>cfg_heap := (cfg_heap t)(ce_addr env 0 \<mapsto> copy n str t)\<rparr>)"
      "\<And>n str t. strndup_heap env 1 n str t =
         (Inr (ce_addr env 1), t\<lparr>cfg_heap := (cfg_heap t)(ce_addr env 1 \<mapsto> copy' n str t)\<rparr>)"
      by metis
    with fresh show ?thesis
      by (simp add: eventlog_socket_from_env_def from_env_options_def STATUS_FROM_CODE_def
          free_string_def free_nonnull_def eventlog_socket_addr_free_def Let_def
          fun_upd_twist fun_upd_idem split: option.splits)
  qed
qed

text \<open>C28: \<open>eventlog_socket_from_env\<close> and \<open>eventlog_socket_addr_free\<close> balance their memory, also
  when an allocation fails. If it returns a system error, the heap and the address object are
  what they were; otherwise, if it wrote an address, freeing that address returns (no invalid
  or double free) and leaves the heap as it was before the call.\<close>

theorem from_env_and_free_balance:
  assumes "config_env_fresh env s"
  shows "case eventlog_socket_from_env env True opts s of
      Returns status s' \<Rightarrow>
        (if ess_status_code status = EVENTLOG_SOCKET_ERR_SYS \<or>
            ess_status_code status = EVENTLOG_SOCKET_ERR_ENV_NOADDR
         then cfg_heap s' = cfg_heap s \<and> cfg_addr s' = cfg_addr s
         else
           (case eventlog_socket_addr_free (Some (cfg_addr s')) s' of
              Returns _ s'' \<Rightarrow> cfg_heap s'' = cfg_heap s
            | _ \<Rightarrow> False))
    | _ \<Rightarrow> False"
  using assms by (rule from_env_balance)

text \<open>The status \<open>EVENTLOG_SOCKET_ERR_ENV_TOOLONG\<close> is never returned: a Unix path that is longer
  than a socket address can hold is reported as \<open>OK\<close>.\<close>

theorem too_long_path_is_accepted:
  assumes "ce_getenv env EVENTLOG_SOCKET_ENV_UNIX_PATH = Some path" "strlen path > get_unix_path_max"
    and "ce_malloc env 0 = MallocOk c"
  shows "\<exists>s'. eventlog_socket_from_env env True opts s = Returns STATUS_OK s'
     \<and> (\<forall>env' a o' t t'. eventlog_socket_from_env env' a o' t \<noteq>
          Returns (STATUS_FROM_CODE EVENTLOG_SOCKET_ERR_ENV_TOOLONG) t')"
proof -
  have never: "eventlog_socket_from_env env' a o' t \<noteq>
      Returns (STATUS_FROM_CODE EVENTLOG_SOCKET_ERR_ENV_TOOLONG) t'" for env' a o' t t'
    by (auto simp: eventlog_socket_from_env_def from_env_options_def free_string_def Let_def
        split: option.splits prod.splits sum.splits if_splits)
  show ?thesis
    using never assms
    by (auto simp: eventlog_socket_from_env_def from_env_options_def strndup_heap_ok Let_def)
qed

theorem too_long_path_is_accepted_witness:
  "\<exists>s'. eventlog_socket_from_env
      (demo_config_env [EVENTLOG_SOCKET_ENV_UNIX_PATH \<mapsto> replicate 200 47 @ [0]]) True True demo_config =
      Returns STATUS_OK s'"
  using too_long_path_is_accepted [of "demo_config_env [EVENTLOG_SOCKET_ENV_UNIX_PATH \<mapsto> replicate 200 47 @ [0]]"
      "replicate 200 47 @ [0]" "\<lambda>_. 0" True demo_config]
  by (simp add: strlen_nonzero get_unix_path_max_def) (simp add: demo_config_env_def)

theorem from_env_and_free_balance_witness:
  "case eventlog_socket_from_env (demo_config_env [EVENTLOG_SOCKET_ENV_INET_HOST \<mapsto> c_string ''a''])
        True True demo_config of
      Returns status s' \<Rightarrow>
        (case eventlog_socket_addr_free (Some (cfg_addr s')) s' of
           Returns _ s'' \<Rightarrow> cfg_heap s'' = cfg_heap demo_config
         | _ \<Rightarrow> False)
    | _ \<Rightarrow> False"
proof -
  let ?env = "demo_config_env [EVENTLOG_SOCKET_ENV_INET_HOST \<mapsto> c_string ''a'']"
  have malloc: "ce_malloc (demo_config_env vars) k = MallocOk (\<lambda>_. 0)" for vars k
    by (simp add: demo_config_env_def)
  have "\<exists>s'. eventlog_socket_from_env ?env True True demo_config =
      Returns (STATUS_FROM_CODE EVENTLOG_SOCKET_ERR_ENV_NOPORT) s'"
    by (simp add: eventlog_socket_from_env_def from_env_options_def strndup_heap_ok [OF malloc] Let_def
        EVENTLOG_SOCKET_ENV_INET_HOST_def EVENTLOG_SOCKET_ENV_UNIX_PATH_def
        EVENTLOG_SOCKET_ENV_INET_PORT_def)
  then show ?thesis
    using from_env_and_free_balance [OF demo_config_env_ok(2),
        of "[EVENTLOG_SOCKET_ENV_INET_HOST \<mapsto> c_string ''a'']" True]
    by (auto simp: STATUS_FROM_CODE_def)
qed

end
