(* ===== verification/ES_Socket.thy ===== *)
theory ES_Socket
  imports ES_Connect ES_Config
begin

text \<open>
  Setting up and tearing down the worker (\<open>worker.c\<close>): binding the listening socket, the wake
  pipe, starting the thread, the thread's main loop and its cleanup at exit. The successful
  system calls are recorded in \<open>es_calls\<close>; \<open>open_fds\<close> computes from that record which of the
  descriptors opened here are still open.
\<close>

section \<open>System calls\<close>

definition sys :: "sys_call \<Rightarrow> es_state \<Rightarrow> es_state" where
  "sys c s = s\<lparr>es_calls := es_calls s @ [c]\<rparr>"

fun open_after :: "sys_call \<Rightarrow> int list \<Rightarrow> int list" where
  "open_after (SysSocket fd) fds = fds @ [fd]"
| "open_after (SysPipe a b) fds = fds @ [a, b]"
| "open_after (SysClose fd) fds = remove1 fd fds"
| "open_after _ fds = fds"

definition open_fds :: "es_state \<Rightarrow> int list" where
  "open_fds s = fold open_after (es_calls s) []"

datatype fd_result = FdOk int | FdError int

datatype pipe_result = PipeOk int int | PipeError int

text \<open>\<open>opts != NULL && opts->eso_sndbuf > 0\<close>: the value to set, if any.\<close>

definition opts_sndbuf :: "EventlogSocketOpts option \<Rightarrow> int option" where
  "opts_sndbuf opts =
     (case opts of
        None \<Rightarrow> None
      | Some opts \<Rightarrow> if eso_sndbuf opts > 0 then Some (eso_sndbuf opts) else None)"

definition opts_linger :: "EventlogSocketOpts option \<Rightarrow> int option" where
  "opts_linger opts =
     (case opts of
        None \<Rightarrow> None
      | Some opts \<Rightarrow> if eso_linger opts > 0 then Some (eso_linger opts) else None)"

definition close_listen_fd :: "es_state \<Rightarrow> es_state" where
  "close_listen_fd s = (sys (SysClose (es_listen_fd s)) s)\<lparr>es_listen_fd := -1\<rparr>"

section \<open>The Unix domain socket\<close>

text \<open>The answers: \<open>None\<close> is success, \<open>Some errno\<close> a failure.\<close>

record unix_env =
  ue_socket :: fd_result
  ue_malloc :: malloc_result
  ue_rcvlowat :: "int option"
  ue_sndbuf :: "int option"
  ue_linger :: "int option"
  ue_bind :: "int option"

text \<open>
  One block \<open>if (setsockopt(...) == -1) { ... return STATUS_FROM_ERRNO(); }\<close>, followed by the
  rest of the function.
\<close>

definition setsockopt_or_return ::
  "int option \<Rightarrow> sockopt \<Rightarrow> es_state \<Rightarrow> (es_state \<Rightarrow> (EventlogSocketStatus, es_state) outcome) \<Rightarrow>
   (EventlogSocketStatus, es_state) outcome" where
  "setsockopt_or_return res opt s k =
     (case res of
        Some errno \<Rightarrow> Returns (STATUS_FROM_ERRNO errno) (close_listen_fd s)
      | None \<Rightarrow> k (sys (SysSetsockopt (es_listen_fd s) opt) s))"

text \<open>
  \<open>strncpy\<close> into the zeroed field \<open>sun_path\<close> of 108 bytes; the kernel takes the name up to its
  first NUL.
\<close>

definition sun_path :: "byte list \<Rightarrow> byte list" where
  "sun_path path = strncpy path (get_unix_path_max - 1) @ [0]"

definition es_worker_socket_init_unix ::
  "unix_env \<Rightarrow> byte list option \<Rightarrow> EventlogSocketOpts option \<Rightarrow> es_state \<Rightarrow>
   (EventlogSocketStatus, es_state) outcome" where
  "es_worker_socket_init_unix env esa_unix_path opts s =
     (case ue_socket env of
        FdError errno \<Rightarrow> Returns (STATUS_FROM_ERRNO errno) (s\<lparr>es_listen_fd := -1\<rparr>)
      | FdOk fd \<Rightarrow>
          (let s = sys (SysSocket fd) (s\<lparr>es_listen_fd := fd\<rparr>)
           in case es_strdup (ue_malloc env) esa_unix_path of
                Null errno \<Rightarrow> Returns (STATUS_FROM_ERRNO errno) (s\<lparr>es_sock_path := None\<rparr>)
              | Ptr copy \<Rightarrow>
                  setsockopt_or_return (ue_rcvlowat env) (SO_RCVLOWAT 1) (s\<lparr>es_sock_path := Some copy\<rparr>) (\<lambda>s.
                  (case opts_sndbuf opts of None \<Rightarrow> (\<lambda>k. k s)
                   | Some n \<Rightarrow> setsockopt_or_return (ue_sndbuf env) (SO_SNDBUF n) s) (\<lambda>s.
                  (case opts_linger opts of None \<Rightarrow> (\<lambda>k. k s)
                   | Some n \<Rightarrow> setsockopt_or_return (ue_linger env) (SO_LINGER n) s) (\<lambda>s.
                    (let path = the esa_unix_path;
                         local = sun_path path;
                         s = sys (SysUnlink (c_text path)) s
                     in case ue_bind env of
                          Some errno \<Rightarrow> Returns (STATUS_FROM_ERRNO errno) s
                        | None \<Rightarrow>
                            Returns STATUS_OK
                              (sys (SysBind (es_listen_fd s) (SockUnix (c_text local))) s)))))))"

section \<open>The TCP socket\<close>

text \<open>
  One entry of the list \<open>getaddrinfo\<close> returns, with the answers to the calls made for it. The
  call of \<open>getnameinfo\<close> is only for the debug output.
\<close>

record candidate =
  ai_addr :: nat
  ai_socket :: fd_result
  ai_reuseaddr :: "int option"
  ai_sndbuf :: "int option"
  ai_bind :: "int option"

fun inet_bind_loop :: "EventlogSocketOpts option \<Rightarrow> candidate list \<Rightarrow> es_state \<Rightarrow> es_state" where
  "inet_bind_loop opts [] s = s"
| "inet_bind_loop opts (rp # rps) s =
     (case ai_socket rp of
        FdError errno \<Rightarrow> inet_bind_loop opts rps (s\<lparr>es_listen_fd := -1\<rparr>)
      | FdOk fd \<Rightarrow>
          (let s = sys (SysSocket fd) (s\<lparr>es_listen_fd := fd\<rparr>)
           in if ai_reuseaddr rp \<noteq> None then inet_bind_loop opts rps (close_listen_fd s)
              else
                (let s = sys (SysSetsockopt (es_listen_fd s) (SO_REUSEADDR 1)) s
                 in if opts_sndbuf opts \<noteq> None \<and> ai_sndbuf rp \<noteq> None
                    then inet_bind_loop opts rps (close_listen_fd s)
                    else
                      (let s = (case opts_sndbuf opts of None \<Rightarrow> s
                                | Some n \<Rightarrow> sys (SysSetsockopt (es_listen_fd s) (SO_SNDBUF n)) s)
                       in if ai_bind rp \<noteq> None then inet_bind_loop opts rps (close_listen_fd s)
                          else sys (SysBind (es_listen_fd s) (SockInet (ai_addr rp))) s))))"

text \<open>\<open>ie_getaddrinfo host port\<close>: the return value and the list of results.\<close>

record inet_env =
  ie_getaddrinfo :: "byte list option \<Rightarrow> byte list option \<Rightarrow> int \<times> candidate list"

definition es_worker_socket_init_inet ::
  "inet_env \<Rightarrow> byte list option \<Rightarrow> byte list option \<Rightarrow> EventlogSocketOpts option \<Rightarrow> es_state \<Rightarrow>
   (EventlogSocketStatus, es_state) outcome" where
  "es_worker_socket_init_inet env host port opts s =
     (case ie_getaddrinfo env host port of (rc, res) \<Rightarrow>
        RETURN_ON_ERROR (Returns (STATUS_FROM_GAI_ERROR rc) s) (\<lambda>st. st) (\<lambda>s.
          (let s = inet_bind_loop opts res s
           in if es_listen_fd s = -1 then Returns (STATUS_FROM_ERRNO EAGAIN) s
              else Returns STATUS_OK s)))"

section \<open>Initialising and starting the worker\<close>

record worker_init_env =
  wi_lock :: int
  wi_unlock :: int
  wi_pipe :: pipe_result
  wi_getfl :: "nat \<Rightarrow> int option"
  wi_setfl :: "nat \<Rightarrow> int option"

text \<open>
  The loop that makes the ends of the pipe non-blocking; \<open>Some st\<close>: the function returns \<open>st\<close>
  from inside the loop.
\<close>

fun set_nonblock_loop ::
  "worker_init_env \<Rightarrow> nat \<Rightarrow> int list \<Rightarrow> es_state \<Rightarrow> EventlogSocketStatus option \<times> es_state" where
  "set_nonblock_loop env i [] s = (None, s)"
| "set_nonblock_loop env i (fd # fds) s =
     (case wi_getfl env i of
        Some errno \<Rightarrow> (Some (STATUS_FROM_ERRNO errno), g_unlock (wi_unlock env) s)
      | None \<Rightarrow>
          (case wi_setfl env i of
             Some errno \<Rightarrow> (Some (STATUS_FROM_ERRNO errno), g_unlock (wi_unlock env) s)
           | None \<Rightarrow> set_nonblock_loop env (Suc i) fds (sys (SysSetNonblock fd) s)))"

definition worker_init_pipe ::
  "worker_init_env \<Rightarrow> es_state \<Rightarrow> EventlogSocketStatus option \<times> es_state" where
  "worker_init_pipe env s =
     (case wi_pipe env of
        PipeError errno \<Rightarrow> (Some (STATUS_FROM_ERRNO errno), g_unlock (wi_unlock env) s)
      | PipeOk r w \<Rightarrow>
          (case set_nonblock_loop env 0 [r, w] (sys (SysPipe r w) (s\<lparr>es_wake_pipe := (r, w)\<rparr>)) of
             (Some st, s) \<Rightarrow> (Some st, s)
           | (None, s) \<Rightarrow>
               (None, (sys SysAtexitWorkerCleanup s)
                  \<lparr>es_init_state := es_init_state s OR EVENTLOG_SOCKET_SIG_INITIALIZED\<rparr>)))"

text \<open>
  The pointers in \<open>worker_state\<close> are the addresses of global variables, except for the
  \<open>pthread_t\<close> object.
\<close>

definition es_worker_init ::
  "bool \<Rightarrow> worker_init_env \<Rightarrow> nat option \<Rightarrow> es_state \<Rightarrow> (EventlogSocketStatus, es_state) outcome" where
  "es_worker_init nd env worker_thread s =
     c_assert nd (worker_thread \<noteq> None)
       (let s = s\<lparr>es_worker_thread := worker_thread\<rparr>
        in RETURN_ON_ERROR (call_bind (g_lock (wi_lock env) s) (\<lambda>rc. Returns (STATUS_FROM_PTHREAD rc)))
             (\<lambda>st. st) (\<lambda>s.
             (case (if \<not> has_sig EVENTLOG_SOCKET_SIG_INITIALIZED (es_init_state s)
                    then worker_init_pipe env s else (None, s)) of
                (Some st, s) \<Rightarrow> Returns st s
              | (None, s) \<Rightarrow>
                  RETURN_ON_ERROR (Returns (STATUS_FROM_PTHREAD (wi_unlock env)) (g_unlock (wi_unlock env) s))
                    (\<lambda>st. st) (\<lambda>s. Returns STATUS_OK s))))"

record worker_start_env =
  st_unix :: unix_env
  st_inet :: inet_env
  st_create :: int

text \<open>The strings of an address are read from memory; reading a dangling pointer is undefined.\<close>

definition with_string ::
  "(nat \<Rightarrow> byte list option) \<Rightarrow> nat option \<Rightarrow> (byte list option \<Rightarrow> ('r, 's) outcome) \<Rightarrow> ('r, 's) outcome"
where
  "with_string mem p k =
     (case p of
        None \<Rightarrow> k None
      | Some a \<Rightarrow> (case mem a of None \<Rightarrow> Crashes | Some str \<Rightarrow> k (Some str)))"

definition es_worker_start ::
  "worker_start_env \<Rightarrow> (nat \<Rightarrow> byte list option) \<Rightarrow> EventlogSocketAddr \<Rightarrow> EventlogSocketOpts option \<Rightarrow>
   es_state \<Rightarrow> (EventlogSocketStatus, es_state) outcome" where
  "es_worker_start env mem addr opts s =
     (let create = (\<lambda>s.
            RETURN_ON_ERROR
              (Returns (STATUS_FROM_PTHREAD (st_create env))
                 (if st_create env = 0 then sys SysCreateWorker s else s))
              (\<lambda>st. st) (\<lambda>s. Returns STATUS_OK s))
      in case addr of
           EVENTLOG_SOCKET_UNIX path \<Rightarrow>
             RETURN_ON_ERROR
               (with_string mem path (\<lambda>path. es_worker_socket_init_unix (st_unix env) path opts s))
               (\<lambda>st. st) create
         | EVENTLOG_SOCKET_INET host port \<Rightarrow>
             RETURN_ON_ERROR
               (with_string mem host (\<lambda>host. with_string mem port (\<lambda>port.
                  es_worker_socket_init_inet (st_inet env) host port opts s)))
               (\<lambda>st. st) create
         | EVENTLOG_SOCKET_OTHER tag \<Rightarrow> Returns (STATUS_FROM_ERRNO EINVAL) s)"

section \<open>The worker thread\<close>

text \<open>The main loop; \<open>None\<close>: it runs for ever.\<close>

partial_function (option) es_worker_loop ::
  "bool \<Rightarrow> (nat \<Rightarrow> worker_env) \<Rightarrow> nat \<Rightarrow> es_state \<Rightarrow> (unit, es_state) outcome option" where
  "es_worker_loop nd env k s =
     (case es_worker_step nd (env k) s of
        Returns _ s \<Rightarrow> es_worker_loop nd env (Suc k) s
      | ThreadExits s \<Rightarrow> Some (ThreadExits s)
      | Aborts \<Rightarrow> Some Aborts
      | Crashes \<Rightarrow> Some Crashes
      | Hangs \<Rightarrow> Some Hangs)"

record cleanup_env =
  cl_cancel :: int
  cl_join :: int

text \<open>The handler \<open>atexit\<close> runs; the memory of the \<open>pthread_t\<close> object is not modelled.\<close>

definition es_worker_cleanup :: "cleanup_env \<Rightarrow> es_state \<Rightarrow> (unit, es_state) outcome" where
  "es_worker_cleanup env s =
     (let s = (case es_sock_path s of None \<Rightarrow> s | Some path \<Rightarrow> sys (SysUnlink (c_text path)) s);
          s = (if fst (es_wake_pipe s) \<noteq> -1
               then (sys (SysClose (fst (es_wake_pipe s))) s)\<lparr>es_wake_pipe := (-1, snd (es_wake_pipe s))\<rparr>
               else s);
          s = (if snd (es_wake_pipe s) \<noteq> -1
               then (sys (SysClose (snd (es_wake_pipe s))) s)\<lparr>es_wake_pipe := (fst (es_wake_pipe s), -1)\<rparr>
               else s)
      in Returns ()
           (if es_worker_thread s \<noteq> None then
              (if cl_cancel env \<noteq> 0 then s
               else if cl_join env \<noteq> 0 then sys SysCancelWorker s
               else sys SysJoinWorker (sys SysCancelWorker s))
            else s))"

section \<open>Descriptors\<close>

lemma open_fds_sys [simp]: "open_fds (sys c s) = open_after c (open_fds s)"
  by (simp add: open_fds_def sys_def)

lemma open_fds_es_fields [simp]:
  "open_fds (s\<lparr>es_listen_fd := fd\<rparr>) = open_fds s"
  "open_fds (s\<lparr>es_sock_path := p\<rparr>) = open_fds s"
  "open_fds (s\<lparr>es_wake_pipe := w\<rparr>) = open_fds s"
  "open_fds (s\<lparr>es_init_state := i\<rparr>) = open_fds s"
  "open_fds (s\<lparr>es_mutex := m\<rparr>) = open_fds s"
  "open_fds (s\<lparr>es_worker_thread := t\<rparr>) = open_fds s"
  by (simp_all add: open_fds_def)

lemma sys_fields [simp]:
  "es_calls (sys c s) = es_calls s @ [c]" "es_listen_fd (sys c s) = es_listen_fd s"
  "es_sock_path (sys c s) = es_sock_path s" "es_init_state (sys c s) = es_init_state s"
  "es_mutex (sys c s) = es_mutex s" "es_wake_pipe (sys c s) = es_wake_pipe s"
  "es_worker_thread (sys c s) = es_worker_thread s" "es_hooks (sys c s) = es_hooks s"
  "es_trace (sys c s) = es_trace s" "es_client_fd (sys c s) = es_client_fd s"
  by (simp_all add: sys_def)

lemma remove1_last [simp]: "x \<notin> set xs \<Longrightarrow> remove1 x (xs @ [x]) = xs"
  by (simp add: remove1_append)

lemma close_listen_fd_simps [simp]:
  "es_listen_fd (close_listen_fd s) = -1"
  "open_fds (close_listen_fd s) = remove1 (es_listen_fd s) (open_fds s)"
  by (simp_all add: close_listen_fd_def)

lemma c_text_append_0 [simp]: "0 \<notin> set xs \<Longrightarrow> c_text (xs @ [0]) = xs"
  by (simp add: c_text_def strlen_nonzero)

lemma c_text_nonzero: "0 \<notin> set (c_text path)"
  by (simp add: c_text_def strlen_take_nonzero)

lemma strlen_replicate_0: "strlen (replicate n 0 @ [0]) = 0"
  by (cases n) auto

text \<open>The name that is bound is the path, cut off after 107 bytes.\<close>

lemma c_text_strncpy: "c_text (strncpy path n @ [0]) = take n (c_text path)"
proof (induction path n rule: strncpy.induct)
  case (2 n)
  then show ?case by (simp add: c_text_def)
next
  case (3 c cs n)
  then show ?case by (simp add: c_text_def)
qed (simp add: c_text_def)

lemma c_text_sun_path: "c_text (sun_path path) = take 107 (c_text path)"
  by (simp add: sun_path_def c_text_strncpy get_unix_path_max_def)

lemma length_c_text: "length (c_text path) = strlen path"
  by (simp add: c_text_def strlen_le_length)

section \<open>Binding the socket\<close>

definition opt_calls :: "int \<Rightarrow> ('a \<Rightarrow> sockopt) \<Rightarrow> 'a option \<Rightarrow> sys_call list" where
  "opt_calls fd opt v = (case v of None \<Rightarrow> [] | Some n \<Rightarrow> [SysSetsockopt fd (opt n)])"

text \<open>All system calls for the Unix domain socket succeed, and the socket gets descriptor \<open>fd\<close>.\<close>

definition unix_env_ok :: "int \<Rightarrow> unix_env \<Rightarrow> bool" where
  "unix_env_ok fd env \<longleftrightarrow>
     ue_socket env = FdOk fd \<and> (\<exists>c. ue_malloc env = MallocOk c) \<and> ue_rcvlowat env = None \<and>
     ue_sndbuf env = None \<and> ue_linger env = None \<and> ue_bind env = None"

definition unix_setup_calls :: "int \<Rightarrow> byte list \<Rightarrow> EventlogSocketOpts option \<Rightarrow> sys_call list" where
  "unix_setup_calls fd path opts =
     [SysSocket fd, SysSetsockopt fd (SO_RCVLOWAT 1)]
     @ opt_calls fd SO_SNDBUF (opts_sndbuf opts) @ opt_calls fd SO_LINGER (opts_linger opts)
     @ [SysUnlink (c_text path), SysBind fd (SockUnix (take 107 (c_text path)))]"

lemma unix_socket_ok:
  assumes "unix_env_ok fd env"
  shows "\<exists>s'. es_worker_socket_init_unix env (Some path) opts s = Returns STATUS_OK s'
     \<and> es_listen_fd s' = fd \<and> es_sock_path s' = Some (c_text path @ [0])
     \<and> es_calls s' = es_calls s @ unix_setup_calls fd path opts
     \<and> es_wake_pipe s' = es_wake_pipe s \<and> es_worker_thread s' = es_worker_thread s
     \<and> es_init_state s' = es_init_state s \<and> es_mutex s' = es_mutex s
     \<and> es_hooks s' = es_hooks s \<and> es_trace s' = es_trace s \<and> es_client_fd s' = es_client_fd s"
  using assms
  by (auto simp: es_worker_socket_init_unix_def setsockopt_or_return_def es_strdup_Some opt_calls_def
      unix_env_ok_def unix_setup_calls_def c_text_sun_path c_text_def [symmetric] Let_def
      split: option.splits)

text \<open>C33: when the system calls succeed, the Unix domain socket gets its options in the documented
  order before it is bound, the path is recorded for the removal at exit, and the file at that
  path is removed just before binding. The name bound is the path cut off after 107 bytes: it
  is the path that is removed exactly if the path is not longer than that.\<close>

theorem unix_socket_is_bound:
  assumes "unix_env_ok fd env"
  shows "\<exists>s'. es_worker_socket_init_unix env (Some path) opts s = Returns STATUS_OK s'
     \<and> es_listen_fd s' = fd \<and> es_sock_path s' = Some (c_text path @ [0])
     \<and> es_calls s' = es_calls s @ [SysSocket fd, SysSetsockopt fd (SO_RCVLOWAT 1)]
         @ opt_calls fd SO_SNDBUF (opts_sndbuf opts) @ opt_calls fd SO_LINGER (opts_linger opts)
         @ [SysUnlink (c_text path), SysBind fd (SockUnix (take 107 (c_text path)))]
     \<and> (take 107 (c_text path) = c_text path \<longleftrightarrow> strlen path \<le> 107)"
proof -
  have "take 107 (c_text path) = c_text path \<longleftrightarrow> strlen path \<le> 107"
    by (metis length_c_text length_take min.absorb_iff2 take_all_iff)
  then show ?thesis
    using unix_socket_ok [OF assms, of path opts s] by (auto simp: unix_setup_calls_def)
qed

definition demo_unix_env :: "int option \<Rightarrow> unix_env" where
  "demo_unix_env bind =
     \<lparr>ue_socket = FdOk 5, ue_malloc = MallocOk (\<lambda>_. 0), ue_rcvlowat = None, ue_sndbuf = None,
      ue_linger = None, ue_bind = bind\<rparr>"

definition demo_opts :: EventlogSocketOpts where
  "demo_opts = \<lparr>eso_wait = False, eso_sndbuf = 4096, eso_linger = 0\<rparr>"

theorem unix_socket_is_bound_witness:
  "\<exists>s'. es_worker_socket_init_unix (demo_unix_env None) (Some (replicate 200 47 @ [0])) (Some demo_opts)
         initial_es = Returns STATUS_OK s'
     \<and> SysSetsockopt 5 (SO_SNDBUF 4096) \<in> set (es_calls s')
     \<and> SysBind 5 (SockUnix (replicate 107 47)) \<in> set (es_calls s')"
  using unix_socket_is_bound [of 5 "demo_unix_env None" "replicate 200 47 @ [0]" "Some demo_opts" initial_es]
  by (auto simp: unix_env_ok_def demo_unix_env_def demo_opts_def opts_sndbuf_def opt_calls_def)

text \<open>When setting up the Unix domain socket fails, the descriptor is closed, exactly once, and
  \<open>g_listen_fd\<close> is reset, with two exceptions: if copying the path or binding fails, the socket
  stays open and \<open>g_listen_fd\<close> refers to it.\<close>

theorem unix_setup_failure:
  assumes "\<forall>fd. ue_socket env = FdOk fd \<longrightarrow> fd \<ge> 0 \<and> fd \<notin> set (open_fds s)"
    and "es_worker_socket_init_unix env path opts s = Returns st s'" "st \<noteq> STATUS_OK"
  shows "es_listen_fd s' = -1 \<and> open_fds s' = open_fds s
     \<or> es_listen_fd s' \<ge> 0 \<and> open_fds s' = open_fds s @ [es_listen_fd s']
       \<and> ((\<exists>e. es_strdup (ue_malloc env) path = Null e \<and> st = STATUS_FROM_ERRNO e)
          \<or> (\<exists>e. ue_bind env = Some e \<and> st = STATUS_FROM_ERRNO e))"
  using assms
  by (auto simp: es_worker_socket_init_unix_def setsockopt_or_return_def Let_def
      split: fd_result.splits char_ptr.splits option.splits)

theorem unix_setup_failure_witness:
  "case es_worker_socket_init_unix (demo_unix_env (Some 98)) (Some (c_string ''s'')) None initial_es of
     Returns st s' \<Rightarrow> st = STATUS_FROM_ERRNO 98 \<and> es_listen_fd s' = 5 \<and> open_fds s' = [5]
   | _ \<Rightarrow> False"
proof -
  have open_initial: "open_fds initial_es = []" by (simp add: open_fds_def initial_es_def)
  obtain s' where s': "es_worker_socket_init_unix (demo_unix_env (Some 98)) (Some (c_string ''s'')) None
      initial_es = Returns (STATUS_FROM_ERRNO 98) s'" "es_listen_fd s' = 5"
    by (simp add: es_worker_socket_init_unix_def demo_unix_env_def setsockopt_or_return_def
        es_strdup_Some opts_sndbuf_def opts_linger_def Let_def)
  have "open_fds s' = [5]"
    using unix_setup_failure [OF _ s'(1)] s'(2) by (auto simp: demo_unix_env_def open_initial)
  with s' show ?thesis by simp
qed

text \<open>An address \<open>getaddrinfo\<close> returns is usable if every call for it succeeds.\<close>

definition usable :: "EventlogSocketOpts option \<Rightarrow> candidate \<Rightarrow> bool" where
  "usable opts c \<longleftrightarrow>
     (case ai_socket c of FdOk fd \<Rightarrow> True | FdError e \<Rightarrow> False) \<and> ai_reuseaddr c = None \<and>
     (opts_sndbuf opts \<noteq> None \<longrightarrow> ai_sndbuf c = None) \<and> ai_bind c = None"

definition fresh_sockets :: "candidate list \<Rightarrow> es_state \<Rightarrow> bool" where
  "fresh_sockets cs s \<longleftrightarrow>
     (\<forall>c \<in> set cs. \<forall>fd. ai_socket c = FdOk fd \<longrightarrow> fd \<ge> 0 \<and> fd \<notin> set (open_fds s))"

lemma inet_bind_loop_skip:
  assumes "ai_socket c = FdOk fd" "fd \<notin> set (open_fds s)" "\<not> usable opts c"
  shows "\<exists>t. inet_bind_loop opts (c # cs) s = inet_bind_loop opts cs t \<and> es_listen_fd t = -1 \<and>
     open_fds t = open_fds s"
proof (cases "ai_reuseaddr c")
  case None
  show ?thesis
  proof (cases "opts_sndbuf opts \<noteq> None \<and> ai_sndbuf c \<noteq> None")
    case True
    with None assms show ?thesis
      by (simp add: Let_def) (rule exI, rule conjI, rule refl, simp)
  next
    case False
    with None assms have "ai_bind c \<noteq> None" by (auto simp: usable_def)
    with None False assms show ?thesis
      by (cases "opts_sndbuf opts") (simp_all add: Let_def, (rule exI, rule conjI, rule refl, simp)+)
  qed
next
  case (Some e)
  with assms show ?thesis
    by (simp add: Let_def) (rule exI, rule conjI, rule refl, simp)
qed

lemma inet_bind_loop_result:
  assumes "fresh_sockets cs s"
  shows "case find (usable opts) cs of
      None \<Rightarrow> open_fds (inet_bind_loop opts cs s) = open_fds s \<and>
        es_listen_fd (inet_bind_loop opts cs s) = (if cs = [] then es_listen_fd s else -1)
    | Some c \<Rightarrow> (\<exists>fd. ai_socket c = FdOk fd \<and> fd \<ge> 0 \<and>
        es_listen_fd (inet_bind_loop opts cs s) = fd \<and>
        open_fds (inet_bind_loop opts cs s) = open_fds s @ [fd] \<and>
        last (es_calls (inet_bind_loop opts cs s)) = SysBind fd (SockInet (ai_addr c)))"
  using assms
proof (induction cs arbitrary: s)
  case (Cons c cs)
  have rest: "fresh_sockets cs t" if "open_fds t = open_fds s" for t
    using Cons.prems that by (auto simp: fresh_sockets_def)
  show ?case
  proof (cases "ai_socket c")
    case (FdError e)
    with Cons.IH [OF rest, of "s\<lparr>es_listen_fd := -1\<rparr>"] show ?thesis
      by (auto simp: usable_def split: option.splits)
  next
    case (FdOk fd)
    let ?t = "inet_bind_loop opts (c # cs) s"
    have fd: "fd \<ge> 0" "fd \<notin> set (open_fds s)" using Cons.prems FdOk by (auto simp: fresh_sockets_def)
    show ?thesis
    proof (cases "usable opts c")
      case True
      with FdOk fd show ?thesis by (auto simp: usable_def Let_def split: option.splits)
    next
      case False
      then obtain t where "?t = inet_bind_loop opts cs t" "es_listen_fd t = -1"
        "open_fds t = open_fds s" using inet_bind_loop_skip [OF FdOk fd(2)] by blast
      with Cons.IH [OF rest, of t] False show ?thesis by (auto split: option.splits)
    qed
  qed
qed simp

text \<open>C34: the TCP socket is bound to the first address of \<open>getaddrinfo\<close>'s list for which all calls
  succeed; the sockets opened for the addresses before it are closed again, so that exactly the
  new listening socket stays open. If no address is usable, no descriptor stays open and the
  status is \<open>EAGAIN\<close>; if \<open>getaddrinfo\<close> fails, its error is returned and nothing is opened.\<close>

theorem inet_first_usable_address:
  assumes "ie_getaddrinfo env host port = (rc, cs)" "cs \<noteq> []" "fresh_sockets cs s"
  shows "\<exists>st s'. es_worker_socket_init_inet env host port opts s = Returns st s' \<and>
     (if rc \<noteq> 0 then st = STATUS_FROM_GAI_ERROR rc \<and> s' = s
      else case find (usable opts) cs of
        None \<Rightarrow> st = STATUS_FROM_ERRNO EAGAIN \<and> es_listen_fd s' = -1 \<and> open_fds s' = open_fds s
      | Some c \<Rightarrow> st = STATUS_OK \<and> ai_socket c = FdOk (es_listen_fd s') \<and>
          open_fds s' = open_fds s @ [es_listen_fd s'] \<and>
          last (es_calls s') = SysBind (es_listen_fd s') (SockInet (ai_addr c)))"
  using inet_bind_loop_result [OF assms(3), of opts] assms(1,2)
  by (auto simp: es_worker_socket_init_inet_def Let_def split: option.splits)

definition demo_candidate :: "nat \<Rightarrow> fd_result \<Rightarrow> int option \<Rightarrow> candidate" where
  "demo_candidate a fd bind =
     \<lparr>ai_addr = a, ai_socket = fd, ai_reuseaddr = None, ai_sndbuf = None, ai_bind = bind\<rparr>"

definition demo_candidates :: "candidate list" where
  "demo_candidates =
     [demo_candidate 1 (FdError 97) None, demo_candidate 2 (FdOk 5) (Some 98), demo_candidate 3 (FdOk 5) None]"

lemma open_fds_initial [simp]: "open_fds initial_es = []"
  by (simp add: open_fds_def initial_es_def)

theorem inet_first_usable_address_witness:
  "\<exists>s'. es_worker_socket_init_inet \<lparr>ie_getaddrinfo = (\<lambda>_ _. (0, demo_candidates))\<rparr> None None None
         initial_es = Returns STATUS_OK s'
     \<and> es_listen_fd s' = 5 \<and> open_fds s' = [5] \<and> last (es_calls s') = SysBind 5 (SockInet 3)"
proof -
  have "fresh_sockets demo_candidates initial_es"
    by (simp add: fresh_sockets_def demo_candidates_def demo_candidate_def)
  moreover have "find (usable None) demo_candidates = Some (demo_candidate 3 (FdOk 5) None)"
    by (simp add: demo_candidates_def demo_candidate_def usable_def)
  moreover have "demo_candidates \<noteq> []" by (simp add: demo_candidates_def)
  ultimately show ?thesis
    using inet_first_usable_address [of "\<lparr>ie_getaddrinfo = (\<lambda>_ _. (0, demo_candidates))\<rparr>" None None 0
        demo_candidates initial_es None]
    by (auto simp: demo_candidate_def)
qed

section \<open>Initialising the worker\<close>

lemma has_sig_initialized [simp]:
  "has_sig EVENTLOG_SOCKET_SIG_INITIALIZED (i OR EVENTLOG_SOCKET_SIG_INITIALIZED)"
  by (simp add: has_sig_bits bit_or_iff) (simp add: sig_defs)

definition worker_init_env_ok :: "worker_init_env \<Rightarrow> bool" where
  "worker_init_env_ok env \<longleftrightarrow>
     wi_lock env = 0 \<and> wi_unlock env = 0 \<and> (\<exists>r w. wi_pipe env = PipeOk r w) \<and>
     (\<forall>i. wi_getfl env i = None \<and> wi_setfl env i = None)"

type_synonym worker_init_op = "worker_init_env \<times> nat option"

fun worker_init_step ::
  "bool \<Rightarrow> worker_init_op \<Rightarrow> es_state \<Rightarrow> (EventlogSocketStatus, es_state) outcome" where
  "worker_init_step nd (env, thread) s = es_worker_init nd env thread s"

fun worker_init_op_ok :: "worker_init_op \<Rightarrow> bool" where
  "worker_init_op_ok (env, thread) \<longleftrightarrow> worker_init_env_ok env \<and> thread \<noteq> None"

definition worker_initialised :: "sys_call list \<Rightarrow> int \<times> int \<Rightarrow> es_state \<Rightarrow> bool" where
  "worker_initialised calls wake_pipe s \<longleftrightarrow>
     \<not> es_mutex s \<and> has_sig EVENTLOG_SOCKET_SIG_INITIALIZED (es_init_state s) \<and>
     es_calls s = calls \<and> es_wake_pipe s = wake_pipe"

interpretation winit: total_state_ops "worker_initialised calls wake_pipe" "worker_init_step nd"
    worker_init_op_ok "\<lambda>st. st = STATUS_OK"
  for calls wake_pipe nd
  by unfold_locales
    (auto simp: worker_initialised_def worker_init_env_ok_def es_worker_init_def Let_def)

lemma worker_init_first:
  assumes "\<not> es_mutex s" "\<not> has_sig EVENTLOG_SOCKET_SIG_INITIALIZED (es_init_state s)"
    and "worker_init_env_ok env" "wi_pipe env = PipeOk r w"
  shows "\<exists>s'. es_worker_init nd env (Some thread) s = Returns STATUS_OK s' \<and>
     es_worker_thread s' = Some thread \<and> es_sock_path s' = es_sock_path s \<and>
     es_hooks s' = es_hooks s \<and> es_trace s' = es_trace s \<and> es_client_fd s' = es_client_fd s \<and>
     es_init_state s' = es_init_state s OR EVENTLOG_SOCKET_SIG_INITIALIZED \<and>
     worker_initialised (es_calls s @ [SysPipe r w, SysSetNonblock r, SysSetNonblock w,
       SysAtexitWorkerCleanup]) (r, w) s'"
  using assms
  by (auto simp: worker_initialised_def worker_init_env_ok_def es_worker_init_def worker_init_pipe_def
      Let_def)

text \<open>However often the worker is initialised, its resources are allocated once. If the calls
  succeed, the first initialisation creates the wake pipe, makes both ends non-blocking,
  registers the cleanup handler and records that it has happened; any number of further
  initialisations returns \<open>STATUS_OK\<close>, makes none of these calls and keeps the pipe.\<close>

theorem worker_init_once:
  assumes "\<not> es_mutex s" "\<not> has_sig EVENTLOG_SOCKET_SIG_INITIALIZED (es_init_state s)"
    and "worker_init_env_ok env" "wi_pipe env = PipeOk r w" "list_all worker_init_op_ok later"
  shows "\<exists>rs s'. run_ops (worker_init_step nd) ((env, Some thread) # later) s = Returns rs s'
     \<and> list_all (\<lambda>st. st = STATUS_OK) rs
     \<and> has_sig EVENTLOG_SOCKET_SIG_INITIALIZED (es_init_state s')
     \<and> es_calls s' = es_calls s @ [SysPipe r w, SysSetNonblock r, SysSetNonblock w, SysAtexitWorkerCleanup]
     \<and> es_wake_pipe s' = (r, w)"
proof -
  from worker_init_first [OF assms(1-4), of nd thread] obtain t where t:
    "es_worker_init nd env (Some thread) s = Returns STATUS_OK t"
    "worker_initialised (es_calls s @ [SysPipe r w, SysSetNonblock r, SysSetNonblock w,
       SysAtexitWorkerCleanup]) (r, w) t" by blast
  from winit.run_total [OF t(2) assms(5), of nd] t(1) show ?thesis
    by (auto simp: worker_initialised_def)
qed

definition demo_worker_init_env :: "int option \<Rightarrow> worker_init_env" where
  "demo_worker_init_env setfl =
     \<lparr>wi_lock = 0, wi_unlock = 0, wi_pipe = PipeOk 3 4, wi_getfl = (\<lambda>_. None), wi_setfl = (\<lambda>_. setfl)\<rparr>"

theorem worker_init_once_witness:
  "\<exists>rs s'. run_ops (worker_init_step False)
       [(demo_worker_init_env None, Some 1), (demo_worker_init_env None, Some 2)] initial_es = Returns rs s'
     \<and> rs = [STATUS_OK, STATUS_OK]
     \<and> es_calls s' = [SysPipe 3 4, SysSetNonblock 3, SysSetNonblock 4, SysAtexitWorkerCleanup]"
proof -
  have ok: "worker_init_env_ok (demo_worker_init_env None)" "wi_pipe (demo_worker_init_env None) = PipeOk 3 4"
    by (simp_all add: worker_init_env_ok_def demo_worker_init_env_def)
  have init: "\<not> es_mutex initial_es" "\<not> has_sig EVENTLOG_SOCKET_SIG_INITIALIZED (es_init_state initial_es)"
    "es_calls initial_es = []" by (simp_all add: initial_es_def has_sig_def)
  have later: "list_all worker_init_op_ok [(demo_worker_init_env None, Some 2)]" using ok by simp
  obtain rs s' where r: "run_ops (worker_init_step False)
       [(demo_worker_init_env None, Some 1), (demo_worker_init_env None, Some 2)] initial_es = Returns rs s'"
    "list_all (\<lambda>st. st = STATUS_OK) rs"
    "es_calls s' = [SysPipe 3 4, SysSetNonblock 3, SysSetNonblock 4, SysAtexitWorkerCleanup]"
    using worker_init_once [OF init(1,2) ok later, of False 1] init(3) by auto
  moreover have "length rs = 2" using r(1) by (auto simp: call_bind_Returns_iff)
  ultimately show ?thesis by (auto simp: numeral_2_eq_2 length_Suc_conv)
qed

text \<open>A failing initialisation of the worker can be repeated: if \<open>es_worker_init\<close> returns an error
  although locking and unlocking succeed, the mutex is free, the signal \<open>INITIALIZED\<close> is not set
  and no cleanup handler has been registered. But a pipe it has created stays open.\<close>

theorem worker_init_failure:
  assumes "wi_lock env = 0" "wi_unlock env = 0" "\<not> es_mutex s"
    and "\<not> has_sig EVENTLOG_SOCKET_SIG_INITIALIZED (es_init_state s)"
    and "es_worker_init nd env (Some thread) s = Returns st s'" "st \<noteq> STATUS_OK"
  shows "\<not> es_mutex s' \<and> es_init_state s' = es_init_state s
     \<and> count_list (es_calls s') SysAtexitWorkerCleanup = count_list (es_calls s) SysAtexitWorkerCleanup
     \<and> open_fds s' = open_fds s @
         (case wi_pipe env of PipeOk r w \<Rightarrow> [r, w] | PipeError e \<Rightarrow> [])"
  using assms
  by (auto simp: es_worker_init_def worker_init_pipe_def Let_def split: pipe_result.splits option.splits
      if_splits)

theorem worker_init_failure_witness:
  "\<exists>s'. es_worker_init False (demo_worker_init_env (Some 9)) (Some 1) initial_es =
       Returns (STATUS_FROM_ERRNO 9) s' \<and> \<not> es_mutex s' \<and> open_fds s' = [3, 4]"
proof -
  have init: "\<not> es_mutex initial_es" "\<not> has_sig EVENTLOG_SOCKET_SIG_INITIALIZED (es_init_state initial_es)"
    by (simp_all add: initial_es_def has_sig_def)
  obtain s' where s': "es_worker_init False (demo_worker_init_env (Some 9)) (Some 1) initial_es =
       Returns (STATUS_FROM_ERRNO 9) s'"
    using init by (auto simp: es_worker_init_def worker_init_pipe_def demo_worker_init_env_def Let_def)
  have "wi_lock (demo_worker_init_env (Some 9)) = 0" "wi_unlock (demo_worker_init_env (Some 9)) = 0"
    by (simp_all add: demo_worker_init_env_def)
  from worker_init_failure [OF this init s'] s' show ?thesis
    by (auto simp: demo_worker_init_env_def)
qed

end
