(* ===== verification/ES_ControlLoop.thy ===== *)
theory ES_ControlLoop
  imports ES_ParserLimits ES_Socket
begin

text \<open>
  The main loop of the control thread (\<open>control.c\<close>): it follows the descriptor of the client
  that the worker publishes, waits for input on it and hands every chunk it receives to the
  command parser. The state joins the state shared with the other threads, the variables of
  \<open>control.c\<close> and the receive buffer; \<open>sy_log\<close> records the descriptors the loop has seen and the
  bytes it has received.
\<close>

section \<open>The state\<close>

datatype ctl_event =
    SeesFd int
  | Receives "byte list"

record system =
  sy_es :: es_state
  sy_ctl :: control
  sy_chunk :: "byte list"
  sy_log :: "ctl_event list"

definition CHUNK_SIZE :: nat where
  "CHUNK_SIZE = 256"

definition initial_system :: system where
  "initial_system =
     \<lparr>sy_es = initial_es, sy_ctl = initial_control, sy_chunk = replicate CHUNK_SIZE 0, sy_log = []\<rparr>"

text \<open>Calls of functions that work on one of the two parts of the state.\<close>

definition on_es :: "(es_state \<Rightarrow> ('r, es_state) outcome) \<Rightarrow> system \<Rightarrow> ('r, system) outcome" where
  "on_es f s =
     (case f (sy_es s) of
        Returns r es \<Rightarrow> Returns r (s\<lparr>sy_es := es\<rparr>)
      | ThreadExits es \<Rightarrow> ThreadExits (s\<lparr>sy_es := es\<rparr>)
      | Aborts \<Rightarrow> Aborts
      | Crashes \<Rightarrow> Crashes
      | Hangs \<Rightarrow> Hangs)"

definition on_ctl :: "(control \<Rightarrow> ('r, control) outcome) \<Rightarrow> system \<Rightarrow> ('r, system) outcome" where
  "on_ctl f s =
     (case f (sy_ctl s) of
        Returns r c \<Rightarrow> Returns r (s\<lparr>sy_ctl := c\<rparr>)
      | ThreadExits c \<Rightarrow> ThreadExits (s\<lparr>sy_ctl := c\<rparr>)
      | Aborts \<Rightarrow> Aborts
      | Crashes \<Rightarrow> Crashes
      | Hangs \<Rightarrow> Hangs)"

text \<open>\<open>EXIT_ON_ERROR\<close> in \<open>control.c\<close> stores the status in that file's \<open>g_status\<close>.\<close>

abbreviation control_save :: "EventlogSocketStatus \<Rightarrow> system \<Rightarrow> system" where
  "control_save st s \<equiv> s\<lparr>sy_ctl := (sy_ctl s)\<lparr>ctl_status := st\<rparr>\<rparr>"

text \<open>
  The answers to the calls of one iteration. The other threads run while the mutex is free:
  \<open>ce_other\<close> is what they do before the iteration locks it, and \<open>ce_wait\<close> is the wait on
  \<open>new_connection_cond\<close>, its return value and what the other threads do meanwhile.
\<close>

datatype recv_result =
    Received "byte list"
  | RecvError int

record ctl_env =
  ce_other :: "es_state \<Rightarrow> es_state"
  ce_lock :: int
  ce_wait :: "es_state \<Rightarrow> int \<times> es_state"
  ce_unlock :: int
  ce_poll :: poll_result
  ce_recv :: recv_result
  ce_parse :: "size_t \<Rightarrow> control_env"

definition sy_unlock :: "int \<Rightarrow> system \<Rightarrow> system" where
  "sy_unlock rc s = s\<lparr>sy_es := g_unlock rc (sy_es s)\<rparr>"

definition sy_lock :: "int \<Rightarrow> system \<Rightarrow> (EventlogSocketStatus, system) outcome" where
  "sy_lock rc s = call_bind (on_es (g_lock rc) s) (\<lambda>rc. Returns (STATUS_FROM_PTHREAD rc))"

section \<open>Operations\<close>

definition es_control_fd_reset_to ::
  "bool \<Rightarrow> control_env \<Rightarrow> int \<Rightarrow> control \<Rightarrow> (EventlogSocketStatus, control) outcome" where
  "es_control_fd_reset_to nd env new_control_fd s =
     (let s = s\<lparr>ctl_client_fd := new_control_fd\<rparr>
      in RETURN_ON_ERROR
           (es_control_command_parser_enter_state nd env
             CONTROL_COMMAND_PARSER_STATE_MAGIC None s)
           (\<lambda>st. st) (Returns STATUS_OK))"

text \<open>Waiting for the RTS; \<open>waits k\<close> is the \<open>k\<close>-th wait on \<open>ghc_rts_ready_cond\<close>.\<close>

partial_function (option) control_wait_rts_loop ::
  "(nat \<Rightarrow> es_state \<Rightarrow> int \<times> es_state) \<Rightarrow> int \<Rightarrow> nat \<Rightarrow> es_state \<Rightarrow>
   (EventlogSocketStatus, es_state) outcome option" where
  "control_wait_rts_loop waits unlock k s =
     (if has_sig EVENTLOG_SOCKET_SIG_RTS_READY (es_init_state s) then
        Some (RETURN_ON_ERROR (Returns (STATUS_FROM_PTHREAD unlock) (g_unlock unlock s))
               (\<lambda>st. st) (Returns STATUS_OK))
      else
        (case waits k s of (rc, s) \<Rightarrow>
           if STATUS_IS_ERROR (STATUS_FROM_PTHREAD rc)
           then Some (Returns (STATUS_FROM_PTHREAD rc) (g_unlock unlock s))
           else control_wait_rts_loop waits unlock (Suc k) s))"

definition es_control_wait_ghc_rts_ready ::
  "int \<Rightarrow> (nat \<Rightarrow> es_state \<Rightarrow> int \<times> es_state) \<Rightarrow> int \<Rightarrow> es_state \<Rightarrow>
   (EventlogSocketStatus, es_state) outcome" where
  "es_control_wait_ghc_rts_ready lock waits unlock s =
     RETURN_ON_ERROR (call_bind (g_lock lock s) (\<lambda>rc. Returns (STATUS_FROM_PTHREAD rc))) (\<lambda>st. st) (\<lambda>s.
       case control_wait_rts_loop waits unlock 0 s of None \<Rightarrow> Hangs | Some r \<Rightarrow> r)"

definition es_control_wait_for_connection ::
  "(es_state \<Rightarrow> int \<times> es_state) \<Rightarrow> es_state \<Rightarrow> (EventlogSocketStatus, es_state) outcome" where
  "es_control_wait_for_connection wait s =
     (case wait s of (rc, s) \<Rightarrow>
        RETURN_ON_ERROR (Returns (STATUS_FROM_PTHREAD rc) s) (\<lambda>st. st) (Returns STATUS_OK))"

text \<open>
  The first part of an iteration (\<open>BEGIN: Wake up\<close>): \<open>Some fd\<close> if it goes on with input from
  \<open>fd\<close>, \<open>None\<close> for \<open>continue\<close>.
\<close>

definition control_wake_up :: "bool \<Rightarrow> ctl_env \<Rightarrow> system \<Rightarrow> (int option, system) outcome" where
  "control_wake_up nd env s =
     EXIT_ON_ERROR (sy_lock (ce_lock env) s) control_save (\<lambda>s.
       (let new_control_fd = es_client_fd (sy_es s);
            old_fd = ctl_client_fd (sy_ctl s);
            s = s\<lparr>sy_log := sy_log s @ [SeesFd new_control_fd]\<rparr>;
            unlock = sy_unlock (ce_unlock env);
            release = (\<lambda>r s.
              EXIT_ON_ERROR (Returns (STATUS_FROM_PTHREAD (ce_unlock env)) (unlock s)) control_save
                (Returns r));
            wait = (\<lambda>s.
              EXIT_ON_ERROR_CLEANUP (on_es (es_control_wait_for_connection (ce_wait env)) s)
                control_save unlock (release None));
            reset = (\<lambda>k s.
              EXIT_ON_ERROR_CLEANUP (on_ctl (es_control_fd_reset_to nd (ce_parse env 0) new_control_fd) s)
                control_save unlock k)
        in if old_fd = -1 \<and> new_control_fd = -1 then wait s
           else if old_fd = -1 \<and> new_control_fd \<noteq> -1 then reset (release (Some new_control_fd)) s
           else if old_fd \<noteq> -1 \<and> new_control_fd = -1 then reset wait s
           else if old_fd \<noteq> new_control_fd then reset (release (Some new_control_fd)) s
           else release (Some new_control_fd) s))"

text \<open>The second part (\<open>BEGIN: Wait for input\<close>): whether the descriptor is ready to be read.\<close>

definition control_wait_input :: "bool \<Rightarrow> ctl_env \<Rightarrow> system \<Rightarrow> (bool, system) outcome" where
  "control_wait_input nd env s =
     (case ce_poll env of
        PollError errno \<Rightarrow>
          EXIT_ON_ERROR (Returns (STATUS_FROM_ERRNO errno) s) control_save (Returns True)
      | PollTimeout \<Rightarrow> Returns False s
      | PollReady revents _ \<Rightarrow>
          if rv_POLLNVAL revents \<or> rv_POLLHUP revents \<or> rv_POLLERR revents then Returns False s
          else c_assert nd (rv_POLLIN revents) (Returns True s))"

text \<open>
  The third part (\<open>BEGIN: Handle up to one chunk of input\<close>). \<open>recv\<close> writes the bytes it has
  received to the front of the buffer. A failure with an errno that is not listed falls
  through to the end of the loop's body.
\<close>

definition control_handle_input :: "bool \<Rightarrow> ctl_env \<Rightarrow> system \<Rightarrow> (unit, system) outcome" where
  "control_handle_input nd env s =
     (case ce_recv env of
        RecvError errno \<Rightarrow>
          if errno = EAGAIN \<or> errno = EWOULDBLOCK then Returns () s
          else if errno = ECONNREFUSED \<or> errno = ENOTCONN \<or> errno = ENOTSOCK then Returns () s
          else if errno = EINTR then
            EXIT_ON_ERROR (Returns (STATUS_FROM_ERRNO errno) s) control_save (Returns ())
          else Returns () s
      | Received bytes \<Rightarrow>
          if bytes = [] then Returns () s
          else
            (let chunk = bytes @ drop (length bytes) (sy_chunk s);
                 s = s\<lparr>sy_chunk := chunk, sy_log := sy_log s @ [Receives bytes]\<rparr>
             in EXIT_ON_ERROR
                  (on_ctl (es_control_command_parser_handle_chunk nd (ce_parse env)
                     (of_nat (length bytes)) chunk) s)
                  control_save (Returns ())))"

definition control_iteration :: "bool \<Rightarrow> ctl_env \<Rightarrow> system \<Rightarrow> (unit, system) outcome" where
  "control_iteration nd env s =
     call_bind (control_wake_up nd env (s\<lparr>sy_es := ce_other env (sy_es s)\<rparr>)) (\<lambda>new_control_fd s.
       case new_control_fd of
         None \<Rightarrow> Returns () s
       | Some fd \<Rightarrow>
           c_assert nd (ctl_client_fd (sy_ctl s) = fd)
             (call_bind (control_wait_input nd env s) (\<lambda>is_ready s.
                if is_ready then control_handle_input nd env s else Returns () s)))"

text \<open>The loop of the thread; \<open>None\<close>: it runs for ever.\<close>

partial_function (option) control_loop ::
  "bool \<Rightarrow> (nat \<Rightarrow> ctl_env) \<Rightarrow> nat \<Rightarrow> system \<Rightarrow> (unit, system) outcome option" where
  "control_loop nd env k s =
     (case control_iteration nd (env k) s of
        Returns _ s \<Rightarrow> control_loop nd env (Suc k) s
      | ThreadExits s \<Rightarrow> Some (ThreadExits s)
      | Aborts \<Rightarrow> Some Aborts
      | Crashes \<Rightarrow> Some Crashes
      | Hangs \<Rightarrow> Some Hangs)"

record ctl_start_env =
  cs_lock :: int
  cs_waits :: "nat \<Rightarrow> es_state \<Rightarrow> int \<times> es_state"
  cs_unlock :: int
  cs_iteration :: "nat \<Rightarrow> ctl_env"

definition es_control_loop :: "bool \<Rightarrow> ctl_start_env \<Rightarrow> system \<Rightarrow> (unit, system) outcome" where
  "es_control_loop nd env s =
     EXIT_ON_ERROR
       (on_es (es_control_wait_ghc_rts_ready (cs_lock env) (cs_waits env) (cs_unlock env)) s)
       control_save (\<lambda>s.
       case control_loop nd (cs_iteration env) 0 s of None \<Rightarrow> Hangs | Some r \<Rightarrow> r)"

section \<open>What the loop computes\<close>

text \<open>
  The specification: an automaton over what the loop sees and receives. A change of the
  descriptor restarts the protocol's reference automaton; bytes are given to it.
\<close>

fun log_step ::
  "registry \<Rightarrow> ctl_event \<Rightarrow> int \<times> spec_state \<times> handler_effect list \<Rightarrow>
   (int \<times> spec_state \<times> handler_effect list) option" where
  "log_step reg (SeesFd fd) (view, st, es) = Some (fd, if fd = view then st else SpecMagic 0, es)"
| "log_step reg (Receives bytes) (view, st, es) = map_option (Pair view) (spec_run reg bytes (st, es))"

fun log_run ::
  "registry \<Rightarrow> ctl_event list \<Rightarrow> int \<times> spec_state \<times> handler_effect list \<Rightarrow>
   (int \<times> spec_state \<times> handler_effect list) option" where
  "log_run reg [] v = Some v"
| "log_run reg (e # l) v = (case log_step reg e v of None \<Rightarrow> None | Some v' \<Rightarrow> log_run reg l v')"

lemma log_run_append:
  "log_run reg (l @ l') v = (case log_run reg l v of None \<Rightarrow> None | Some v' \<Rightarrow> log_run reg l' v')"
  by (induction l arbitrary: v) (auto split: option.splits)

definition system_view :: "system \<Rightarrow> int \<times> spec_state \<times> handler_effect list" where
  "system_view s = (ctl_client_fd (sy_ctl s), control_spec (sy_ctl s))"

definition control_ready :: "system \<Rightarrow> bool" where
  "control_ready s \<longleftrightarrow>
     parser_ready (sy_ctl s) \<and> \<not> es_mutex (sy_es s) \<and> length (sy_chunk s) = CHUNK_SIZE"

text \<open>
  The environment's part: locks and waits succeed, the other threads leave the mutex free,
  \<open>poll\<close> reports input when it reports anything but an error or a hangup, \<open>recv\<close> fails only
  in ways the loop survives and returns at most 255 bytes, and memory is available.
\<close>

definition ctl_env_ok :: "ctl_env \<Rightarrow> bool" where
  "ctl_env_ok env \<longleftrightarrow>
     ce_lock env = 0 \<and> ce_unlock env = 0 \<and> (\<forall>s. \<not> es_mutex s \<longrightarrow> \<not> es_mutex (ce_other env s)) \<and>
     (\<forall>s. fst (ce_wait env s) = 0) \<and>
     (case ce_poll env of
        PollError errno \<Rightarrow> False
      | PollTimeout \<Rightarrow> True
      | PollReady r _ \<Rightarrow> rv_POLLIN r \<or> rv_POLLNVAL r \<or> rv_POLLHUP r \<or> rv_POLLERR r) \<and>
     (case ce_recv env of RecvError errno \<Rightarrow> errno \<noteq> EINTR | Received bytes \<Rightarrow> length bytes < CHUNK_SIZE) \<and>
     (\<forall>j. control_env_ok (ce_parse env j))"

lemma sy_lock_ready [simp]:
  "\<not> es_mutex (sy_es s) \<Longrightarrow>
     sy_lock 0 s = Returns (STATUS_FROM_PTHREAD 0) (s\<lparr>sy_es := (sy_es s)\<lparr>es_mutex := True\<rparr>\<rparr>)"
  by (simp add: sy_lock_def on_es_def)

lemma fd_reset_result [simp]:
  "on_ctl (es_control_fd_reset_to nd env fd) s =
     Returns STATUS_OK (s\<lparr>sy_ctl := (sy_ctl s)\<lparr>ctl_client_fd := fd,
       ctl_command_parser_state := STATE_MAGIC 0\<rparr>\<rparr>)"
  by (simp add: on_ctl_def es_control_fd_reset_to_def)

lemma parser_ready_reset [simp]:
  "parser_ready s \<Longrightarrow> parser_ready (s\<lparr>ctl_client_fd := fd, ctl_command_parser_state := STATE_MAGIC 0\<rparr>)"
  by (simp add: parser_ready_def registry_ready_def registry_inv_def handlers_set_def CONTROL_MAGIC_LEN_def)

text \<open>The state shared with the other threads after a wait on \<open>new_connection_cond\<close>.\<close>

definition waited :: "ctl_env \<Rightarrow> es_state \<Rightarrow> es_state" where
  "waited env es = (snd (ce_wait env (es\<lparr>es_mutex := True\<rparr>)))\<lparr>es_mutex := False\<rparr>"

text \<open>The effect of waking up on the parts of the state the specification is about.\<close>

lemma control_wake_up_ok:
  assumes "control_ready s" "ce_lock env = 0" "ce_unlock env = 0" "\<forall>s. fst (ce_wait env s) = 0"
  defines "fd \<equiv> es_client_fd (sy_es s)"
  shows "\<exists>s'. control_wake_up nd env s = Returns (if fd = -1 then None else Some fd) s'
     \<and> control_ready s' \<and> sy_log s' = sy_log s @ [SeesFd fd]
     \<and> sy_ctl s' = (if fd = ctl_client_fd (sy_ctl s) then sy_ctl s
          else (sy_ctl s)\<lparr>ctl_client_fd := fd, ctl_command_parser_state := STATE_MAGIC 0\<rparr>)
     \<and> sy_es s' = (if fd = -1 then waited env (sy_es s) else sy_es s)"
proof -
  have wait: "on_es (es_control_wait_for_connection (ce_wait env)) t =
      Returns STATUS_OK (t\<lparr>sy_es := snd (ce_wait env (sy_es t))\<rparr>)" for t
    using assms(4) [rule_format, of "sy_es t"]
    by (cases "ce_wait env (sy_es t)") (simp add: on_es_def es_control_wait_for_connection_def)
  have id: "(sy_es s)\<lparr>es_mutex := False\<rparr> = sy_es s" using assms(1) by (simp add: control_ready_def)
  from assms(1-3) wait show ?thesis
    by (auto simp: control_wake_up_def Let_def sy_unlock_def control_ready_def fd_def waited_def id)
qed

text \<open>The parser does not touch the loop's view of the descriptor.\<close>

abbreviation keeps_fd :: "int \<Rightarrow> control \<Rightarrow> bool" where
  "keeps_fd fd s \<equiv> ctl_client_fd s = fd"

lemma registry_keeps_fd [keep_rules]:
  "keeps_fd fd s \<Longrightarrow> returns_with (keeps_fd fd) (registry_lock env s)"
  "keeps_fd fd s \<Longrightarrow> returns_with (keeps_fd fd) (registry_unlock env s)"
  by (simp_all add: registry_lock_def registry_unlock_def registry_unlock_ignored_def)

lemma enter_state_keeps_fd [keep_rules]:
  "keeps_fd fd s \<Longrightarrow> returns_with (keeps_fd fd) (es_control_command_parser_enter_state nd env tag d s)"
  by (auto simp: es_control_command_parser_enter_state_def intro!: keep_rules
      split: ControlCommandParserStateTag.splits option.splits malloc_result.splits)

lemma commands_keep_fd [keep_rules]:
  "keeps_fd fd s \<Longrightarrow> returns_with (keeps_fd fd) (es_control_namespace_store_resolve env n name s)"
  "keeps_fd fd s \<Longrightarrow> returns_with (keeps_fd fd) (es_control_command_handle nd env p cid s)"
  by (auto simp: es_control_namespace_store_resolve_def es_control_command_handle_def Let_def
      intro!: keep_rules split: option.splits)

lemma parse_keeps_fd [keep_rules]:
  assumes "keeps_fd fd s"
  shows "returns_with (keeps_fd fd) (parse_magic nd env hp b i s)"
    and "returns_with (keeps_fd fd) (parse_namespace_len nd env b i s)"
    and "returns_with (keeps_fd fd) (parse_protocol_version nd env b i s)"
    and "returns_with (keeps_fd fd) (parse_command_id nd env ns b i s)"
    and "returns_with (keeps_fd fd) (parse_namespace nd env len pos buf n chunk i s)"
proof -
  have len: "returns_with (keeps_fd fd) (parse_namespace_len nd env b i s)"
    if "keeps_fd fd s" for fd b s
    using that by (auto simp: parse_namespace_len_def intro!: keep_rules)
  show "returns_with (keeps_fd fd) (parse_namespace_len nd env b i s)" by (rule len) (rule assms)
  show "returns_with (keeps_fd fd) (parse_magic nd env hp b i s)"
    using assms by (auto simp: parse_magic_def Let_def intro!: keep_rules)
  show "returns_with (keeps_fd fd) (parse_protocol_version nd env b i s)"
    using assms by (auto simp: parse_protocol_version_def intro!: keep_rules len)
  show "returns_with (keeps_fd fd) (parse_command_id nd env ns b i s)"
    using assms by (auto simp: parse_command_id_def intro!: keep_rules split: option.splits)
  show "returns_with (keeps_fd fd) (parse_namespace nd env len pos buf n chunk i s)"
    using assms
    by (auto simp: parse_namespace_def Let_def intro!: keep_rules split: option.splits)
qed

lemma handle_chunk_loop_keeps_fd:
  assumes "handle_chunk_loop nd env n chunk i s = Some m"
  shows "returns_with (keeps_fd (ctl_client_fd s)) m"
proof (rule handle_chunk_loop.raw_induct
    [where P = "\<lambda>nd env n chunk i s. returns_with (keeps_fd (ctl_client_fd s))", OF _ assms], goal_cases)
  case (1 loop nd env n chunk i s m)
  have "returns_with (keeps_fd (ctl_client_fd s)) (handle_chunk_round nd (env i) n chunk i s)"
    by (auto simp: handle_chunk_round_def Let_def intro!: keep_rules split: ControlCommandParserState.splits)
  with 1 show ?case
    by (cases "handle_chunk_round nd (env i) n chunk i s") (fastforce split: if_splits sum.splits)+
qed

text \<open>What one iteration adds to the log, after it has seen a descriptor that is not -1.\<close>

definition input_ready :: "ctl_env \<Rightarrow> bool" where
  "input_ready env \<longleftrightarrow>
     (case ce_poll env of
        PollReady r _ \<Rightarrow> \<not> (rv_POLLNVAL r \<or> rv_POLLHUP r \<or> rv_POLLERR r)
      | _ \<Rightarrow> False)"

definition received_by :: "ctl_env \<Rightarrow> byte list" where
  "received_by env =
     (if input_ready env then (case ce_recv env of Received bytes \<Rightarrow> bytes | RecvError errno \<Rightarrow> []) else [])"

definition receives_log :: "byte list \<Rightarrow> ctl_event list" where
  "receives_log bytes = (if bytes = [] then [] else [Receives bytes])"

text \<open>One chunk, in terms of the view.\<close>

lemma control_handle_input_ok:
  assumes "control_ready s" "ctl_env_ok env"
    and "l = receives_log (case ce_recv env of Received bytes \<Rightarrow> bytes | RecvError errno \<Rightarrow> [])"
  shows "\<exists>s'. control_handle_input nd env s = Returns () s' \<and> control_ready s'
     \<and> ctl_namespace_registry (sy_ctl s') = ctl_namespace_registry (sy_ctl s)
     \<and> sy_log s' = sy_log s @ l \<and> sy_es s' = sy_es s
     \<and> (\<forall>v. log_run (ctl_namespace_registry (sy_ctl s)) l (system_view s) = Some v \<longrightarrow> system_view s' = v)"
proof -
  have skip: ?thesis if "control_handle_input nd env s = Returns () s" "l = []"
    using that assms(1) by simp
  show ?thesis
  proof (cases "ce_recv env")
    case (RecvError errno)
    then show ?thesis using skip assms(2,3) by (auto simp: control_handle_input_def ctl_env_ok_def receives_log_def)
  next
    case (Received bytes)
    show ?thesis
    proof (cases "bytes = []")
      case True
      then show ?thesis using skip Received assms(3) by (auto simp: control_handle_input_def receives_log_def)
    next
      case False
      let ?n = "of_nat (length bytes) :: size_t" and ?chunk = "bytes @ drop (length bytes) (sy_chunk s)"
      let ?c = "sy_ctl s"
      have len: "length bytes < 256" "unat ?n = length bytes"
        using assms(2) Received by (auto simp: ctl_env_ok_def CHUNK_SIZE_def unat_of_nat)
      have env: "\<forall>j. control_env_ok (ce_parse env j)" and ready: "parser_ready ?c"
        using assms by (simp_all add: ctl_env_ok_def control_ready_def)
      have "chunk_safe ?n 0 ?c" using len by (simp add: chunk_safe_def)
      from handle_chunk_post [OF ready env _ this, of ?chunk nd] len(2) obtain c' where c':
        "es_control_command_parser_handle_chunk nd (ce_parse env) ?n ?chunk ?c = Returns STATUS_OK c'"
        "parser_ready c'" "ctl_namespace_registry c' = ctl_namespace_registry ?c"
        "refines_from ?c (take (unat ?n) ?chunk) c' []" by auto
      obtain m where m: "handle_chunk_loop nd (ce_parse env) ?n ?chunk 0 ?c = Some m"
        "m = Returns STATUS_OK c'"
        using c'(1) by (auto simp: es_control_command_parser_handle_chunk_def split: option.splits)
      have fd: "ctl_client_fd c' = ctl_client_fd ?c"
        using handle_chunk_loop_keeps_fd [OF m(1)] m(2) by simp
      have take: "take (unat ?n) ?chunk = bytes" using len(2) by simp
      have spec: "control_spec c' = t"
        if "spec_run (ctl_namespace_registry ?c) bytes (control_spec ?c) = Some t" for t
        using c'(4) that unfolding refines_from_def take by simp
      let ?s' = "s\<lparr>sy_chunk := ?chunk, sy_log := sy_log s @ [Receives bytes], sy_ctl := c'\<rparr>"
      have "control_handle_input nd env s = Returns () ?s'"
        using Received False c'(1) by (simp add: control_handle_input_def on_ctl_def Let_def)
      moreover have "control_ready ?s'"
        using assms(1) c'(2) len(1) by (simp add: control_ready_def CHUNK_SIZE_def)
      moreover have "system_view ?s' = v"
        if "log_run (ctl_namespace_registry ?c) [Receives bytes] (system_view s) = Some v" for v
        using that spec fd by (cases "control_spec ?c") (auto simp: system_view_def split: option.splits)
      moreover have "l = [Receives bytes]" using assms(3) Received False by (simp add: receives_log_def)
      ultimately show ?thesis using c'(3) by (intro exI [of _ ?s']) auto
    qed
  qed
qed

lemma control_wait_input_ok:
  assumes "ctl_env_ok env"
  shows "control_wait_input nd env s = Returns (input_ready env) s"
  using assms
  by (auto simp: ctl_env_ok_def control_wait_input_def input_ready_def split: poll_result.splits)

definition iteration_log :: "ctl_env \<Rightarrow> es_state \<Rightarrow> ctl_event list" where
  "iteration_log env es =
     (let fd = es_client_fd (ce_other env es)
      in SeesFd fd # (if fd = -1 then [] else receives_log (received_by env)))"

text \<open>
  What the environments of a number of iterations say about the log, without the code: the
  descriptors published by the other threads, and what \<open>recv\<close> delivers when there is a client and
  \<open>poll\<close> reports input. When there is none, the iteration waits.
\<close>

definition after_iteration :: "ctl_env \<Rightarrow> es_state \<Rightarrow> es_state" where
  "after_iteration env es =
     (let es = ce_other env es in if es_client_fd es = -1 then waited env es else es)"

fun iterations_log :: "ctl_env list \<Rightarrow> es_state \<Rightarrow> ctl_event list" where
  "iterations_log [] es = []"
| "iterations_log (env # envs) es = iteration_log env es @ iterations_log envs (after_iteration env es)"

lemma control_iteration_ok:
  assumes "control_ready s" "ctl_env_ok env"
  defines "l \<equiv> iteration_log env (sy_es s)"
  shows "\<exists>s'. control_iteration nd env s = Returns () s' \<and> control_ready s'
     \<and> ctl_namespace_registry (sy_ctl s') = ctl_namespace_registry (sy_ctl s)
     \<and> sy_log s' = sy_log s @ l \<and> sy_es s' = after_iteration env (sy_es s)
     \<and> (\<forall>v. log_run (ctl_namespace_registry (sy_ctl s)) l (system_view s) = Some v \<longrightarrow> system_view s' = v)"
proof -
  let ?s0 = "s\<lparr>sy_es := ce_other env (sy_es s)\<rparr>" and ?reg = "ctl_namespace_registry (sy_ctl s)"
  let ?fd = "es_client_fd (sy_es ?s0)"
  have env: "ce_lock env = 0" "ce_unlock env = 0" "\<forall>s. fst (ce_wait env s) = 0"
    using assms(2) by (simp_all add: ctl_env_ok_def)
  have ready0: "control_ready ?s0" using assms(1,2) by (simp add: control_ready_def ctl_env_ok_def)
  from control_wake_up_ok [OF ready0 env, of nd] obtain s1 where s1:
    "control_wake_up nd env ?s0 = Returns (if ?fd = -1 then None else Some ?fd) s1"
    "control_ready s1" "sy_log s1 = sy_log s @ [SeesFd ?fd]"
    "sy_ctl s1 = (if ?fd = ctl_client_fd (sy_ctl s) then sy_ctl s
       else (sy_ctl s)\<lparr>ctl_client_fd := ?fd, ctl_command_parser_state := STATE_MAGIC 0\<rparr>)"
    "sy_es s1 = after_iteration env (sy_es s)" by (auto simp: after_iteration_def Let_def)
  have reg1: "ctl_namespace_registry (sy_ctl s1) = ?reg" "ctl_client_fd (sy_ctl s1) = ?fd"
    using s1(4) by simp_all
  have view1: "log_step ?reg (SeesFd ?fd) (system_view s) = Some (system_view s1)"
    using s1(4) by (simp add: system_view_def control_spec_def)
  have stop: ?thesis if "control_iteration nd env s = Returns () s1" "l = [SeesFd ?fd]"
    using that s1(2,3,5) reg1(1) view1 by auto
  show ?thesis
  proof (cases "?fd \<noteq> -1 \<and> input_ready env")
    case False
    then show ?thesis using stop s1(1) reg1(2) control_wait_input_ok [OF assms(2), of nd s1]
      by (auto simp: control_iteration_def l_def iteration_log_def received_by_def receives_log_def)
  next
    case True
    let ?l = "receives_log (received_by env)"
    have "?l = receives_log (case ce_recv env of Received bytes \<Rightarrow> bytes | RecvError errno \<Rightarrow> [])"
      using True by (simp add: received_by_def)
    from control_handle_input_ok [OF s1(2) assms(2) this, of nd] obtain s2 where s2:
      "control_handle_input nd env s1 = Returns () s2" "control_ready s2"
      "ctl_namespace_registry (sy_ctl s2) = ?reg" "sy_log s2 = sy_log s1 @ ?l"
      "sy_es s2 = sy_es s1"
      "\<forall>v. log_run ?reg ?l (system_view s1) = Some v \<longrightarrow> system_view s2 = v" using reg1(1) by auto
    have "control_iteration nd env s = Returns () s2"
      using True s1(1) control_wait_input_ok [OF assms(2), of nd s1] reg1(2) s2(1)
      by (simp add: control_iteration_def)
    moreover have "l = SeesFd ?fd # ?l" using True by (simp add: l_def iteration_log_def)
    ultimately show ?thesis using s2 s1(3,5) view1 by auto
  qed
qed

text \<open>The invariant of a run that has started with the log \<open>l0\<close> and the view \<open>v0\<close>.\<close>

definition control_follows ::
  "registry \<Rightarrow> ctl_event list \<Rightarrow> int \<times> spec_state \<times> handler_effect list \<Rightarrow> system \<Rightarrow> bool" where
  "control_follows reg l0 v0 s \<longleftrightarrow>
     control_ready s \<and> ctl_namespace_registry (sy_ctl s) = reg \<and>
     (\<exists>l. sy_log s = l0 @ l \<and> (\<forall>v. log_run reg l v0 = Some v \<longrightarrow> system_view s = v))"

interpretation control_thread: refining_ops "control_follows reg l0 v0" "control_iteration nd"
    ctl_env_ok "\<lambda>_. True" "\<lambda>s. (sy_es s, sy_log s)"
    "\<lambda>env (es, l). Some (after_iteration env es, l @ iteration_log env es)"
  for reg l0 v0 nd
proof
  fix s env
  assume s: "control_follows reg l0 v0 s" "ctl_env_ok env"
  then obtain l where l: "sy_log s = l0 @ l" "\<forall>v. log_run reg l v0 = Some v \<longrightarrow> system_view s = v"
    "control_ready s" "ctl_namespace_registry (sy_ctl s) = reg" by (auto simp: control_follows_def)
  let ?l' = "iteration_log env (sy_es s)"
  from control_iteration_ok [OF l(3) s(2), of nd] l(4) obtain s' where s':
    "control_iteration nd env s = Returns () s'" "control_ready s'"
    "ctl_namespace_registry (sy_ctl s') = reg" "sy_log s' = sy_log s @ ?l'"
    "\<forall>v. log_run reg ?l' (system_view s) = Some v \<longrightarrow> system_view s' = v"
    "sy_es s' = after_iteration env (sy_es s)" by auto
  have "system_view s' = v" if "log_run reg (l @ ?l') v0 = Some v" for v
  proof -
    from that obtain w where "log_run reg l v0 = Some w" "log_run reg ?l' w = Some v"
      by (auto simp: log_run_append split: option.splits)
    with l(2) s'(5) show ?thesis by simp
  qed
  with s' l(1) show "\<exists>r s'. control_iteration nd env s = Returns r s' \<and> True \<and> control_follows reg l0 v0 s'"
    by (auto simp: control_follows_def)
  fix r t a
  assume "control_iteration nd env s = Returns r t"
    and "(case (sy_es s, sy_log s) of (es, l) \<Rightarrow> Some (after_iteration env es, l @ iteration_log env es)) = Some a"
  with s'(1,4,6) show "(sy_es t, sy_log t) = a" by simp
qed

lemma run_abstract_log:
  "run_abstract (\<lambda>env (es, l). Some (after_iteration env es, l @ iteration_log env es)) envs (es, l) =
     Some (fold after_iteration envs es, l @ iterations_log envs es)"
  by (induction envs arbitrary: es l) simp_all

lemma control_run:
  assumes "control_ready s" "list_all ctl_env_ok envs"
  defines "l \<equiv> iterations_log envs (sy_es s)"
  shows "\<exists>rs s'. run_ops (control_iteration nd) envs s = Returns rs s' \<and> control_ready s'
     \<and> ctl_namespace_registry (sy_ctl s') = ctl_namespace_registry (sy_ctl s) \<and> sy_log s' = sy_log s @ l
     \<and> (\<forall>v. log_run (ctl_namespace_registry (sy_ctl s)) l (system_view s) = Some v \<longrightarrow> system_view s' = v)"
proof -
  let ?reg = "ctl_namespace_registry (sy_ctl s)"
  have "control_follows ?reg (sy_log s) (system_view s) s"
    using assms(1) by (auto simp: control_follows_def)
  from control_thread.run_refines [OF this assms(2) run_abstract_log, of nd] show ?thesis
    unfolding l_def control_follows_def by fastforce
qed

text \<open>The loop performs the iterations one after the other.\<close>

lemma control_loop_unroll:
  "run_ops (control_iteration nd) (map env [k..<k + n]) s = Returns rs s' \<Longrightarrow>
     control_loop nd env k s = control_loop nd env (k + n) s'"
proof (induction n arbitrary: k s rs)
  case (Suc n)
  from Suc.prems have "run_ops (control_iteration nd) (env k # map env [Suc k..<Suc k + n]) s = Returns rs s'"
    by (simp add: upt_conv_Cons del: upt_Suc)
  then obtain t rs' where t: "control_iteration nd (env k) s = Returns () t"
    "run_ops (control_iteration nd) (map env [Suc k..<Suc k + n]) t = Returns rs' s'"
    by (auto simp: call_bind_Returns_iff)
  from Suc.IH [OF t(2)] t(1) show ?case by (subst control_loop.simps) simp
qed simp

text \<open>C11: the control thread keeps running and follows the clients. Under the environment's
  assumptions (\<open>ctl_env_ok\<close>: locks, waits and \<open>poll\<close> succeed, memory is available, no more than 255
  bytes are received at once), any number of iterations return. What
  the thread sees and receives is determined by the environments alone (\<open>iterations_log\<close>): the
  descriptor published by the other threads before each iteration and the bytes of every \<open>recv\<close>
  when there is a client and \<open>poll\<close> reports input. Whenever the specification automaton accepts
  this log (it rejects only unknown namespaces), the thread's view of the descriptor, the parser's
  state and the handlers called are the automaton's: a descriptor number other than the one seen
  before restarts the parser, so the bytes of clients with different numbers never mix. The thread
  compares numbers only: a client that gets its predecessor's number without the thread seeing -1
  in between continues its message (\<open>same_descriptor_joins_messages\<close>).\<close>

theorem control_thread_follows_clients:
  assumes "control_ready s" "list_all ctl_env_ok envs"
  shows "\<exists>rs s'. run_ops (control_iteration nd) envs s = Returns rs s' \<and> control_ready s'
     \<and> ctl_namespace_registry (sy_ctl s') = ctl_namespace_registry (sy_ctl s)
     \<and> sy_log s' = sy_log s @ iterations_log envs (sy_es s)
     \<and> (\<forall>v. log_run (ctl_namespace_registry (sy_ctl s)) (iterations_log envs (sy_es s)) (system_view s) = Some v \<longrightarrow>
          system_view s' = v)"
  using assms by (rule control_run)

definition demo_ctl_env :: "(es_state \<Rightarrow> es_state) \<Rightarrow> recv_result \<Rightarrow> ctl_env" where
  "demo_ctl_env other recv =
     \<lparr>ce_other = other, ce_lock = 0, ce_wait = (\<lambda>s. (0, s)), ce_unlock = 0,
      ce_poll = PollReady (no_revents\<lparr>rv_POLLIN := True\<rparr>) no_revents, ce_recv = recv,
      ce_parse = (\<lambda>_. demo_control_env)\<rparr>"

lemma demo_ctl_env_simps [simp]:
  "ce_other (demo_ctl_env other recv) = other"
  "received_by (demo_ctl_env other (Received bytes)) = bytes"
  "received_by (demo_ctl_env other (RecvError errno)) = []"
  "input_ready (demo_ctl_env other recv)"
  by (simp_all add: demo_ctl_env_def received_by_def input_ready_def no_revents_def)

lemma demo_ctl_env_ok [simp]:
  "(\<forall>s. \<not> es_mutex s \<longrightarrow> \<not> es_mutex (other s)) \<Longrightarrow> length bytes < 256 \<Longrightarrow>
     ctl_env_ok (demo_ctl_env other (Received bytes))"
  by (simp add: demo_ctl_env_def ctl_env_ok_def CHUNK_SIZE_def)

lemma control_ready_initial [simp]: "control_ready initial_system"
  by (simp add: control_ready_def initial_system_def initial_es_def)

lemma initial_system_ctl [simp]: "sy_ctl initial_system = initial_control"
  by (simp add: initial_system_def)

definition set_client :: "int \<Rightarrow> es_state \<Rightarrow> es_state" where
  "set_client fd es = es\<lparr>es_client_fd := fd\<rparr>"

lemma set_client_simps [simp]:
  "es_client_fd (set_client fd es) = fd" "es_mutex (set_client fd es) = es_mutex es"
  by (simp_all add: set_client_def)

theorem control_thread_follows_clients_witness:
  "\<exists>rs s'. run_ops (control_iteration False) [demo_ctl_env (set_client 7) (Received [0xF0, 0x9E]),
       demo_ctl_env (set_client 8) (Received [0x97])] initial_system = Returns rs s' \<and> control_ready s'
     \<and> sy_log s' = [SeesFd 7, Receives [0xF0, 0x9E], SeesFd 8, Receives [0x97]]"
  using control_thread_follows_clients [OF control_ready_initial,
      of "[demo_ctl_env (set_client 7) (Received [0xF0, 0x9E]), demo_ctl_env (set_client 8) (Received [0x97])]"
      False]
  by (fastforce simp: iteration_log_def receives_log_def initial_system_def)

section \<open>One client\<close>

text \<open>The iterations while the worker publishes the descriptor \<open>fd\<close>.\<close>

definition serves :: "int \<Rightarrow> ctl_env \<Rightarrow> bool" where
  "serves fd env \<longleftrightarrow> ctl_env_ok env \<and> (\<forall>es. \<not> es_mutex es \<longrightarrow> es_client_fd (ce_other env es) = fd)"

definition client_start :: "int \<Rightarrow> system \<Rightarrow> spec_state \<times> handler_effect list" where
  "client_start fd s =
     (if ctl_client_fd (sy_ctl s) = fd then control_spec (sy_ctl s)
      else (SpecMagic 0, ctl_effects (sy_ctl s)))"

lemma served_iteration:
  assumes "control_ready s" "serves fd env" "fd \<noteq> -1"
    and "spec_run (ctl_namespace_registry (sy_ctl s)) (received_by env) (client_start fd s) = Some t"
  shows "\<exists>s'. control_iteration nd env s = Returns () s' \<and> control_ready s'
     \<and> ctl_namespace_registry (sy_ctl s') = ctl_namespace_registry (sy_ctl s)
     \<and> ctl_client_fd (sy_ctl s') = fd \<and> control_spec (sy_ctl s') = t"
proof -
  let ?reg = "ctl_namespace_registry (sy_ctl s)"
  have env: "ctl_env_ok env" and fd: "es_client_fd (ce_other env (sy_es s)) = fd"
    using assms(1,2) by (simp_all add: serves_def control_ready_def)
  obtain st es where sp: "control_spec (sy_ctl s) = (st, es)" "ctl_effects (sy_ctl s) = es"
    by (auto simp: control_spec_def)
  have "log_run ?reg (iteration_log env (sy_es s)) (system_view s) = Some (fd, t)"
    using assms(3,4) fd sp
    by (cases "received_by env = []")
      (auto simp: iteration_log_def receives_log_def client_start_def system_view_def
        split: if_splits)
  with control_iteration_ok [OF assms(1) env, of nd] show ?thesis
    by (cases t) (auto simp: system_view_def)
qed

lemma served_run:
  assumes "control_ready s" "list_all (serves fd) envs" "fd \<noteq> -1" "envs \<noteq> []"
    and "spec_run (ctl_namespace_registry (sy_ctl s)) (concat (map received_by envs)) (client_start fd s) =
      Some t"
  shows "\<exists>rs s'. run_ops (control_iteration nd) envs s = Returns rs s' \<and> control_ready s'
     \<and> ctl_client_fd (sy_ctl s') = fd \<and> control_spec (sy_ctl s') = t"
  using assms
proof (induction envs arbitrary: s)
  case (Cons env envs)
  let ?reg = "ctl_namespace_registry (sy_ctl s)"
  from Cons.prems(5) obtain t1 where t1: "spec_run ?reg (received_by env) (client_start fd s) = Some t1"
    "spec_run ?reg (concat (map received_by envs)) t1 = Some t"
    by (auto simp: spec_run_append split: option.splits)
  from served_iteration [OF Cons.prems(1) _ Cons.prems(3) t1(1), of nd] Cons.prems(2) obtain s1 where s1:
    "control_iteration nd env s = Returns () s1" "control_ready s1"
    "ctl_namespace_registry (sy_ctl s1) = ?reg" "ctl_client_fd (sy_ctl s1) = fd"
    "control_spec (sy_ctl s1) = t1" by auto
  show ?case
  proof (cases "envs = []")
    case True
    with s1 t1(2) show ?thesis by simp
  next
    case False
    have "spec_run (ctl_namespace_registry (sy_ctl s1)) (concat (map received_by envs))
        (client_start fd s1) = Some t" using s1 t1(2) by (simp add: client_start_def)
    from Cons.IH [OF s1(2) _ Cons.prems(3) False this] Cons.prems(2) s1(1) show ?thesis by auto
  qed
qed simp

text \<open>C15: from the socket to the handlers. A client whose descriptor number is not the one that the
  control thread has seen last, and that sends commands, encoded by the Haskell package and received
  in chunks of any sizes up to 255 bytes over any number of iterations (with timeouts in between),
  has exactly its commands executed, in order: whatever the client before it has sent, in
  particular if that client left in the middle of a message. The condition on the number is needed:
  \<open>accept\<close> may return the number of a closed descriptor again, and if the thread has not seen that
  there was no client in between, the new client's bytes continue the old one's message
  (\<open>same_descriptor_joins_messages\<close>).\<close>

theorem new_client_commands_are_executed:
  assumes "control_ready s" "list_all (serves fd) envs" "fd \<noteq> -1" "envs \<noteq> []"
    and "ctl_client_fd (sy_ctl s) \<noteq> fd"
    and "list_all (\<lambda>(p, cid). p < length (ctl_namespace_registry (sy_ctl s))) msgs"
    and "concat (map received_by envs) =
      concat (map (\<lambda>(p, cid). put_Command (entry_name (ctl_namespace_registry (sy_ctl s) ! p)) cid) msgs)"
  shows "\<exists>rs s'. run_ops (control_iteration nd) envs s = Returns rs s' \<and> control_ready s'
     \<and> ctl_effects (sy_ctl s') = ctl_effects (sy_ctl s) @
         concat (map (\<lambda>(p, cid). spec_effects (ctl_namespace_registry (sy_ctl s)) p cid) msgs)"
proof -
  have inv: "registry_inv (sy_ctl s)"
    using assms(1) by (simp add: control_ready_def parser_ready_def registry_ready_def)
  have start: "client_start fd s = (SpecMagic 0, ctl_effects (sy_ctl s))"
    using assms(5) by (simp add: client_start_def)
  from spec_run_commands [OF inv assms(6)] assms(7) start
  have "spec_run (ctl_namespace_registry (sy_ctl s)) (concat (map received_by envs)) (client_start fd s) =
      Some (SpecMagic 0, ctl_effects (sy_ctl s) @
        concat (map (\<lambda>(p, cid). spec_effects (ctl_namespace_registry (sy_ctl s)) p cid) msgs))" by simp
  from served_run [OF assms(1-4) this, of nd] show ?thesis by (auto simp: control_spec_def)
qed

lemma demo_serves [simp]:
  "length bytes < 256 \<Longrightarrow> serves fd (demo_ctl_env (set_client fd) (Received bytes))"
  by (simp add: serves_def)

theorem new_client_commands_are_executed_witness:
  "\<exists>rs s'. run_ops (control_iteration True) [demo_ctl_env (set_client 7) (Received (take 10 demo_stream)),
       demo_ctl_env (set_client 7) (Received (drop 10 demo_stream))] initial_system = Returns rs s'
     \<and> ctl_effects (sy_ctl s') = [CallsStartHeapProfTimer, CallsRequestHeapCensus]"
proof -
  let ?envs = "[demo_ctl_env (set_client 7) (Received (take 10 demo_stream)),
       demo_ctl_env (set_client 7) (Received (drop 10 demo_stream))]"
  have serves: "list_all (serves 7) ?envs" by (simp add: length_demo_stream)
  have msgs: "list_all (\<lambda>(p, cid). p < length (ctl_namespace_registry (sy_ctl initial_system)))
      [(0, 3), (0, 5 :: byte)]" by simp
  have bytes: "concat (map received_by ?envs) = concat (map (\<lambda>(p, cid).
      put_Command (entry_name (ctl_namespace_registry (sy_ctl initial_system) ! p)) cid) [(0, 3), (0, 5)])"
    by (simp add: demo_stream_def [symmetric])
  have "?envs \<noteq> []" "(7 :: int) \<noteq> -1" "ctl_client_fd (sy_ctl initial_system) \<noteq> 7" by simp_all
  from new_client_commands_are_executed [OF control_ready_initial serves this(2,1,3) msgs bytes, of True]
  show ?thesis by (auto simp: spec_effects_builtin)
qed

end
