(* ===== verification/ES_WorkerLife.thy ===== *)
theory ES_WorkerLife
  imports ES_Socket
begin

text \<open>
  The life of the worker thread as a whole: it ends only with an error that
  \<open>eventlog_socket_worker_status\<close> reports, and what its setup and its cleanup at exit leave open.
\<close>

section \<open>How the worker thread ends\<close>

text \<open>The write buffer never ends a thread.\<close>

lemma write_buffer_exits [exit_rules]:
  "exits_with P (es_write_buffer_push nd env d s)"
  "exits_with P (wb_free_block a s)" "exits_with P (wb_free_item a s)"
  "exits_with P (es_write_buffer_pop s)"
proof -
  show "exits_with P (es_write_buffer_push nd env d s)"
    by (simp add: es_write_buffer_push_def Let_def c_assert_def split: option.splits)
  show block: "exits_with P (wb_free_block a s)" for a s by (simp add: wb_free_block_def)
  show item: "exits_with P (wb_free_item a s)" for a s by (simp add: wb_free_item_def)
  show "exits_with P (es_write_buffer_pop s)"
    by (auto simp: es_write_buffer_pop_def Let_def intro!: exits_with_bind block item split: option.splits)
qed

lemma write_buffer_free_loop_exits:
  assumes "write_buffer_free_loop s = Some m"
  shows "exits_with P m"
proof (rule write_buffer_free_loop.raw_induct [where P = "\<lambda>s. exits_with P", OF _ assms], goal_cases)
  case (1 loop s m)
  then show ?case by (auto intro: write_buffer_exits split: if_splits outcome.splits)
qed

lemma write_buffer_free_exits [exit_rules]: "exits_with P (es_write_buffer_free s)"
  using write_buffer_free_loop_exits [of s]
  by (simp add: es_write_buffer_free_def split: option.splits)

lemma g_lock_exits [exit_rules]: "exits_with P (g_lock rc s)"
  by (simp add: g_lock_def)

text \<open>The thread ends with an error in the worker's status variable.\<close>

definition status_saved :: "es_state \<Rightarrow> bool" where
  "status_saved s \<longleftrightarrow> STATUS_IS_ERROR (es_worker_status s)"

lemma status_saved_simps [simp]:
  "status_saved (worker_save st s) = STATUS_IS_ERROR st"
  "status_saved (g_unlock rc s) = status_saved s"
  by (simp_all add: status_saved_def g_unlock_def)

lemma worker_wake_exits [exit_rules]: "exits_with status_saved (es_worker_wake res s)"
  by (auto simp: es_worker_wake_def intro!: exit_rules split: io_result.splits)

lemma writer_enqueue_exits [exit_rules]: "exits_with status_saved (writer_enqueue nd env d s)"
  by (auto simp: writer_enqueue_def Let_def intro!: exit_rules)

lemma writer_exits [exit_rules]:
  "exits_with status_saved (writer_init env s)"
  "exits_with status_saved (writer_write nd env d s)"
  "exits_with status_saved (writer_stop env s)"
  by (auto simp: writer_init_def writer_write_def writer_stop_def Let_def intro!: exit_rules
      split: io_result.splits)

lemma writer_step_exits [exit_rules]: "exits_with status_saved (writer_step nd op s)"
  by (cases op) (auto simp: writer_flush_def intro!: exit_rules)

lemma rts_calls_exits [exit_rules]: "exits_with status_saved (rts_calls nd ops s)"
  by (auto simp: rts_calls_def intro!: exits_with_bind exits_with_run_ops writer_step_exits)

lemma step_write_loop_exits:
  assumes "step_write_loop writes k s = Some m"
  shows "exits_with P m"
proof (rule step_write_loop.raw_induct [where P = "\<lambda>writes k s. exits_with P", OF _ assms], goal_cases)
  case (1 loop writes k s m)
  then show ?case
    by (auto simp: Let_def intro: write_buffer_exits write_buffer_free_exits
        split: option.splits io_result.splits if_splits outcome.splits)
qed

lemma wait_rts_ready_loop_exits:
  assumes "wait_rts_ready_loop env k s = Some m"
  shows "exits_with status_saved m"
proof (rule wait_rts_ready_loop.raw_induct
    [where P = "\<lambda>env k s. exits_with status_saved", OF _ assms], goal_cases)
  case (1 loop env k s m)
  then show ?case by (auto split: if_splits prod.splits)
qed

lemma start_logging_loop_exits:
  assumes "start_logging_loop nd env k s = Some m"
  shows "exits_with status_saved m"
proof (rule start_logging_loop.raw_induct
    [where P = "\<lambda>nd env k s. exits_with status_saved", OF _ assms], goal_cases)
  case (1 loop nd env k s m)
  then show ?case by (auto intro: rts_calls_exits split: if_splits prod.splits outcome.splits)
qed

lemma worker_loops_exit [exit_rules]:
  "exits_with P (case step_write_loop writes 0 s of None \<Rightarrow> Hangs | Some r \<Rightarrow> r)"
  "exits_with status_saved (case wait_rts_ready_loop env 0 s of None \<Rightarrow> Hangs | Some r \<Rightarrow> r)"
  "exits_with status_saved (case start_logging_loop nd env 0 s of None \<Rightarrow> Hangs | Some r \<Rightarrow> r)"
  by (auto split: option.splits
      intro: step_write_loop_exits wait_rts_ready_loop_exits start_logging_loop_exits)

lemma hooks_exits: "exits_with P (es_hooks_handle_hook env hook h)"
  by (auto simp: es_hooks_handle_hook_def Let_def hooks_lock_def hooks_unlock_def
      intro!: exit_rules split: option.splits)

lemma handle_hook_es_exits [exit_rules]: "exits_with P (handle_hook_es env hook s)"
  using hooks_exits [of "\<lambda>_. False" env hook "es_hooks s"]
  by (auto simp: handle_hook_es_def split: outcome.splits)

lemma worker_step_parts_exit [exit_rules]:
  "exits_with status_saved (es_worker_wake_drain reads s)"
  "exits_with status_saved (es_worker_wait_rts_ready lenv s)"
  "exits_with status_saved (connect_stop nd lenv stop att s)"
  "exits_with status_saved (connect_publish lenv fd s)"
  "exits_with status_saved (connect_start nd lenv start s)"
  "exits_with status_saved (connect_mark_first lenv had s)"
  by (auto simp: es_worker_wake_drain_def es_worker_wait_rts_ready_def connect_stop_def
      connect_publish_def connect_start_def connect_mark_first_def Let_def
      intro!: exit_rules intro: wait_rts_ready_loop_exits start_logging_loop_exits split: option.splits)

lemma connect_client_exits [exit_rules]: "exits_with status_saved (connect_client nd lenv fd s)"
  by (auto simp: connect_client_def Let_def intro!: exit_rules)

lemma worker_steps_exit [exit_rules]:
  "exits_with status_saved (es_worker_step_nonwrite nenv fd s)"
  "exits_with status_saved (es_worker_step_write nd wenv fd s)"
  "exits_with status_saved (es_worker_step_listen nd lenv s)"
  by (auto simp: es_worker_step_nonwrite_def es_worker_step_write_def es_worker_step_listen_def
      Let_def intro!: exit_rules split: poll_result.splits option.splits accept_result.splits)

lemma worker_step_exits: "exits_with status_saved (es_worker_step nd env s)"
  by (auto simp: es_worker_step_def Let_def intro!: exit_rules)

lemma worker_loop_end:
  assumes "es_worker_loop nd env k s = Some m"
  shows "exits_with status_saved m \<and> (\<forall>r s'. m \<noteq> Returns r s')"
proof (rule es_worker_loop.raw_induct
    [where P = "\<lambda>nd env k s m. exits_with status_saved m \<and> (\<forall>r s'. m \<noteq> Returns r s')", OF _ assms],
    goal_cases)
  case (1 loop nd env k s m)
  have "exits_with status_saved (es_worker_step nd (env k) s)" by (rule worker_step_exits)
  with 1 show ?case by (cases "es_worker_step nd (env k) s") auto
qed

text \<open>C29: the worker never stops silently. Whatever the system, the clients and the RTS do, the
  worker's main loop does not return, and if the thread ends itself (\<open>pthread_exit\<close>), then
  \<open>eventlog_socket_worker_status\<close> reports an error afterwards.\<close>

theorem worker_exit_is_reported:
  assumes "es_worker_loop nd env k s = Some m"
  shows "(\<forall>r s'. m \<noteq> Returns r s') \<and>
     (\<forall>s'. m = ThreadExits s' \<longrightarrow> STATUS_IS_ERROR (es_worker_status_read s'))"
  using worker_loop_end [OF assms] by (auto simp: status_saved_def es_worker_status_read_def)

text \<open>A worker whose socket can no longer listen.\<close>

definition demo_worker_env :: "int option \<Rightarrow> worker_env" where
  "demo_worker_env listen =
     \<lparr>ws_lock = 0, ws_unlock = 0, ws_other = (\<lambda>s. s),
      ws_nonwrite = \<lparr>ne_poll = PollTimeout, ne_reads = (\<lambda>_. IoBytes 0), ne_lock = 0, ne_unlock = 0\<rparr>,
      ws_write = demo_drain_env (\<lambda>_. IoBytes 0),
      ws_listen = demo_listen_env\<lparr>le_listen := listen\<rparr>\<rparr>"

lemma demo_worker_loop:
  "es_worker_loop False (\<lambda>_. demo_worker_env (Some 98)) 0 initial_es =
     Some (ThreadExits (initial_es\<lparr>es_worker_status := STATUS_FROM_ERRNO 98\<rparr>))"
proof -
  have fd: "es_client_fd initial_es = -1" "es_mutex initial_es = False" by (simp_all add: initial_es_def)
  have id: "initial_es\<lparr>es_mutex := False\<rparr> = initial_es" by (simp add: initial_es_def)
  have "es_worker_step False (demo_worker_env (Some 98)) initial_es =
      ThreadExits (initial_es\<lparr>es_worker_status := STATUS_FROM_ERRNO 98\<rparr>)"
    using fd id by (simp add: es_worker_step_def es_worker_step_listen_def demo_worker_env_def Let_def)
  then show ?thesis by (subst es_worker_loop.simps) simp
qed

theorem worker_exit_is_reported_witness:
  "STATUS_IS_ERROR (es_worker_status_read (initial_es\<lparr>es_worker_status := STATUS_FROM_ERRNO 98\<rparr>))"
  using worker_exit_is_reported [OF demo_worker_loop] by blast

section \<open>Setup and cleanup\<close>

text \<open>What the worker's setup opens and its cleanup closes. After initialising the worker,
  starting it on a Unix domain socket and running the exit handler, with all system calls
  successful: the worker's thread has been created once, cancelled and joined, both ends of the
  wake pipe are closed, and only the listening socket is still open. The file removed at exit is
  the path of the address, which is the file that was bound only if the path is not longer than
  107 bytes.\<close>

theorem worker_setup_and_cleanup:
  assumes "\<not> es_mutex s" "\<not> has_sig EVENTLOG_SOCKET_SIG_INITIALIZED (es_init_state s)" "es_calls s = []"
    and "worker_init_env_ok env" "wi_pipe env = PipeOk r w" "distinct [-1, r, w, fd]"
    and "unix_env_ok fd (st_unix senv)" "st_create senv = 0" "mem a = Some path"
    and "cl_cancel cenv = 0" "cl_join cenv = 0"
  shows "\<exists>s1 s2 s3.
       es_worker_init nd env (Some thread) s = Returns STATUS_OK s1
     \<and> es_worker_start senv mem (EVENTLOG_SOCKET_UNIX (Some a)) opts s1 = Returns STATUS_OK s2
     \<and> es_worker_cleanup cenv s2 = Returns () s3
     \<and> open_fds s3 = [fd] \<and> es_wake_pipe s3 = (-1, -1)
     \<and> SysBind fd (SockUnix (take 107 (c_text path))) \<in> set (es_calls s2)
     \<and> last (es_calls s2) = SysCreateWorker
     \<and> es_calls s3 = es_calls s2 @
         [SysUnlink (c_text path), SysClose r, SysClose w, SysCancelWorker, SysJoinWorker]"
proof -
  from worker_init_first [OF assms(1,2,4,5), of nd thread] obtain s1 where s1:
    "es_worker_init nd env (Some thread) s = Returns STATUS_OK s1" "es_worker_thread s1 = Some thread"
    "es_calls s1 = [SysPipe r w, SysSetNonblock r, SysSetNonblock w, SysAtexitWorkerCleanup]"
    "es_wake_pipe s1 = (r, w)" using assms(3) by (auto simp: worker_initialised_def)
  from unix_socket_ok [OF assms(7), of path opts s1] obtain t where t:
    "es_worker_socket_init_unix (st_unix senv) (Some path) opts s1 = Returns STATUS_OK t"
    "es_sock_path t = Some (c_text path @ [0])" "es_worker_thread t = Some thread"
    "es_calls t = es_calls s1 @ unix_setup_calls fd path opts" "es_wake_pipe t = (r, w)"
    using s1 by auto
  let ?s2 = "sys SysCreateWorker t"
  have start: "es_worker_start senv mem (EVENTLOG_SOCKET_UNIX (Some a)) opts s1 = Returns STATUS_OK ?s2"
    using t(1) assms(8,9) by (simp add: es_worker_start_def with_string_def Let_def)
  obtain s3 where s3: "es_worker_cleanup cenv ?s2 = Returns () s3" "es_wake_pipe s3 = (-1, -1)"
    "es_calls s3 = es_calls ?s2 @
       [SysUnlink (c_text path), SysClose r, SysClose w, SysCancelWorker, SysJoinWorker]"
    using t assms(6,10,11) by (simp add: es_worker_cleanup_def Let_def c_text_nonzero)
  have "fold open_after (unix_setup_calls fd path opts) [r, w] = [r, w, fd]"
    by (simp add: unix_setup_calls_def opt_calls_def split: option.splits)
  with s3(3) t(4) s1(3) assms(6) have "open_fds s3 = [fd]"
    by (auto simp: open_fds_def)
  moreover have "SysBind fd (SockUnix (take 107 (c_text path))) \<in> set (es_calls ?s2)"
    by (simp add: t(4) unix_setup_calls_def)
  ultimately show ?thesis using s1(1) start s3 by fastforce
qed

theorem worker_setup_and_cleanup_witness:
  "\<exists>s1 s2 s3.
       es_worker_init False (demo_worker_init_env None) (Some 1) initial_es = Returns STATUS_OK s1
     \<and> es_worker_start \<lparr>st_unix = demo_unix_env None, st_inet = \<lparr>ie_getaddrinfo = (\<lambda>_ _. (0, []))\<rparr>,
           st_create = 0\<rparr> [9 \<mapsto> c_string ''a''] (EVENTLOG_SOCKET_UNIX (Some 9)) None s1 =
         Returns STATUS_OK s2
     \<and> es_worker_cleanup \<lparr>cl_cancel = 0, cl_join = 0\<rparr> s2 = Returns () s3 \<and> open_fds s3 = [5]"
proof -
  have init: "\<not> es_mutex initial_es" "\<not> has_sig EVENTLOG_SOCKET_SIG_INITIALIZED (es_init_state initial_es)"
    "es_calls initial_es = []" by (simp_all add: initial_es_def has_sig_def)
  have env: "worker_init_env_ok (demo_worker_init_env None)" "wi_pipe (demo_worker_init_env None) = PipeOk 3 4"
    by (simp_all add: worker_init_env_ok_def demo_worker_init_env_def)
  have fds: "distinct [-1, 3, 4, 5 :: int]" by simp
  show ?thesis
    using worker_setup_and_cleanup [OF init env fds, where
        senv = "\<lparr>st_unix = demo_unix_env None, st_inet = \<lparr>ie_getaddrinfo = (\<lambda>_ _. (0, []))\<rparr>, st_create = 0\<rparr>"
        and mem = "[9 \<mapsto> c_string ''a'']" and a = 9 and path = "c_string ''a''"
        and cenv = "\<lparr>cl_cancel = 0, cl_join = 0\<rparr>" and opts = None and nd = False and thread = 1]
    by (fastforce simp: unix_env_ok_def demo_unix_env_def)
qed

end
