(* ===== verification/ES_ControlLife.thy ===== *)
theory ES_ControlLife
  imports ES_ControlLoop ES_WorkerLife
begin

text \<open>
  The limits of the control thread: when it ends, when it stops handling commands, and what it
  does not notice.
\<close>

section \<open>How the control thread ends\<close>

lemma registry_exits [exit_rules]:
  "exits_with P (registry_lock env s)" "exits_with P (registry_unlock env s)"
  by (simp_all add: registry_lock_def registry_unlock_def)

lemma enter_state_exits [exit_rules]:
  "exits_with P (es_control_command_parser_enter_state nd env tag d s)"
  by (auto simp: es_control_command_parser_enter_state_def intro!: exit_rules
      split: ControlCommandParserStateTag.splits option.splits malloc_result.splits)

lemma commands_exit [exit_rules]:
  "exits_with P (es_control_namespace_store_resolve env n name s)"
  "exits_with P (es_control_command_handle nd env p cid s)"
  by (auto simp: es_control_namespace_store_resolve_def es_control_command_handle_def Let_def
      intro!: exit_rules split: option.splits)

lemma parse_namespace_len_exits [exit_rules]: "exits_with P (parse_namespace_len nd env b i s)"
  by (auto simp: parse_namespace_len_def intro!: exit_rules)

lemma handle_chunk_round_exits: "exits_with P (handle_chunk_round nd env n chunk i s)"
  by (auto simp: handle_chunk_round_def parse_magic_def parse_protocol_version_def parse_command_id_def
      parse_namespace_def Let_def intro!: exit_rules split: ControlCommandParserState.splits option.splits)

lemma handle_chunk_loop_exits:
  assumes "handle_chunk_loop nd env n chunk i s = Some m"
  shows "exits_with P m"
proof (rule handle_chunk_loop.raw_induct
    [where P = "\<lambda>nd env n chunk i s. exits_with P", OF _ assms], goal_cases)
  case (1 loop nd env n chunk i s m)
  have "exits_with P (handle_chunk_round nd (env i) n chunk i s)" by (rule handle_chunk_round_exits)
  with 1 show ?case
    by (cases "handle_chunk_round nd (env i) n chunk i s") (auto split: if_splits sum.splits)
qed

lemma handle_chunk_exits: "exits_with P (es_control_command_parser_handle_chunk nd env n chunk s)"
  using handle_chunk_loop_exits [of nd env n chunk 0 s]
  by (simp add: es_control_command_parser_handle_chunk_def split: option.splits)

text \<open>The thread ends with an error in the control status, and without holding \<open>g_mutex\<close>.\<close>

definition control_ended :: "system \<Rightarrow> bool" where
  "control_ended s \<longleftrightarrow> STATUS_IS_ERROR (es_control_status (sy_ctl s)) \<and> \<not> es_mutex (sy_es s)"

lemma on_ctl_cases:
  assumes "\<And>P. exits_with P (f (sy_ctl s))"
  shows "(\<exists>r c. on_ctl f s = Returns r (s\<lparr>sy_ctl := c\<rparr>)) \<or> on_ctl f s \<in> {Aborts, Crashes, Hangs}"
  using assms [of "\<lambda>_. False"] by (cases "f (sy_ctl s)") (simp_all add: on_ctl_def, blast)

lemma sy_unlock_simps [simp]:
  "\<not> es_mutex (sy_es (sy_unlock 0 s))" "sy_ctl (sy_unlock rc s) = sy_ctl s"
  by (simp_all add: sy_unlock_def)

lemma control_wake_up_exits:
  assumes "ce_unlock env = 0"
  shows "exits_with control_ended (control_wake_up nd env s)
     \<and> returns_with (\<lambda>s. \<not> es_mutex (sy_es s)) (control_wake_up nd env s)"
proof -
  have wait: "\<exists>rc es. on_es (es_control_wait_for_connection (ce_wait env)) t =
      Returns (STATUS_FROM_PTHREAD rc) (t\<lparr>sy_es := es\<rparr>) \<or>
      on_es (es_control_wait_for_connection (ce_wait env)) t = Returns STATUS_OK (t\<lparr>sy_es := es\<rparr>)" for t
    by (cases "ce_wait env (sy_es t)") (auto simp: on_es_def es_control_wait_for_connection_def)
  let ?fd = "es_client_fd (sy_es s)"
  let ?s1 = "s\<lparr>sy_es := (sy_es s)\<lparr>es_mutex := True\<rparr>, sy_log := sy_log s @ [SeesFd ?fd]\<rparr>"
  let ?s2 = "?s1\<lparr>sy_ctl := (sy_ctl s)\<lparr>ctl_client_fd := ?fd, ctl_command_parser_state := STATE_MAGIC 0\<rparr>\<rparr>"
  show ?thesis
  proof (cases "es_mutex (sy_es s) \<or> ce_lock env \<noteq> 0")
    case True
    then show ?thesis
      by (auto simp: control_wake_up_def sy_lock_def on_es_def g_lock_def mutex_blocks_def
          mutex_after_lock_def control_ended_def es_control_status_def)
  next
    case False
    with wait [of ?s1] wait [of ?s2] assms show ?thesis
      by (auto simp: control_wake_up_def Let_def control_ended_def es_control_status_def)
  qed
qed

lemma control_wait_input_exits:
  assumes "\<not> es_mutex (sy_es s)"
  shows "exits_with control_ended (control_wait_input nd env s)
     \<and> returns_with (\<lambda>s. \<not> es_mutex (sy_es s)) (control_wait_input nd env s)"
  using assms
  by (auto simp: control_wait_input_def control_ended_def es_control_status_def c_assert_def
      split: poll_result.splits)

lemma control_handle_input_exits:
  assumes "\<not> es_mutex (sy_es s)"
  shows "exits_with control_ended (control_handle_input nd env s)"
proof -
  have chunk: "exits_with control_ended (EXIT_ON_ERROR
      (on_ctl (es_control_command_parser_handle_chunk nd penv n chunk) t) control_save (Returns ()))"
    if "sy_es t = sy_es s" for penv n chunk t
    using on_ctl_cases [of "es_control_command_parser_handle_chunk nd penv n chunk" t, OF handle_chunk_exits]
      that assms
    by (auto simp: EXIT_ON_ERROR_def EXIT_ON_ERROR_CLEANUP_def control_ended_def es_control_status_def)
  show ?thesis
    using assms
    by (auto simp: control_handle_input_def control_ended_def es_control_status_def Let_def
        intro!: chunk split: recv_result.splits)
qed

lemma control_iteration_exits:
  assumes "ce_unlock env = 0"
  shows "exits_with control_ended (control_iteration nd env s)"
proof -
  let ?s0 = "s\<lparr>sy_es := ce_other env (sy_es s)\<rparr>"
  have rest: "exits_with control_ended (call_bind (control_wait_input nd env t) (\<lambda>is_ready s.
      if is_ready then control_handle_input nd env s else Returns () s))" if "\<not> es_mutex (sy_es t)" for t
    using control_wait_input_exits [OF that, of nd env] control_handle_input_exits [of _ nd env]
    by (cases "control_wait_input nd env t") auto
  show ?thesis
    using control_wake_up_exits [OF assms, of nd ?s0] rest
    by (cases "control_wake_up nd env ?s0")
      (auto simp: control_iteration_def intro!: exits_with_assert split: option.splits)
qed

lemma control_loop_end:
  assumes "control_loop nd env k s = Some m" "\<forall>j. ce_unlock (env j) = 0"
  shows "exits_with control_ended m \<and> (\<forall>r s'. m \<noteq> Returns r s')"
proof -
  have "(\<forall>j. ce_unlock (env j) = 0) \<longrightarrow> exits_with control_ended m \<and> (\<forall>r s'. m \<noteq> Returns r s')"
  proof (rule control_loop.raw_induct [where P = "\<lambda>nd env k s m. (\<forall>j. ce_unlock (env j) = 0) \<longrightarrow>
      exits_with control_ended m \<and> (\<forall>r s'. m \<noteq> Returns r s')", OF _ assms(1)], goal_cases)
    case (1 loop nd env k s m)
    have "exits_with control_ended (control_iteration nd (env k) s)" if "\<forall>j. ce_unlock (env j) = 0"
      using that by (intro control_iteration_exits) simp
    with 1 show ?case by (cases "control_iteration nd (env k) s") auto
  qed
  with assms(2) show ?thesis by simp
qed

lemma control_wait_rts_loop_keeps:
  assumes "control_wait_rts_loop waits unlock k s = Some m"
  shows "unlock = 0 \<longrightarrow> (\<exists>st s'. m = Returns st s' \<and> \<not> es_mutex s')"
proof (rule control_wait_rts_loop.raw_induct [where P = "\<lambda>waits unlock k s m.
    unlock = 0 \<longrightarrow> (\<exists>st s'. m = Returns st s' \<and> \<not> es_mutex s')", OF _ assms], goal_cases)
  case (1 loop waits unlock k s m)
  then show ?case by (fastforce split: if_splits prod.splits)
qed

lemma control_wait_rts_cases:
  "es_control_wait_ghc_rts_ready lock waits 0 es = Hangs \<or>
     (\<exists>st es'. es_control_wait_ghc_rts_ready lock waits 0 es = Returns st es' \<and> \<not> es_mutex es')"
proof -
  let ?m = "case control_wait_rts_loop waits 0 0 (es\<lparr>es_mutex := True\<rparr>) of None \<Rightarrow> Hangs | Some r \<Rightarrow> r"
  have "?m = Hangs \<or> (\<exists>st es'. ?m = Returns st es' \<and> \<not> es_mutex es')"
    using control_wait_rts_loop_keeps [of waits 0 0 "es\<lparr>es_mutex := True\<rparr>"] by (auto split: option.splits)
  moreover have "es_control_wait_ghc_rts_ready lock waits 0 es = Hangs" if "es_mutex es"
    using that by (simp add: es_control_wait_ghc_rts_ready_def)
  moreover have "es_control_wait_ghc_rts_ready lock waits 0 es =
      (if lock = 0 then ?m else Returns (STATUS_FROM_PTHREAD lock) (es\<lparr>es_mutex := False\<rparr>))"
    if "\<not> es_mutex es"
    using that by (simp add: es_control_wait_ghc_rts_ready_def g_lock_def mutex_blocks_def mutex_after_lock_def)
  ultimately show ?thesis by (cases "es_mutex es"; cases "lock = 0") auto
qed

text \<open>C30: the control thread never stops silently, and never takes the program's mutex with it.
  Whatever the clients and the system do (as long as unlocking succeeds), its entry point does
  not return, and if the thread ends itself, \<open>eventlog_socket_control_status\<close> reports an error
  and \<open>g_mutex\<close> is free, so that the RTS and the worker go on.\<close>

theorem control_exit_is_reported:
  assumes "cs_unlock env = 0" "\<forall>k. ce_unlock (cs_iteration env k) = 0"
  shows "(\<forall>r s'. es_control_loop nd env s \<noteq> Returns r s') \<and>
     (\<forall>s'. es_control_loop nd env s = ThreadExits s' \<longrightarrow>
        STATUS_IS_ERROR (es_control_status (sy_ctl s')) \<and> \<not> es_mutex (sy_es s'))"
proof -
  let ?w = "on_es (es_control_wait_ghc_rts_ready (cs_lock env) (cs_waits env) (cs_unlock env)) s"
  have "?w = Hangs \<or> (\<exists>st es'. ?w = Returns st (s\<lparr>sy_es := es'\<rparr>) \<and> \<not> es_mutex es')"
    using control_wait_rts_cases [of "cs_lock env" "cs_waits env" "sy_es s"] assms(1)
    by (auto simp: on_es_def)
  moreover have "exits_with control_ended m" if "control_loop nd (cs_iteration env) 0 t = Some m" for t m
    using control_loop_end [OF that assms(2)] by simp
  moreover have "control_loop nd (cs_iteration env) 0 t \<noteq> Some (Returns r s')" for t r s'
    using control_loop_end [OF _ assms(2), of nd 0 t "Returns r s'"] by auto
  ultimately have "exits_with control_ended (es_control_loop nd env s) \<and>
      (\<forall>r s'. es_control_loop nd env s \<noteq> Returns r s')"
    by (auto simp: es_control_loop_def EXIT_ON_ERROR_def EXIT_ON_ERROR_CLEANUP_def control_ended_def
        es_control_status_def split: option.splits if_splits)
  then show ?thesis by (auto simp: control_ended_def)
qed

definition demo_start_env :: "int \<Rightarrow> ctl_start_env" where
  "demo_start_env lock =
     \<lparr>cs_lock = lock, cs_waits = (\<lambda>_ s. (0, s)), cs_unlock = 0,
      cs_iteration = (\<lambda>_. demo_ctl_env (set_client 7) (Received []))\<rparr>"

theorem control_exit_is_reported_witness:
  "\<exists>s'. es_control_loop True (demo_start_env 22) initial_system = ThreadExits s'
     \<and> STATUS_IS_ERROR (es_control_status (sy_ctl s')) \<and> \<not> es_mutex (sy_es s')"
proof -
  have "\<not> es_mutex (sy_es initial_system)" by (simp add: initial_system_def initial_es_def)
  then have "\<exists>s'. es_control_loop True (demo_start_env 22) initial_system = ThreadExits s'"
    by (simp add: es_control_loop_def demo_start_env_def on_es_def es_control_wait_ghc_rts_ready_def
        g_lock_def mutex_blocks_def)
  moreover have "cs_unlock (demo_start_env 22) = 0" "\<forall>k. ce_unlock (cs_iteration (demo_start_env 22) k) = 0"
    by (simp_all add: demo_start_env_def demo_ctl_env_def)
  ultimately show ?thesis using control_exit_is_reported [of "demo_start_env 22" True initial_system] by blast
qed

section \<open>Commands that are not handled\<close>

lemma hangup_iteration:
  assumes "control_ready s" "serves fd env" "fd \<noteq> -1" "ctl_client_fd (sy_ctl s) = fd"
    and "ce_poll env = PollReady r r'" "rv_POLLHUP r"
  shows "\<exists>s'. control_iteration nd env s = Returns () s' \<and> control_ready s' \<and> sy_ctl s' = sy_ctl s
     \<and> sy_log s' = sy_log s @ [SeesFd fd]"
proof -
  let ?s0 = "s\<lparr>sy_es := ce_other env (sy_es s)\<rparr>"
  have env: "ce_lock env = 0" "ce_unlock env = 0" "\<forall>s. fst (ce_wait env s) = 0" "control_ready ?s0"
    "es_client_fd (sy_es ?s0) = fd"
    using assms(1,2) by (auto simp: serves_def ctl_env_ok_def control_ready_def)
  from control_wake_up_ok [OF env(4,1-3), of nd] env(5) assms(3,4) obtain s1 where
    "control_wake_up nd env ?s0 = Returns (Some fd) s1" "control_ready s1" "sy_ctl s1 = sy_ctl s"
    "sy_log s1 = sy_log s @ [SeesFd fd]" by auto
  with assms(4-6) show ?thesis by (simp add: control_iteration_def control_wait_input_def)
qed

text \<open>Commands that are still waiting in the socket when the client closes its connection are
  lost. As long as \<open>poll\<close> reports the hangup and the worker has not yet withdrawn the
  descriptor, every iteration of the loop goes back to its start at once, without receiving
  anything, even if \<open>poll\<close> reports input as well.\<close>

theorem hangup_discards_commands:
  assumes "control_ready s" "fd \<noteq> -1" "ctl_client_fd (sy_ctl s) = fd"
    and "list_all (\<lambda>env. serves fd env \<and> (\<exists>r r'. ce_poll env = PollReady r r' \<and> rv_POLLHUP r)) envs"
  shows "\<exists>rs s'. run_ops (control_iteration nd) envs s = Returns rs s' \<and> sy_ctl s' = sy_ctl s
     \<and> sy_log s' = sy_log s @ replicate (length envs) (SeesFd fd)"
  using assms
proof (induction envs arbitrary: s)
  case (Cons env envs)
  from Cons.prems(4) obtain r r' where r: "serves fd env" "ce_poll env = PollReady r r'" "rv_POLLHUP r"
    by auto
  from hangup_iteration [OF Cons.prems(1) r(1) Cons.prems(2,3) r(2,3), of nd] obtain s1 where s1:
    "control_iteration nd env s = Returns () s1" "control_ready s1" "sy_ctl s1 = sy_ctl s"
    "sy_log s1 = sy_log s @ [SeesFd fd]" by blast
  from Cons.IH [OF s1(2) Cons.prems(2)] s1(3) Cons.prems(3,4) obtain rs s' where
    "run_ops (control_iteration nd) envs s1 = Returns rs s'" "sy_ctl s' = sy_ctl s1"
    "sy_log s' = sy_log s1 @ replicate (length envs) (SeesFd fd)" by auto
  with s1 show ?case by simp
qed simp

definition demo_served :: system where
  "demo_served = initial_system\<lparr>sy_ctl := initial_control\<lparr>ctl_client_fd := 7\<rparr>\<rparr>"

lemma demo_served_simps [simp]:
  "control_ready demo_served" "ctl_client_fd (sy_ctl demo_served) = 7"
  "ctl_command_parser_state (sy_ctl demo_served) = STATE_MAGIC 0"
  "ctl_namespace_registry (sy_ctl demo_served) = ctl_namespace_registry initial_control"
  "ctl_effects (sy_ctl demo_served) = []"
  using control_ready_initial parser_ready_initial
  by (simp_all add: demo_served_def control_ready_def parser_ready_def registry_ready_def
      registry_inv_def handlers_set_def initial_control_def)

definition demo_hangup_env :: ctl_env where
  "demo_hangup_env = (demo_ctl_env (set_client 7) (Received (put_Command BUILTIN_NAMESPACE 5)))
     \<lparr>ce_poll := PollReady (no_revents\<lparr>rv_POLLIN := True, rv_POLLHUP := True\<rparr>) no_revents\<rparr>"

theorem hangup_discards_commands_witness:
  "\<exists>rs s'. run_ops (control_iteration True) [demo_hangup_env, demo_hangup_env] demo_served = Returns rs s'
     \<and> ctl_effects (sy_ctl s') = []"
proof -
  have "length (put_Command BUILTIN_NAMESPACE 5) < 256"
    by (simp add: put_Command_def put_Namespace_def magicBytes_def BUILTIN_NAMESPACE_bytes)
  then have "serves 7 demo_hangup_env \<and> (\<exists>r r'. ce_poll demo_hangup_env = PollReady r r' \<and> rv_POLLHUP r)"
    by (auto simp: serves_def demo_hangup_env_def demo_ctl_env_def ctl_env_ok_def CHUNK_SIZE_def)
  then have "list_all (\<lambda>env. serves 7 env \<and> (\<exists>r r'. ce_poll env = PollReady r r' \<and> rv_POLLHUP r))
      [demo_hangup_env, demo_hangup_env]" by simp
  from hangup_discards_commands [OF _ _ _ this, of demo_served True] show ?thesis by fastforce
qed

section \<open>A client with the descriptor of the client before it\<close>

text \<open>
  What the other threads do when the RTS stops the writer, which closes the connection, and the
  worker then accepts a client that the kernel gives the same descriptor. (The last case is for
  states in which these calls do not return.)
\<close>

definition reconnect :: "int \<Rightarrow> es_state \<Rightarrow> es_state" where
  "reconnect fd es =
     (case call_bind (writer_stop (demo_write_env (IoBytes 0)) es)
             (\<lambda>_. connect_publish demo_listen_env fd) of
        Returns _ es' \<Rightarrow> es'
      | _ \<Rightarrow> set_client fd es)"

lemma writer_stop_unlocks:
  "returns_with (\<lambda>s. \<not> es_mutex s) (writer_stop (demo_write_env (IoBytes 0)) es)"
proof (cases "es_mutex es")
  case False
  have e: "we_lock (demo_write_env (IoBytes 0)) = 0" "we_unlock (demo_write_env (IoBytes 0)) = 0"
    by (simp_all add: demo_write_env_def)
  show ?thesis
  proof (cases "es_client_fd es \<ge> 0")
    case True
    with False e show ?thesis
      by (cases "es_write_buffer_free (es\<lparr>es_mutex := True,
            es_init_state := es_init_state es AND NOT EVENTLOG_SOCKET_SIG_ATTACHED,
            es_closed := es_closed es @ [es_client_fd es], es_client_fd := -1\<rparr>)")
        (simp_all add: writer_stop_def Let_def)
  next
    case False
    with \<open>\<not> es_mutex es\<close> e show ?thesis by (simp add: writer_stop_def Let_def)
  qed
qed (simp add: writer_stop_def demo_write_env_def)

lemma reconnect_simps [simp]:
  assumes "\<not> es_mutex es"
  shows "es_client_fd (reconnect fd es) = fd" "\<not> es_mutex (reconnect fd es)"
  using writer_stop_unlocks [of es] assms
  by (cases "writer_stop (demo_write_env (IoBytes 0)) es",
      simp_all add: reconnect_def connect_publish_def demo_listen_env_def trace_event_def Let_def)+

text \<open>The control thread recognises a new client only by a new descriptor. If the connection is
  closed in the middle of a message and the next client gets the same descriptor before the
  control thread looks again, the parser continues with the new client's bytes: the two halves
  of a command, sent by two different clients, are executed as one.\<close>

theorem same_descriptor_joins_messages:
  assumes "control_ready s" "ctl_client_fd (sy_ctl s) = fd" "fd \<noteq> -1"
    and "ctl_command_parser_state (sy_ctl s) = STATE_MAGIC 0"
    and "p < length (ctl_namespace_registry (sy_ctl s))" "length half1 < 256" "length half2 < 256"
    and "half1 @ half2 = put_Command (entry_name (ctl_namespace_registry (sy_ctl s) ! p)) cid"
  shows "\<exists>rs s'. run_ops (control_iteration nd) [demo_ctl_env (set_client fd) (Received half1),
         demo_ctl_env (reconnect fd) (Received half2)] s = Returns rs s'
     \<and> ctl_effects (sy_ctl s') = ctl_effects (sy_ctl s) @ spec_effects (ctl_namespace_registry (sy_ctl s)) p cid"
proof -
  let ?reg = "ctl_namespace_registry (sy_ctl s)"
  let ?envs = "[demo_ctl_env (set_client fd) (Received half1), demo_ctl_env (reconnect fd) (Received half2)]"
  have inv: "registry_inv (sy_ctl s)"
    using assms(1) by (simp add: control_ready_def parser_ready_def registry_ready_def)
  have serves: "list_all (serves fd) ?envs" using assms(6,7) by (simp add: serves_def)
  have "spec_run ?reg (concat (map received_by ?envs)) (client_start fd s) =
      Some (SpecMagic 0, ctl_effects (sy_ctl s) @ spec_effects ?reg p cid)"
    using spec_run_commands [OF inv, of "[(p, cid)]" "ctl_effects (sy_ctl s)"] assms(2,4,5,8)
    by (simp add: client_start_def control_spec_def)
  from served_run [OF assms(1) serves assms(3) _ this, of nd] show ?thesis
    by (auto simp: control_spec_def)
qed

theorem same_descriptor_joins_messages_witness:
  "\<exists>rs s'. run_ops (control_iteration True)
       [demo_ctl_env (set_client 7) (Received (take 9 (put_Command BUILTIN_NAMESPACE 5))),
        demo_ctl_env (reconnect 7) (Received (drop 9 (put_Command BUILTIN_NAMESPACE 5)))] demo_served =
       Returns rs s'
     \<and> ctl_effects (sy_ctl s') = [CallsRequestHeapCensus]"
proof -
  have len: "length (put_Command BUILTIN_NAMESPACE 5) = 22"
    by (simp add: put_Command_def put_Namespace_def magicBytes_def BUILTIN_NAMESPACE_bytes)
  show ?thesis
    using same_descriptor_joins_messages [of demo_served 7 0 "take 9 (put_Command BUILTIN_NAMESPACE 5)"
        "drop 9 (put_Command BUILTIN_NAMESPACE 5)" 5 True] len
    by (simp add: spec_effects_builtin del: run_ops.simps)
qed

text \<open>C40: a full buffer inside a namespace stops the control thread for good. If \<open>recv\<close> returns 256
  bytes, the size of the buffer, while the parser is inside a namespace, the iteration never
  ends, so the thread handles no command of any client any more (in a debug build the program
  is aborted).\<close>

theorem full_chunk_stops_control_thread:
  assumes "inside_namespace (sy_ctl s)" "\<not> es_mutex (sy_es s)" "ctl_client_fd (sy_ctl s) = fd" "fd \<noteq> -1"
    and "length bytes = CHUNK_SIZE" "env k = demo_ctl_env (set_client fd) (Received bytes)"
  shows "control_loop True env k s = Some Hangs \<and> control_loop False env k s = Some Aborts"
proof -
  let ?env = "demo_ctl_env (set_client fd) (Received bytes)"
  have len: "of_nat (length bytes) = (256 :: size_t)" "bytes \<noteq> []"
    using assms(5) by (auto simp: CHUNK_SIZE_def)
  have out: "control_iteration nd ?env s =
      (case es_control_command_parser_handle_chunk nd (\<lambda>_. demo_control_env) 256
          (bytes @ drop (length bytes) (sy_chunk s)) (sy_ctl s) of
        Returns st c \<Rightarrow> control_iteration nd ?env s | ThreadExits c \<Rightarrow> control_iteration nd ?env s
      | Aborts \<Rightarrow> Aborts | Crashes \<Rightarrow> Crashes | Hangs \<Rightarrow> Hangs)" for nd
    using assms(2-4) len
    by (auto simp: control_iteration_def control_wake_up_def control_wait_input_def control_handle_input_def
        demo_ctl_env_def no_revents_def sy_unlock_def on_ctl_def Let_def split: outcome.splits)
  have "control_iteration True ?env s = Hangs" "control_iteration False ?env s = Aborts"
    by (subst out, simp add: full_chunk_inside_namespace [OF assms(1)])+
  then show ?thesis using assms(6) by (simp add: control_loop.simps [of _ env k])
qed

theorem full_chunk_stops_control_thread_witness:
  "\<exists>s. control_loop True (\<lambda>_. demo_ctl_env (set_client 7) (Received (replicate 256 97))) 0 s = Some Hangs"
proof -
  let ?s = "demo_served\<lparr>sy_ctl := (sy_ctl demo_served)\<lparr>ctl_command_parser_state :=
      STATE_NAMESPACE 16 1 (replicate 17 97)\<rparr>\<rparr>"
  have "\<not> es_mutex (sy_es demo_served)" using demo_served_simps(1) by (simp add: control_ready_def)
  then show ?thesis
    using full_chunk_stops_control_thread [of ?s 7 "replicate 256 97"
        "\<lambda>_. demo_ctl_env (set_client 7) (Received (replicate 256 97))" 0]
    by (auto simp: inside_namespace_def CHUNK_SIZE_def)
qed

end
