(* ===== verification/ES_Init.thy ===== *)
theory ES_Init
  imports ES_ControlLife
begin

text \<open>
  The public functions of \<open>eventlog_socket.c\<close> that start the library: initialisation, the signal
  that the RTS is ready, waiting for a client, the two entry points \<open>eventlog_socket_start\<close> and
  \<open>eventlog_socket_wrap_hs_main\<close>, and the start and the cleanup of the control thread
  (\<open>control.c\<close>).
\<close>

section \<open>The control thread's start and cleanup\<close>

record control_start_env =
  ct_create :: int
  ct_detach :: int

definition es_control_start ::
  "bool \<Rightarrow> control_start_env \<Rightarrow> nat option \<Rightarrow> es_state \<Rightarrow> (EventlogSocketStatus, es_state) outcome" where
  "es_control_start nd env control_thread s =
     c_assert nd (control_thread \<noteq> None)
       (let s = s\<lparr>es_control_thread := control_thread\<rparr>
        in RETURN_ON_ERROR
             (Returns (STATUS_FROM_PTHREAD (ct_create env))
               (if ct_create env = 0 then sys SysCreateControl s else s))
             (\<lambda>st. st) (\<lambda>s.
           RETURN_ON_ERROR
             (Returns (STATUS_FROM_PTHREAD (ct_detach env))
               (if ct_detach env = 0 then sys SysDetachControl s else s))
             (\<lambda>st. st) (\<lambda>s. Returns STATUS_OK (sys SysAtexitControlCleanup s))))"

text \<open>
  The exit handler. Joining a thread that has been detached is undefined behaviour (POSIX,
  \<open>pthread_join\<close>).
\<close>

definition es_control_cleanup :: "cleanup_env \<Rightarrow> es_state \<Rightarrow> (unit, es_state) outcome" where
  "es_control_cleanup env s =
     (if es_control_thread s \<noteq> None then
        (if cl_cancel env \<noteq> 0 then Returns () s
         else if SysDetachControl \<in> set (es_calls s) then Crashes
         else Returns () (sys SysCancelControl s))
      else Returns () s)"

section \<open>Initialisation\<close>

datatype ptr_result = PtrNull int | PtrTo nat

record init_env =
  in_status :: rts_status
  in_malloc_worker :: ptr_result
  in_worker_init :: worker_init_env
  in_worker_start :: worker_start_env
  in_malloc_control :: ptr_result
  in_control_start :: control_start_env

text \<open>\<open>feature_control\<close>: the library is built with \<open>EVENTLOG_SOCKET_FEATURE_CONTROL\<close>.\<close>

definition eventlog_socket_init ::
  "bool \<Rightarrow> bool \<Rightarrow> init_env \<Rightarrow> (nat \<Rightarrow> byte list option) \<Rightarrow> EventlogSocketAddr \<Rightarrow>
   EventlogSocketOpts option \<Rightarrow> es_state \<Rightarrow> (EventlogSocketStatus, es_state) outcome" where
  "eventlog_socket_init nd feature_control env mem addr opts s =
     (if in_status env = EVENTLOG_NOT_SUPPORTED
      then Returns (STATUS_FROM_CODE EVENTLOG_SOCKET_ERR_RTS_NOSUPPORT) s
      else
        (case in_malloc_worker env of
           PtrNull errno \<Rightarrow> Returns (STATUS_FROM_ERRNO errno) s
         | PtrTo worker_thread \<Rightarrow>
             RETURN_ON_ERROR (es_worker_init nd (in_worker_init env) (Some worker_thread) s) (\<lambda>st. st) (\<lambda>s.
             RETURN_ON_ERROR (es_worker_start (in_worker_start env) mem addr opts s) (\<lambda>st. st) (\<lambda>s.
               if feature_control then
                 (case in_malloc_control env of
                    PtrNull errno \<Rightarrow> Returns (STATUS_FROM_ERRNO errno) s
                  | PtrTo control_thread \<Rightarrow>
                      RETURN_ON_ERROR (es_control_start nd (in_control_start env) (Some control_thread) s)
                        (\<lambda>st. st) (Returns STATUS_OK))
               else Returns STATUS_OK s))))"

section \<open>Waiting for a client\<close>

text \<open>
  \<open>wt_wait k\<close> is the \<open>k\<close>-th wait on \<open>new_connection_cond\<close>: its return value and what the other
  threads do meanwhile. \<open>None\<close>: the loop never ends.
\<close>

record wait_env =
  wt_lock :: int
  wt_wait :: "nat \<Rightarrow> es_state \<Rightarrow> int \<times> es_state"
  wt_unlock :: int

partial_function (option) socket_wait_loop ::
  "wait_env \<Rightarrow> nat \<Rightarrow> es_state \<Rightarrow> (EventlogSocketStatus, es_state) outcome option" where
  "socket_wait_loop env k s =
     (if es_client_fd s = -1 then
        (case wt_wait env k s of (rc, s) \<Rightarrow>
           if STATUS_IS_ERROR (STATUS_FROM_PTHREAD rc)
           then Some (Returns (STATUS_FROM_PTHREAD rc) (g_unlock (wt_unlock env) s))
           else socket_wait_loop env (Suc k) s)
      else
        Some (RETURN_ON_ERROR (Returns (STATUS_FROM_PTHREAD (wt_unlock env)) (g_unlock (wt_unlock env) s))
               (\<lambda>st. st) (Returns STATUS_OK)))"

definition eventlog_socket_wait ::
  "wait_env \<Rightarrow> es_state \<Rightarrow> (EventlogSocketStatus, es_state) outcome" where
  "eventlog_socket_wait env s =
     RETURN_ON_ERROR (call_bind (g_lock (wt_lock env) s) (\<lambda>rc. Returns (STATUS_FROM_PTHREAD rc))) (\<lambda>st. st) (\<lambda>s.
       case socket_wait_loop env 0 s of None \<Rightarrow> Hangs | Some r \<Rightarrow> r)"

section \<open>The signal that the RTS is ready\<close>

record signal_env =
  sg_lock :: int
  sg_hook :: hook_env
  sg_broadcast :: int
  sg_unlock :: int

definition eventlog_socket_signal_ghc_rts_ready ::
  "signal_env \<Rightarrow> es_state \<Rightarrow> (EventlogSocketStatus, es_state) outcome" where
  "eventlog_socket_signal_ghc_rts_ready env s =
     (let unlock = g_unlock (sg_unlock env);
          finish = (\<lambda>s. RETURN_ON_ERROR (Returns (STATUS_FROM_PTHREAD (sg_unlock env)) (unlock s))
                     (\<lambda>st. st) (Returns STATUS_OK));
          broadcast = (\<lambda>s.
            RETURN_ON_ERROR_CLEANUP
              (Returns (STATUS_FROM_PTHREAD (sg_broadcast env))
                (if sg_broadcast env = 0 then trace_event EvSignalRtsReady s else s))
              (\<lambda>st. st) unlock
              (\<lambda>s. finish (s\<lparr>es_init_state := es_init_state s OR EVENTLOG_SOCKET_SIG_RTS_READY\<rparr>)))
      in RETURN_ON_ERROR (call_bind (g_lock (sg_lock env) s) (\<lambda>rc. Returns (STATUS_FROM_PTHREAD rc))) (\<lambda>st. st)
           (\<lambda>s.
           if \<not> has_sig EVENTLOG_SOCKET_SIG_RTS_READY (es_init_state s) then
             (if has_sig EVENTLOG_SOCKET_SIG_ATTACHED (es_init_state s) then
                RETURN_ON_ERROR_CLEANUP
                  (handle_hook_es (sg_hook env) EVENTLOG_SOCKET_HOOK_POST_START_EVENT_LOGGING s)
                  (\<lambda>st. st) unlock broadcast
              else broadcast s)
           else finish s))"

section \<open>Entry points\<close>

record entry_env =
  en_init :: init_env
  en_signal :: signal_env
  en_wait :: wait_env

text \<open>\<open>eventlog_socket_opts->eso_wait\<close> is read without a test for \<open>NULL\<close>.\<close>

definition eventlog_socket_start ::
  "bool \<Rightarrow> bool \<Rightarrow> entry_env \<Rightarrow> (nat \<Rightarrow> byte list option) \<Rightarrow> EventlogSocketAddr \<Rightarrow>
   EventlogSocketOpts option \<Rightarrow> es_state \<Rightarrow> (EventlogSocketStatus, es_state) outcome" where
  "eventlog_socket_start nd feature_control env mem addr opts s =
     RETURN_ON_ERROR (eventlog_socket_init nd feature_control (en_init env) mem addr opts s) (\<lambda>st. st) (\<lambda>s.
     RETURN_ON_ERROR (eventlog_socket_signal_ghc_rts_ready (en_signal env) s) (\<lambda>st. st) (\<lambda>s.
       case opts of
         None \<Rightarrow> Crashes
       | Some opts \<Rightarrow>
           if eso_wait opts then
             RETURN_ON_ERROR (eventlog_socket_wait (en_wait env) s) (\<lambda>st. st) (Returns STATUS_OK)
           else Returns STATUS_OK s))"

datatype SchedulerStatus = Killed | Interrupted | HeapExhausted | Success | NoStatus

datatype exit_code = EXIT_KILLED | EXIT_INTERRUPTED | EXIT_HEAPOVERFLOW | EXIT_SUCCESS

text \<open>
  \<open>eventlog_socket_wrap_hs_main\<close>: \<open>Returns code\<close> is the end of the process with this exit code
  (\<open>shutdownHaskellAndExit\<close>), \<open>Aborts\<close> the end by \<open>barf\<close>. \<open>hs_init_ghc\<close> and the evaluation of the
  main closure are the calls of the writer that the RTS makes meanwhile; \<open>mn_status\<close> is the
  scheduler's status after the evaluation.
\<close>

record main_env = entry_env +
  mn_hs_init :: "writer_op list"
  mn_eval :: "writer_op list"
  mn_status :: SchedulerStatus

text \<open>The switch over the scheduler's status; the last case is \<open>barf\<close>.\<close>

definition exit_status_of :: "SchedulerStatus \<Rightarrow> exit_code option" where
  "exit_status_of status =
     (case status of
        Killed \<Rightarrow> Some EXIT_KILLED
      | Interrupted \<Rightarrow> Some EXIT_INTERRUPTED
      | HeapExhausted \<Rightarrow> Some EXIT_HEAPOVERFLOW
      | Success \<Rightarrow> Some EXIT_SUCCESS
      | NoStatus \<Rightarrow> None)"

definition eventlog_socket_wrap_hs_main ::
  "bool \<Rightarrow> bool \<Rightarrow> main_env \<Rightarrow> (nat \<Rightarrow> byte list option) \<Rightarrow> EventlogSocketAddr \<Rightarrow>
   EventlogSocketOpts option \<Rightarrow> es_state \<Rightarrow> (exit_code, es_state) outcome" where
  "eventlog_socket_wrap_hs_main nd feature_control env mem addr opts s =
     call_bind (eventlog_socket_init nd feature_control (en_init env) mem addr opts s) (\<lambda>_ s.
     call_bind (rts_calls nd (mn_hs_init env) s) (\<lambda>_ s.
     call_bind (eventlog_socket_signal_ghc_rts_ready (en_signal env) s) (\<lambda>_ s.
       case opts of
         None \<Rightarrow> Crashes
       | Some opts \<Rightarrow>
           call_bind (if eso_wait opts then call_bind (eventlog_socket_wait (en_wait env) s) (\<lambda>_. Returns ())
                      else Returns () s) (\<lambda>_ s.
           call_bind (rts_calls nd (mn_eval env) s) (\<lambda>_ s.
             case exit_status_of (mn_status env) of
               None \<Rightarrow> Aborts
             | Some exit_status \<Rightarrow> Returns exit_status s)))))"

section \<open>The signal is given once\<close>

definition signal_env_ok :: "signal_env \<Rightarrow> bool" where
  "signal_env_ok env \<longleftrightarrow>
     sg_lock env = 0 \<and> sg_unlock env = 0 \<and> sg_broadcast env = 0 \<and> hook_env_ok (sg_hook env)"

lemma attached_rts_ready [simp]:
  "has_sig EVENTLOG_SOCKET_SIG_ATTACHED (i OR EVENTLOG_SOCKET_SIG_RTS_READY) =
     has_sig EVENTLOG_SOCKET_SIG_ATTACHED i"
  by (simp add: has_sig_bits bit_or_iff sig_bit_simps)

definition signal_trace :: "byte \<Rightarrow> es_event list" where
  "signal_trace init_state =
     (if has_sig EVENTLOG_SOCKET_SIG_ATTACHED init_state
      then [EvHook EVENTLOG_SOCKET_HOOK_POST_START_EVENT_LOGGING] else []) @ [EvSignalRtsReady]"

text \<open>The state after the RTS has been signalled ready, with the trace \<open>tr\<close>.\<close>

definition rts_signalled :: "es_event list \<Rightarrow> es_state \<Rightarrow> bool" where
  "rts_signalled tr s \<longleftrightarrow>
     \<not> es_mutex s \<and> \<not> hk_mutex (es_hooks s) \<and> es_trace s = tr \<and>
     has_sig EVENTLOG_SOCKET_SIG_RTS_READY (es_init_state s)"

lemma signal_first:
  assumes "\<not> es_mutex s" "\<not> hk_mutex (es_hooks s)" "signal_env_ok env"
    and "\<not> has_sig EVENTLOG_SOCKET_SIG_RTS_READY (es_init_state s)"
  shows "\<exists>s'. eventlog_socket_signal_ghc_rts_ready env s = Returns STATUS_OK s'
     \<and> rts_signalled (es_trace s @ signal_trace (es_init_state s)) s'
     \<and> es_client_fd s' = es_client_fd s \<and> es_calls s' = es_calls s"
  using assms
  by (auto simp: eventlog_socket_signal_ghc_rts_ready_def signal_env_ok_def rts_signalled_def
      signal_trace_def handle_hook_es_def handle_hook_ok trace_event_def Let_def)

interpretation signal: total_state_ops "rts_signalled tr" eventlog_socket_signal_ghc_rts_ready
    signal_env_ok "\<lambda>st. st = STATUS_OK"
  for tr
  by unfold_locales
    (auto simp: eventlog_socket_signal_ghc_rts_ready_def rts_signalled_def signal_env_ok_def Let_def)

text \<open>C31: the signal that the RTS is ready is given once. However often the function is called, it
  returns \<open>STATUS_OK\<close> and releases the mutex; the first call runs the post-start hooks, exactly
  if the writer is already attached, then wakes the waiting threads and records the signal, and
  the further calls do nothing.\<close>

theorem rts_ready_is_signalled_once:
  assumes "\<not> es_mutex s" "\<not> hk_mutex (es_hooks s)"
    and "\<not> has_sig EVENTLOG_SOCKET_SIG_RTS_READY (es_init_state s)"
    and "envs \<noteq> []" "list_all signal_env_ok envs"
  shows "\<exists>rs s'. run_ops eventlog_socket_signal_ghc_rts_ready envs s = Returns rs s'
     \<and> list_all (\<lambda>st. st = STATUS_OK) rs \<and> \<not> es_mutex s'
     \<and> has_sig EVENTLOG_SOCKET_SIG_RTS_READY (es_init_state s')
     \<and> es_trace s' = es_trace s @
         (if has_sig EVENTLOG_SOCKET_SIG_ATTACHED (es_init_state s)
          then [EvHook EVENTLOG_SOCKET_HOOK_POST_START_EVENT_LOGGING] else []) @ [EvSignalRtsReady]"
proof -
  obtain env envs' where envs: "envs = env # envs'" "signal_env_ok env" "list_all signal_env_ok envs'"
    using assms(4,5) by (cases envs) auto
  from signal_first [OF assms(1,2) envs(2) assms(3)] obtain t where t:
    "eventlog_socket_signal_ghc_rts_ready env s = Returns STATUS_OK t"
    "rts_signalled (es_trace s @ signal_trace (es_init_state s)) t" by blast
  from signal.run_total [OF t(2) envs(3)] t(1) envs(1) show ?thesis
    by (auto simp: rts_signalled_def signal_trace_def)
qed

definition demo_signal_env :: signal_env where
  "demo_signal_env = \<lparr>sg_lock = 0, sg_hook = demo_hook_env, sg_broadcast = 0, sg_unlock = 0\<rparr>"

lemma demo_signal_env_ok [simp]: "signal_env_ok demo_signal_env"
  by (simp add: signal_env_ok_def demo_signal_env_def)

lemma initial_es_signals [simp]:
  "\<not> es_mutex initial_es" "\<not> hk_mutex (es_hooks initial_es)" "es_client_fd initial_es = -1"
  "es_init_state initial_es = 0" "es_calls initial_es = []" "es_trace initial_es = []"
  by (simp_all add: initial_es_def initial_hooks_def)

lemma has_sig_0 [simp]: "\<not> has_sig sig 0"
  by (simp add: has_sig_def)

theorem rts_ready_is_signalled_once_witness:
  "\<exists>rs s'. run_ops eventlog_socket_signal_ghc_rts_ready [demo_signal_env, demo_signal_env] demo_attached =
       Returns rs s' \<and> es_trace s' = [EvHook 0, EvSignalRtsReady]"
proof -
  have s: "\<not> es_mutex demo_attached" "\<not> has_sig EVENTLOG_SOCKET_SIG_RTS_READY (es_init_state demo_attached)"
    "es_trace demo_attached = []"
    by (simp_all add: demo_attached_def has_sig_bits sig_bit_simps)
  show ?thesis
    using rts_ready_is_signalled_once [OF s(1) demo_attached_ok(3) s(2), of "[demo_signal_env, demo_signal_env]"]
      s(3) demo_attached_ok(2)
    by (auto simp: EVENTLOG_SOCKET_HOOK_POST_START_EVENT_LOGGING_def)
qed

section \<open>Waiting ends with a client\<close>

text \<open>The state at the start of round \<open>k\<close> of the loop.\<close>

fun wait_state :: "wait_env \<Rightarrow> es_state \<Rightarrow> nat \<Rightarrow> es_state" where
  "wait_state env s 0 = s\<lparr>es_mutex := True\<rparr>"
| "wait_state env s (Suc k) = snd (wt_wait env k (wait_state env s k))"

definition client_arrives :: "wait_env \<Rightarrow> es_state \<Rightarrow> nat \<Rightarrow> bool" where
  "client_arrives env s n \<longleftrightarrow>
     es_client_fd (wait_state env s n) \<noteq> -1 \<and> (\<forall>k < n. fst (wt_wait env k (wait_state env s k)) = 0)"

lemma socket_wait_loop_ok:
  assumes "client_arrives env s (k + n)" "wt_unlock env = 0"
  shows "\<exists>s'. socket_wait_loop env k (wait_state env s k) = Some (Returns STATUS_OK s')
     \<and> es_client_fd s' \<noteq> -1 \<and> \<not> es_mutex s'"
  using assms(1)
proof (induction n arbitrary: k)
  case 0
  with assms(2) show ?case
    by (subst socket_wait_loop.simps) (auto simp: client_arrives_def)
next
  case (Suc n)
  show ?case
  proof (cases "es_client_fd (wait_state env s k) = -1")
    case False
    with assms(2) show ?thesis by (subst socket_wait_loop.simps) auto
  next
    case True
    have rc: "fst (wt_wait env k (wait_state env s k)) = 0"
      using Suc.prems by (auto simp: client_arrives_def)
    then obtain t where t: "wt_wait env k (wait_state env s k) = (0, t)"
      by (metis prod.collapse)
    then have "socket_wait_loop env k (wait_state env s k) = socket_wait_loop env (Suc k) t"
      using True by (subst socket_wait_loop.simps) simp
    moreover have "wait_state env s (Suc k) = t" using t by simp
    ultimately show ?thesis using Suc.IH [of "Suc k"] Suc.prems by auto
  qed
qed

lemma socket_wait_ok:
  assumes "\<not> es_mutex s" "wt_lock env = 0" "wt_unlock env = 0" "client_arrives env s n"
  shows "\<exists>s'. eventlog_socket_wait env s = Returns STATUS_OK s' \<and> es_client_fd s' \<noteq> -1 \<and> \<not> es_mutex s'"
  using socket_wait_loop_ok [of env s 0 n] assms by (auto simp: eventlog_socket_wait_def)

text \<open>Waiting ends when a client has connected. If the system calls succeed and the descriptor
  of a client has been published when the calling thread wakes up for the \<open>n\<close>-th time (or
  before it waits), then \<open>eventlog_socket_wait\<close> returns \<open>STATUS_OK\<close>, with a client connected and
  the mutex released.\<close>

theorem wait_returns_when_connected:
  assumes "\<not> es_mutex s" "wt_lock env = 0" "wt_unlock env = 0" "client_arrives env s n"
  shows "\<exists>s'. eventlog_socket_wait env s = Returns STATUS_OK s' \<and> es_client_fd s' \<noteq> -1 \<and> \<not> es_mutex s'"
  using assms by (rule socket_wait_ok)

text \<open>Two wake-ups: a spurious one, and one with a client.\<close>

definition demo_wait_env :: wait_env where
  "demo_wait_env = \<lparr>wt_lock = 0, wt_wait = (\<lambda>k s. (0, if k = 1 then set_client 7 s else s)), wt_unlock = 0\<rparr>"

lemma demo_wait_env_simps [simp]:
  "wt_lock demo_wait_env = 0" "wt_unlock demo_wait_env = 0"
  "client_arrives demo_wait_env s 2"
  by (simp_all add: demo_wait_env_def client_arrives_def numeral_2_eq_2)

theorem wait_returns_when_connected_witness:
  "\<exists>s'. eventlog_socket_wait demo_wait_env initial_es = Returns STATUS_OK s' \<and> es_client_fd s' \<noteq> -1"
  using wait_returns_when_connected [of initial_es demo_wait_env 2] by auto

section \<open>Starting the library\<close>

lemma initialized_sigs [simp]:
  "has_sig EVENTLOG_SOCKET_SIG_RTS_READY (i OR EVENTLOG_SOCKET_SIG_INITIALIZED) =
     has_sig EVENTLOG_SOCKET_SIG_RTS_READY i"
  by (simp add: has_sig_bits bit_or_iff) (simp add: sig_defs)

text \<open>All calls of the initialisation on a Unix domain socket succeed.\<close>

definition init_env_ok :: "int \<Rightarrow> int \<Rightarrow> int \<Rightarrow> init_env \<Rightarrow> bool" where
  "init_env_ok r w fd env \<longleftrightarrow>
     in_status env \<noteq> EVENTLOG_NOT_SUPPORTED \<and> (\<exists>t. in_malloc_worker env = PtrTo t) \<and>
     worker_init_env_ok (in_worker_init env) \<and> wi_pipe (in_worker_init env) = PipeOk r w \<and>
     unix_env_ok fd (st_unix (in_worker_start env)) \<and> st_create (in_worker_start env) = 0 \<and>
     (\<exists>t. in_malloc_control env = PtrTo t) \<and>
     ct_create (in_control_start env) = 0 \<and> ct_detach (in_control_start env) = 0"

definition init_calls ::
  "bool \<Rightarrow> int \<Rightarrow> int \<Rightarrow> int \<Rightarrow> byte list \<Rightarrow> EventlogSocketOpts option \<Rightarrow> sys_call list" where
  "init_calls feature_control r w fd path opts =
     [SysPipe r w, SysSetNonblock r, SysSetNonblock w, SysAtexitWorkerCleanup]
     @ unix_setup_calls fd path opts @ [SysCreateWorker]
     @ (if feature_control then [SysCreateControl, SysDetachControl, SysAtexitControlCleanup] else [])"

lemma socket_init_ok:
  assumes "\<not> es_mutex s" "\<not> has_sig EVENTLOG_SOCKET_SIG_INITIALIZED (es_init_state s)"
    and "init_env_ok r w fd env" "mem a = Some path"
  shows "\<exists>s'. eventlog_socket_init nd fc env mem (EVENTLOG_SOCKET_UNIX (Some a)) opts s = Returns STATUS_OK s'
     \<and> es_calls s' = es_calls s @ init_calls fc r w fd path opts
     \<and> \<not> es_mutex s' \<and> es_hooks s' = es_hooks s \<and> es_client_fd s' = es_client_fd s
     \<and> es_init_state s' = es_init_state s OR EVENTLOG_SOCKET_SIG_INITIALIZED"
proof -
  obtain t u where env: "in_status env \<noteq> EVENTLOG_NOT_SUPPORTED" "in_malloc_worker env = PtrTo t"
    "worker_init_env_ok (in_worker_init env)" "wi_pipe (in_worker_init env) = PipeOk r w"
    "unix_env_ok fd (st_unix (in_worker_start env))" "st_create (in_worker_start env) = 0"
    "in_malloc_control env = PtrTo u" "ct_create (in_control_start env) = 0"
    "ct_detach (in_control_start env) = 0"
    using assms(3) by (auto simp: init_env_ok_def)
  from worker_init_first [OF assms(1,2) env(3,4), of nd t] obtain s1 where s1:
    "es_worker_init nd (in_worker_init env) (Some t) s = Returns STATUS_OK s1"
    "es_hooks s1 = es_hooks s" "es_client_fd s1 = es_client_fd s"
    "es_init_state s1 = es_init_state s OR EVENTLOG_SOCKET_SIG_INITIALIZED" "\<not> es_mutex s1"
    "es_calls s1 = es_calls s @ [SysPipe r w, SysSetNonblock r, SysSetNonblock w, SysAtexitWorkerCleanup]"
    by (auto simp: worker_initialised_def)
  from unix_socket_ok [OF env(5), of path opts s1] obtain s2 where s2:
    "es_worker_socket_init_unix (st_unix (in_worker_start env)) (Some path) opts s1 = Returns STATUS_OK s2"
    "es_calls s2 = es_calls s1 @ unix_setup_calls fd path opts" "es_init_state s2 = es_init_state s1"
    "es_mutex s2 = es_mutex s1" "es_hooks s2 = es_hooks s1" "es_client_fd s2 = es_client_fd s1" by blast
  have "es_worker_start (in_worker_start env) mem (EVENTLOG_SOCKET_UNIX (Some a)) opts s1 =
      Returns STATUS_OK (sys SysCreateWorker s2)"
    using s2(1) env(6) assms(4) by (simp add: es_worker_start_def with_string_def Let_def)
  with env s1 s2 show ?thesis
    by (simp add: eventlog_socket_init_def es_control_start_def init_calls_def Let_def)
qed

text \<open>C32: \<open>eventlog_socket_start\<close> on a Unix domain socket, when all system calls succeed. It creates
  the wake pipe, binds the socket, starts the worker and then the control thread, in this order
  and once each; it signals that the RTS is ready; and it returns \<open>STATUS_OK\<close> with the mutex free
  at once, or, with \<open>eso_wait\<close>, as soon as a client has connected.\<close>

theorem socket_start_establishes:
  assumes "\<not> es_mutex s" "\<not> hk_mutex (es_hooks s)"
    and "\<not> has_sig EVENTLOG_SOCKET_SIG_INITIALIZED (es_init_state s)"
    and "\<not> has_sig EVENTLOG_SOCKET_SIG_RTS_READY (es_init_state s)"
    and "init_env_ok r w fd (en_init env)" "mem a = Some path" "signal_env_ok (en_signal env)"
    and "wt_lock (en_wait env) = 0" "wt_unlock (en_wait env) = 0"
    and "\<forall>t. client_arrives (en_wait env) t n"
  shows "\<exists>s1 s2 s'.
       eventlog_socket_init nd fc (en_init env) mem (EVENTLOG_SOCKET_UNIX (Some a)) (Some opts) s =
         Returns STATUS_OK s1
     \<and> es_calls s1 = es_calls s @ init_calls fc r w fd path (Some opts)
     \<and> eventlog_socket_signal_ghc_rts_ready (en_signal env) s1 = Returns STATUS_OK s2
     \<and> has_sig EVENTLOG_SOCKET_SIG_RTS_READY (es_init_state s2)
     \<and> eventlog_socket_start nd fc env mem (EVENTLOG_SOCKET_UNIX (Some a)) (Some opts) s = Returns STATUS_OK s'
     \<and> (if eso_wait opts then es_client_fd s' \<noteq> -1 else s' = s2) \<and> \<not> es_mutex s'"
proof -
  from socket_init_ok [where opts = "Some opts" and fc = fc and nd = nd and mem = mem and a = a, OF assms(1,3,5,6)] obtain s1 where s1:
    "eventlog_socket_init nd fc (en_init env) mem (EVENTLOG_SOCKET_UNIX (Some a)) (Some opts) s =
       Returns STATUS_OK s1"
    "es_calls s1 = es_calls s @ init_calls fc r w fd path (Some opts)" "\<not> es_mutex s1"
    "\<not> hk_mutex (es_hooks s1)" "\<not> has_sig EVENTLOG_SOCKET_SIG_RTS_READY (es_init_state s1)"
    using assms(2,4) by auto
  from signal_first [OF s1(3,4) assms(7) s1(5)] obtain s2 where s2:
    "eventlog_socket_signal_ghc_rts_ready (en_signal env) s1 = Returns STATUS_OK s2" "\<not> es_mutex s2"
    "has_sig EVENTLOG_SOCKET_SIG_RTS_READY (es_init_state s2)" by (auto simp: rts_signalled_def)
  from socket_wait_ok [OF s2(2) assms(8,9) spec [OF assms(10)]] obtain s3 where s3:
    "eventlog_socket_wait (en_wait env) s2 = Returns STATUS_OK s3" "es_client_fd s3 \<noteq> -1" "\<not> es_mutex s3"
    by blast
  from s1 s2 s3 show ?thesis by (auto simp: eventlog_socket_start_def)
qed

definition demo_init_env :: "rts_status \<Rightarrow> init_env" where
  "demo_init_env status =
     \<lparr>in_status = status, in_malloc_worker = PtrTo 1, in_worker_init = demo_worker_init_env None,
      in_worker_start = \<lparr>st_unix = demo_unix_env None, st_inet = \<lparr>ie_getaddrinfo = (\<lambda>_ _. (0, []))\<rparr>,
        st_create = 0\<rparr>,
      in_malloc_control = PtrTo 2, in_control_start = \<lparr>ct_create = 0, ct_detach = 0\<rparr>\<rparr>"

lemma demo_init_env_ok: "init_env_ok 3 4 5 (demo_init_env EVENTLOG_RUNNING)"
  by (simp add: init_env_ok_def demo_init_env_def worker_init_env_ok_def demo_worker_init_env_def
      unix_env_ok_def demo_unix_env_def)

definition demo_entry_env :: entry_env where
  "demo_entry_env = \<lparr>en_init = demo_init_env EVENTLOG_RUNNING, en_signal = demo_signal_env,
                     en_wait = demo_wait_env\<rparr>"

theorem socket_start_establishes_witness:
  "\<exists>s'. eventlog_socket_start False True demo_entry_env [9 \<mapsto> c_string ''a''] (EVENTLOG_SOCKET_UNIX (Some 9))
         (Some (demo_opts\<lparr>eso_wait := True\<rparr>)) initial_es = Returns STATUS_OK s'
     \<and> es_client_fd s' \<noteq> -1 \<and> \<not> es_mutex s'"
proof -
  have env: "init_env_ok 3 4 5 (en_init demo_entry_env)" "signal_env_ok (en_signal demo_entry_env)"
    "wt_lock (en_wait demo_entry_env) = 0" "wt_unlock (en_wait demo_entry_env) = 0"
    "\<forall>t. client_arrives (en_wait demo_entry_env) t 2"
    using demo_init_env_ok by (simp_all add: demo_entry_env_def)
  have mem: "[9 \<mapsto> c_string ''a''] (9 :: nat) = Some (c_string ''a'')" by simp
  show ?thesis
    using socket_start_establishes [where mem = "[9 \<mapsto> c_string ''a'']" and a = 9 and s = initial_es
        and nd = False and fc = True and opts = "demo_opts\<lparr>eso_wait := True\<rparr>",
        OF initial_es_signals(1,2) _ _ env(1) mem env(2-5)] by auto
qed

section \<open>A failed initialisation\<close>

definition nobody_connects :: "wait_env \<Rightarrow> bool" where
  "nobody_connects env \<longleftrightarrow>
     wt_lock env = 0 \<and>
     (\<forall>k s. es_client_fd s = -1 \<longrightarrow> fst (wt_wait env k s) = 0 \<and> es_client_fd (snd (wt_wait env k s)) = -1)"

lemma socket_wait_loop_forever:
  assumes "socket_wait_loop env k s = Some m"
  shows "\<not> (nobody_connects env \<and> es_client_fd s = -1)"
proof (rule socket_wait_loop.raw_induct
    [where P = "\<lambda>env k s m. \<not> (nobody_connects env \<and> es_client_fd s = -1)", OF _ assms], goal_cases)
  case (1 loop env k s m)
  show ?case
  proof
    assume a: "nobody_connects env \<and> es_client_fd s = -1"
    then obtain t where t: "wt_wait env k s = (0, t)" "es_client_fd t = -1"
      unfolding nobody_connects_def by (metis prod.collapse)
    with 1(2) a have "loop env (Suc k) t = Some m" by simp
    from 1(1) [OF this] a t(2) show False by simp
  qed
qed

text \<open>\<open>eventlog_socket_wrap_hs_main\<close> ignores that the initialisation has failed. Whatever the
  reason of the failure, it goes on: without \<open>eso_wait\<close> it evaluates the program and ends with
  the exit code of the scheduler's status; with \<open>eso_wait\<close>, since no worker accepts clients, it
  waits for ever before it evaluates the program.\<close>

theorem main_goes_on_after_failed_init:
  assumes "eventlog_socket_init nd fc (en_init env) mem addr (Some opts) s = Returns st s1"
    and "STATUS_IS_ERROR st"
    and "rts_calls nd (mn_hs_init env) s1 = Returns () s2"
    and "eventlog_socket_signal_ghc_rts_ready (en_signal env) s2 = Returns st2 s3"
    and "\<not> es_mutex s3" "es_client_fd s3 = -1" "nobody_connects (en_wait env)"
    and "rts_calls nd (mn_eval env) s3 = Returns () s4" "exit_status_of (mn_status env) = Some code"
  shows "eventlog_socket_wrap_hs_main nd fc env mem addr (Some opts) s =
     (if eso_wait opts then Hangs else Returns code s4)"
proof -
  have "socket_wait_loop (en_wait env) 0 (s3\<lparr>es_mutex := True\<rparr>) = None"
    using socket_wait_loop_forever [of "en_wait env" 0 "s3\<lparr>es_mutex := True\<rparr>"] assms(6,7)
    by (cases "socket_wait_loop (en_wait env) 0 (s3\<lparr>es_mutex := True\<rparr>)") auto
  then have "eventlog_socket_wait (en_wait env) s3 = Hangs"
    using assms(5,7) by (simp add: eventlog_socket_wait_def nobody_connects_def)
  with assms show ?thesis by (simp add: eventlog_socket_wrap_hs_main_def)
qed

definition demo_main_env :: main_env where
  "demo_main_env =
     \<lparr>en_init = demo_init_env EVENTLOG_NOT_SUPPORTED, en_signal = demo_signal_env,
      en_wait = \<lparr>wt_lock = 0, wt_wait = (\<lambda>_ s. (0, s)), wt_unlock = 0\<rparr>,
      mn_hs_init = [], mn_eval = [], mn_status = Success\<rparr>"

theorem main_goes_on_after_failed_init_witness:
  "eventlog_socket_wrap_hs_main False True demo_main_env Map.empty (EVENTLOG_SOCKET_UNIX None)
     (Some (demo_opts\<lparr>eso_wait := True\<rparr>)) initial_es = Hangs"
proof -
  let ?opts = "demo_opts\<lparr>eso_wait := True\<rparr>"
  have init: "eventlog_socket_init False True (en_init demo_main_env) Map.empty (EVENTLOG_SOCKET_UNIX None)
      (Some ?opts) initial_es = Returns (STATUS_FROM_CODE EVENTLOG_SOCKET_ERR_RTS_NOSUPPORT) initial_es"
    by (simp add: eventlog_socket_init_def demo_main_env_def demo_init_env_def)
  have rts: "rts_calls False (mn_hs_init demo_main_env) initial_es = Returns () initial_es"
    "rts_calls False (mn_eval demo_main_env) s = Returns () s" for s
    by (simp_all add: rts_calls_def demo_main_env_def)
  have "signal_env_ok (en_signal demo_main_env)" by (simp add: demo_main_env_def)
  from signal_first [OF initial_es_signals(1,2) this] obtain s3 where s3:
    "eventlog_socket_signal_ghc_rts_ready (en_signal demo_main_env) initial_es = Returns STATUS_OK s3"
    "\<not> es_mutex s3" "es_client_fd s3 = -1" by (auto simp: rts_signalled_def)
  have nobody: "nobody_connects (en_wait demo_main_env)" "exit_status_of (mn_status demo_main_env) = Some EXIT_SUCCESS"
    by (simp_all add: nobody_connects_def demo_main_env_def exit_status_of_def)
  show ?thesis
    using main_goes_on_after_failed_init [OF init _ rts(1) s3 nobody(1) rts(2) nobody(2)] by simp
qed

section \<open>The exit handler of the control thread\<close>

text \<open>
  The control thread is detached when it is started, and its exit handler joins it: undefined
  behaviour, unless cancelling it fails.
\<close>

theorem control_cleanup_joins_detached_thread:
  assumes "ct_create env = 0" "ct_detach env = 0" "cl_cancel cenv = 0"
  shows "\<exists>s'. es_control_start nd env (Some thread) s = Returns STATUS_OK s' \<and> es_control_cleanup cenv s' = Crashes"
  using assms by (auto simp: es_control_start_def es_control_cleanup_def Let_def sys_def)

text \<open>
  \<open>eventlog_socket_start\<close> reads \<open>eso_wait\<close> through a null pointer when it is called without
  options, although the rest of the library accepts that.
\<close>

theorem start_without_options_crashes:
  assumes "eventlog_socket_init nd fc (en_init env) mem addr None s = Returns STATUS_OK s1"
    and "eventlog_socket_signal_ghc_rts_ready (en_signal env) s1 = Returns STATUS_OK s2"
  shows "eventlog_socket_start nd fc env mem addr None s = Crashes"
  using assms by (simp add: eventlog_socket_start_def)

end
