(* ===== verification/ES_Shared.thy ===== *)
theory ES_Shared
  imports ES_WorkerLife
begin

text \<open>
  The state that the writer and the worker share: whatever the order of their operations and
  whatever the connection does, its memory stays well formed and no operation uses memory wrongly;
  and the direct write of \<open>writer_write\<close> compared with queueing the block for the worker.
\<close>

section \<open>Operations that do not go wrong\<close>

text \<open>
  The call does not crash or fail an assertion, and if it returns, the state satisfies \<open>P\<close>; it may
  end its thread or wait.
\<close>

named_theorems safe_rules

definition safe_with :: "('s \<Rightarrow> bool) \<Rightarrow> ('r, 's) outcome \<Rightarrow> bool" where
  "safe_with P m \<longleftrightarrow>
     (case m of Returns r s \<Rightarrow> P s | ThreadExits s \<Rightarrow> True | Hangs \<Rightarrow> True | Aborts \<Rightarrow> False | Crashes \<Rightarrow> False)"

lemma safe_with_simps [simp]:
  "safe_with P (Returns r s) = P s" "safe_with P (ThreadExits s)" "safe_with P Hangs"
  "\<not> safe_with P Aborts" "\<not> safe_with P Crashes"
  by (simp_all add: safe_with_def)

lemma safe_with_bind [safe_rules]:
  "safe_with Q m \<Longrightarrow> (\<And>r s. Q s \<Longrightarrow> safe_with P (k r s)) \<Longrightarrow> safe_with P (call_bind m k)"
  by (cases m) simp_all

lemma safe_with_EXIT_ON_ERROR [safe_rules]:
  "safe_with Q m \<Longrightarrow> (\<And>s. Q s \<Longrightarrow> safe_with P (k s)) \<Longrightarrow> safe_with P (EXIT_ON_ERROR m save k)"
  by (cases m; simp add: EXIT_ON_ERROR_def EXIT_ON_ERROR_CLEANUP_def)+

lemma safe_with_run_ops:
  assumes "\<And>op s. P s \<Longrightarrow> ok op \<Longrightarrow> safe_with P (step op s)"
  shows "P s \<Longrightarrow> list_all ok ops \<Longrightarrow> safe_with P (run_ops step ops s)"
  by (induction ops arbitrary: s) (auto intro!: safe_with_bind [where Q = P] assms)

section \<open>Well-formed memory\<close>

text \<open>The state inside a critical section.\<close>

definition es_locked :: "es_state \<Rightarrow> bool" where
  "es_locked s \<longleftrightarrow> es_mutex s \<and> wb_rep s (wb_contents s)"

lemma es_lockedI: "es_mutex s \<Longrightarrow> wb_rep s q \<Longrightarrow> es_locked s"
  by (simp add: es_locked_def wb_rep_contents)

lemma ready_lock [safe_rules]: "es_ready s \<Longrightarrow> safe_with es_locked (g_lock 0 s)"
  by (simp add: es_ready_def es_locked_def)

lemma locked_unlock [simp]: "es_locked s \<Longrightarrow> es_ready (s\<lparr>es_mutex := False\<rparr>)"
  by (simp add: es_ready_def es_locked_def)

lemma es_ready_fields [simp]:
  "es_ready (worker_save st s) = es_ready s" "es_ready (trace_event e s) = es_ready s"
  "es_ready (s\<lparr>es_hooks := h\<rparr>) = es_ready s"
  "es_locked (trace_event e s) = es_locked s" "es_locked (s\<lparr>es_client_fd := fd\<rparr>) = es_locked s"
  "es_locked (s\<lparr>es_init_state := i\<rparr>) = es_locked s"
  by (simp_all add: es_ready_def es_locked_def trace_event_def)

lemma locked_free [safe_rules]: "es_locked s \<Longrightarrow> safe_with es_locked (es_write_buffer_free s)"
  using free_rep [of s "wb_contents s"]
  by (auto simp: es_locked_def same_es_def wb_rep_contents dest!: same_esD(3) [unfolded same_es_def])

lemma ready_writer_step:
  assumes "es_ready s" "writer_op_ok op"
  shows "safe_with es_ready (writer_step nd op s)"
  using writer_step_frame [OF _ assms(2), of _ s nd] assms(1) by (fastforce simp: writer_frame_def)

lemma ready_rts_calls [safe_rules]:
  "es_ready s \<Longrightarrow> list_all writer_op_ok ops \<Longrightarrow> safe_with es_ready (rts_calls nd ops s)"
  unfolding rts_calls_def
  by (rule safe_with_bind [where Q = es_ready])
    (auto intro!: safe_with_run_ops [where ok = writer_op_ok] ready_writer_step)

lemma ready_handle_hook [safe_rules]: "es_ready s \<Longrightarrow> safe_with es_ready (handle_hook_es env hook s)"
  by (auto simp: handle_hook_es_def es_hooks_handle_hook_def hooks_lock_def hooks_unlock_def
      RETURN_ON_ERROR_def RETURN_ON_ERROR_CLEANUP_def Let_def split: outcome.splits option.splits)

lemma ready_wake_drain [safe_rules]: "es_ready s \<Longrightarrow> safe_with es_ready (es_worker_wake_drain reads s)"
  by (simp add: es_worker_wake_drain_def split: option.splits)

lemma locked_write_loop:
  assumes "es_locked s"
  shows "safe_with es_locked (case step_write_loop writes 0 s of None \<Rightarrow> Hangs | Some r \<Rightarrow> r)"
proof -
  obtain sent' q' broken where
    d: "drain_spec writes 0 (es_sent s (es_client_fd s)) (wb_contents s) = (sent', q', broken)"
    by (metis prod_cases3)
  have s: "wb_rep s (wb_contents s)" "es_mutex s" using assms by (simp_all add: es_locked_def)
  from step_write_loop_ok [OF s(1) d] obtain s' where
    "step_write_loop writes 0 s = Some (Returns () s')" "wb_rep s' q'" "es_mutex s' = es_mutex s" by blast
  with s(2) es_lockedI [of s' q'] show ?thesis by simp
qed

section \<open>The worker's steps\<close>

text \<open>
  The environment's part. Locks succeed; the other threads, when they run during a step, leave the
  state well formed; the calls of the RTS are those of the writer with a working allocator.
  Everything else is arbitrary: what \<open>poll\<close>, \<open>read\<close>, \<open>write\<close>, \<open>accept\<close>, \<open>listen\<close>, the hooks'
  mutex and \<open>startEventLogging\<close> answer, and whether the other threads change the connection
  between the worker's snapshot and its step. That may make an assertion of a debug build fail:
  \<open>hangup_race\<close> says when.
\<close>

definition listen_env_ok :: "listen_env \<Rightarrow> bool" where
  "listen_env_ok env \<longleftrightarrow>
     (\<forall>i. le_rc env i = 0) \<and> (\<forall>k s. es_locked s \<longrightarrow> es_locked (snd (le_wait env k s))) \<and>
     (\<forall>i s. es_ready s \<longrightarrow> es_ready (le_other env i s)) \<and>
     list_all writer_op_ok (le_end env) \<and> (\<forall>j. list_all writer_op_ok (snd (le_start env j)))"

definition worker_env_ok :: "bool \<Rightarrow> worker_env \<Rightarrow> bool" where
  "worker_env_ok nd env \<longleftrightarrow>
     ws_lock env = 0 \<and> ws_unlock env = 0 \<and> (\<forall>s. es_ready s \<longrightarrow> es_ready (ws_other env s)) \<and>
     ne_lock (ws_nonwrite env) = 0 \<and> ne_unlock (ws_nonwrite env) = 0 \<and>
     se_lock (ws_write env) = 0 \<and> se_unlock (ws_write env) = 0 \<and> listen_env_ok (ws_listen env)"

text \<open>
  The worker's snapshot shows a client and waiting bytes, another thread then changes the
  connection, and \<open>poll\<close> reports a hangup of the snapshot's descriptor: \<open>assert(fd == *client_fd)\<close>
  fails.
\<close>

definition hangup_race :: "bool \<Rightarrow> worker_env \<Rightarrow> es_state \<Rightarrow> bool" where
  "hangup_race nd env s \<longleftrightarrow>
     \<not> nd \<and> es_client_fd s \<noteq> -1 \<and> wb_head s \<noteq> None \<and>
     es_client_fd (ws_other env s) \<noteq> es_client_fd s \<and>
     (case se_poll (ws_write env) of PollReady r _ \<Rightarrow> rv_POLLHUP r | _ \<Rightarrow> False)"

lemma wait_rts_ready_loop_safe:
  assumes "wait_rts_ready_loop env k s = Some m" "listen_env_ok env" "es_locked s"
  shows "safe_with es_locked m"
  using assms(2,3)
proof (rule_tac wait_rts_ready_loop.raw_induct
    [where P = "\<lambda>env k s m. listen_env_ok env \<longrightarrow> es_locked s \<longrightarrow> safe_with es_locked m",
      OF _ assms(1), rule_format], goal_cases)
  case (1 loop env k s m)
  have "es_locked (snd (le_wait env k s))" using 1 by (simp add: listen_env_ok_def)
  with 1 show ?case by (cases "le_wait env k s") (auto split: if_splits)
qed auto

lemma start_logging_loop_safe:
  assumes "start_logging_loop nd env k s = Some m" "listen_env_ok env" "es_ready s"
  shows "safe_with es_ready m"
  using assms(2,3)
proof (rule_tac start_logging_loop.raw_induct
    [where P = "\<lambda>nd env k s m. listen_env_ok env \<longrightarrow> es_ready s \<longrightarrow> safe_with es_ready m",
      OF _ assms(1), rule_format], goal_cases)
  case (1 loop nd env k s m)
  obtain is_started ops where st: "le_start env k = (is_started, ops)" by (cases "le_start env k")
  have "safe_with es_ready (rts_calls nd ops (trace_event (EvStartEventLogging is_started) s))"
    using 1 st by (intro safe_rules) (auto simp: listen_env_ok_def dest: spec [of _ k])
  moreover have "(case rts_calls nd ops (trace_event (EvStartEventLogging is_started) s) of
      Returns _ s \<Rightarrow> if is_started then Some (Returns () s) else loop nd env (Suc k) s
    | ThreadExits s \<Rightarrow> Some (ThreadExits s) | Aborts \<Rightarrow> Some Aborts | Crashes \<Rightarrow> Some Crashes
    | Hangs \<Rightarrow> Some Hangs) = Some m" using 1 st by simp
  moreover have "safe_with es_ready m" if "loop nd env (Suc k) t = Some m" "es_ready t" for t
    using that 1 by blast
  ultimately show ?case by (auto simp: safe_with_def split: outcome.splits if_splits)
qed auto

lemma worker_loops_safe [safe_rules]:
  "listen_env_ok env \<Longrightarrow> es_locked s \<Longrightarrow>
     safe_with es_locked (case wait_rts_ready_loop env 0 s of None \<Rightarrow> Hangs | Some r \<Rightarrow> r)"
  "listen_env_ok env \<Longrightarrow> es_ready t \<Longrightarrow>
     safe_with es_ready (case start_logging_loop nd env 0 t of None \<Rightarrow> Hangs | Some r \<Rightarrow> r)"
  by (auto split: option.splits intro: wait_rts_ready_loop_safe start_logging_loop_safe)

lemma lock_status_safe [safe_rules]:
  "es_ready s \<Longrightarrow> safe_with es_locked (call_bind (g_lock 0 s) (\<lambda>rc. Returns (STATUS_FROM_PTHREAD rc)))"
  by (simp add: es_ready_def es_locked_def)

lemma worker_step_parts_safe:
  assumes "listen_env_ok env" "es_ready s"
  shows "safe_with es_ready (es_worker_wait_rts_ready env s)"
    and "safe_with es_ready (connect_stop nd env stop att s)"
    and "safe_with es_ready (connect_publish env fd s)"
    and "safe_with es_ready (connect_start nd env start s)"
    and "safe_with es_ready (connect_mark_first env had s)"
proof -
  have rc: "le_rc env i = 0" for i using assms(1) by (simp add: listen_env_ok_def)
  have ops: "list_all writer_op_ok (le_end env)" using assms(1) by (simp add: listen_env_ok_def)
  show "safe_with es_ready (es_worker_wait_rts_ready env s)"
    unfolding es_worker_wait_rts_ready_def rc
  proof (rule safe_with_EXIT_ON_ERROR [OF lock_status_safe [OF assms(2)]],
      rule safe_with_bind [OF worker_loops_safe(1) [OF assms(1)]])
    show "safe_with es_ready (EXIT_ON_ERROR (Returns (STATUS_FROM_PTHREAD 0) (g_unlock 0 t)) worker_save
        (Returns ()))" if "es_locked t" for t
      by (rule safe_with_EXIT_ON_ERROR [where Q = es_ready]) (use that in simp_all)
  qed
  show "safe_with es_ready (connect_stop nd env stop att s)"
    using assms(2) ops
    by (auto simp: connect_stop_def Let_def intro!: safe_with_EXIT_ON_ERROR [where Q = es_ready] safe_rules)
  show "safe_with es_ready (connect_publish env fd s)"
    unfolding connect_publish_def rc
    by (rule safe_with_bind [where Q = es_locked]) (use assms(2) in \<open>auto simp: Let_def intro: ready_lock\<close>)
  show "safe_with es_ready (connect_start nd env start s)"
    using assms
    by (auto simp: connect_start_def intro!: safe_with_bind [where Q = es_ready]
        safe_with_EXIT_ON_ERROR [where Q = es_ready] safe_rules)
  show "safe_with es_ready (connect_mark_first env had s)"
    unfolding connect_mark_first_def rc
    using assms(2) by (auto simp: Let_def intro!: safe_with_bind [where Q = es_locked] ready_lock)
qed

lemma connect_client_safe:
  assumes "listen_env_ok env" "es_ready s"
  shows "safe_with es_ready (connect_client nd env fd s)"
proof -
  have rc: "le_rc env i = 0" for i using assms(1) by (simp add: listen_env_ok_def)
  note parts = worker_step_parts_safe [OF assms(1)]
  have other: "es_ready (le_other env i t)" if "es_ready t" for i t
    using assms(1) that by (simp add: listen_env_ok_def)
  have rest: "safe_with es_ready
      (call_bind (connect_stop nd env stop att (le_other env 1 t)) (\<lambda>_ s.
         call_bind (connect_publish env fd (le_other env 2 s)) (\<lambda>_ s.
           call_bind (connect_start nd env start (le_other env 3 s)) (\<lambda>_ s.
             connect_mark_first env had (le_other env 4 s)))))"
    if "es_ready t" for stop att start had t
    by (intro safe_with_bind [where Q = es_ready] parts other that)
  show ?thesis
    unfolding connect_client_def rc Let_def
    by (rule safe_with_bind [OF ready_lock [OF assms(2)]]) (simp add: rest [simplified])
qed

lemma step_listen_safe:
  assumes "listen_env_ok env" "es_ready s"
  shows "safe_with es_ready (es_worker_step_listen nd env s)"
proof -
  have other: "es_ready (le_other env i t)" if "es_ready t" for i t
    using assms(1) that by (simp add: listen_env_ok_def)
  have accepted: "safe_with es_ready (call_bind (es_worker_wait_rts_ready env t)
      (\<lambda>_ s. connect_client nd env fd (le_other env 0 s)))"
    if "es_ready t" for fd t
    using worker_step_parts_safe(1) [OF assms(1) that] connect_client_safe [OF assms(1) other]
    by (rule safe_with_bind)
  have exit: "safe_with es_ready (EXIT_ON_ERROR (Returns st t) worker_save k)"
    if "es_ready t" "\<And>t. es_ready t \<Longrightarrow> safe_with es_ready (k t)" for st t k
    by (rule safe_with_EXIT_ON_ERROR [where Q = es_ready]) (use that in simp_all)
  show ?thesis
    unfolding es_worker_step_listen_def Let_def
    by (intro exit assms(2)) (auto split: option.splits accept_result.splits intro!: exit accepted)
qed

lemma hangup_safe:
  assumes "es_ready s"
  shows "safe_with es_ready (call_bind (g_lock 0 s) (\<lambda>_ s.
      call_bind (es_write_buffer_free (s\<lparr>es_client_fd := -1\<rparr>)) (\<lambda>_ s. Returns () (g_unlock 0 s))))"
  by (rule safe_with_bind [OF ready_lock [OF assms]], rule safe_with_bind [where Q = es_locked])
    (auto intro: locked_free)

lemma step_nonwrite_safe:
  assumes "ne_lock env = 0" "ne_unlock env = 0" "es_ready s"
  shows "safe_with es_ready (es_worker_step_nonwrite env fd s)"
  using hangup_safe [OF assms(3)] ready_wake_drain [OF assms(3)] assms
  by (simp add: es_worker_step_nonwrite_def Let_def split: poll_result.splits)

lemma step_write_safe:
  assumes "se_lock env = 0" "se_unlock env = 0" "es_ready s"
    and "nd \<or> es_client_fd s = fd \<or> \<not> (case se_poll env of PollReady r _ \<Rightarrow> rv_POLLHUP r | _ \<Rightarrow> False)"
  shows "safe_with es_ready (es_worker_step_write nd env fd s)"
proof -
  have drain: "safe_with es_ready (call_bind (g_lock 0 s) (\<lambda>_ s.
      call_bind (case step_write_loop (se_writes env) 0 s of None \<Rightarrow> Hangs | Some r \<Rightarrow> r)
        (\<lambda>_ s. Returns () (g_unlock 0 s))))"
    by (rule safe_with_bind [OF ready_lock [OF assms(3)]], rule safe_with_bind [OF locked_write_loop])
      simp_all
  have hangup: "safe_with es_ready (call_bind (g_lock 0 s) (\<lambda>_ t. c_assert nd (fd = es_client_fd t)
      (call_bind (es_write_buffer_free (t\<lparr>es_client_fd := -1\<rparr>)) (\<lambda>_ s. Returns () (g_unlock 0 s)))))"
    if "nd \<or> es_client_fd s = fd"
    using hangup_safe [OF assms(3)] assms(3) that by (auto simp: es_ready_def)
  show ?thesis
    using drain hangup assms
    by (cases "nd \<or> es_client_fd s = fd")
      (simp_all add: es_worker_step_write_def Let_def no_revents_def split: poll_result.splits)
qed

lemma worker_step_safe:
  assumes "worker_env_ok nd env" "es_ready s" "\<not> hangup_race nd env s"
  shows "safe_with es_ready (es_worker_step nd env s)"
proof -
  have s: "\<not> es_mutex s" "s\<lparr>es_mutex := False\<rparr> = s"
    using assms(2) by (simp_all add: es_ready_def)
  let ?t = "ws_other env s"
  have t: "es_ready ?t" using assms by (auto simp: worker_env_ok_def)
  have "safe_with es_ready (es_worker_step_nonwrite (ws_nonwrite env) fd ?t)"
    "safe_with es_ready (es_worker_step_listen nd (ws_listen env) ?t)" for fd
    using assms(1) t by (auto simp: worker_env_ok_def intro!: step_nonwrite_safe step_listen_safe)
  moreover have "safe_with es_ready (es_worker_step_write nd (ws_write env) (es_client_fd s) ?t)"
    if "es_client_fd s \<noteq> -1" "wb_head s \<noteq> None"
    using assms(1,3) t that by (intro step_write_safe) (auto simp: worker_env_ok_def hangup_race_def)
  ultimately show ?thesis using s(1) assms(1) by (simp add: es_worker_step_def worker_env_ok_def Let_def s(2))
qed

lemma worker_step_race:
  assumes "worker_env_ok nd env" "es_ready s" "hangup_race nd env s"
  shows "es_worker_step nd env s = Aborts"
proof -
  have s: "\<not> es_mutex s" "s\<lparr>es_mutex := False\<rparr> = s" "\<not> es_mutex (ws_other env s)"
    using assms(1,2) by (auto simp: worker_env_ok_def es_ready_def)
  with assms(1,3) show ?thesis
    by (auto simp: es_worker_step_def es_worker_step_write_def worker_env_ok_def hangup_race_def Let_def
        s(2) split: poll_result.splits)
qed

text \<open>In every case the step, if it returns, leaves the shared state well formed.\<close>

lemma worker_step_keeps:
  assumes "worker_env_ok nd env" "es_ready s"
  shows "returns_with es_ready (es_worker_step nd env s)"
  using worker_step_safe [OF assms] worker_step_race [OF assms]
  by (cases "hangup_race nd env s"; cases "es_worker_step nd env s") simp_all

section \<open>Any interleaving\<close>

datatype shared_op =
    RtsCalls writer_op
  | WorkerSteps worker_env

fun shared_step :: "bool \<Rightarrow> shared_op \<Rightarrow> es_state \<Rightarrow> (unit, es_state) outcome" where
  "shared_step nd (RtsCalls op) s = call_bind (writer_step nd op s) (\<lambda>_. Returns ())"
| "shared_step nd (WorkerSteps env) s = es_worker_step nd env s"

fun shared_op_ok :: "bool \<Rightarrow> shared_op \<Rightarrow> bool" where
  "shared_op_ok nd (RtsCalls op) \<longleftrightarrow> writer_op_ok op"
| "shared_op_ok nd (WorkerSteps env) \<longleftrightarrow> worker_env_ok nd env \<and> (\<forall>s. \<not> hangup_race nd env s)"

lemma shared_step_safe:
  assumes "es_ready s" "shared_op_ok nd op"
  shows "safe_with es_ready (shared_step nd op s)"
proof (cases op)
  case (RtsCalls wop)
  then show ?thesis
    using assms by (auto intro: safe_with_bind ready_writer_step)
next
  case (WorkerSteps env)
  then show ?thesis using worker_step_safe assms by simp
qed

lemma shared_step_exits: "exits_with status_saved (shared_step nd op s)"
  by (cases op) (auto intro!: exit_rules worker_step_exits)

text \<open>The shared state is memory safe. In any order of calls of the writer by the RTS and of
  steps of the worker, whatever the network does (a hangup at any time, broken, partial or failing
  writes, failing polls, clients that come and go), no operation uses freed or unallocated memory
  or fails an assertion; and if all of them return, the mutex is free and the write buffer is a
  well-formed list again. An operation may wait for ever or end its thread, the latter only with
  an error in the worker's status.\<close>

theorem shared_state_stays_well_formed:
  assumes "es_ready s" "list_all (shared_op_ok nd) ops"
  shows "case run_ops (shared_step nd) ops s of
       Returns _ s' \<Rightarrow> \<not> es_mutex s' \<and> wb_rep s' (wb_contents s')
     | ThreadExits s' \<Rightarrow> STATUS_IS_ERROR (es_worker_status s')
     | Hangs \<Rightarrow> True
     | Aborts \<Rightarrow> False
     | Crashes \<Rightarrow> False"
  using safe_with_run_ops [of es_ready "shared_op_ok nd" "shared_step nd", OF shared_step_safe assms]
    exits_with_run_ops [of status_saved "shared_step nd" ops s, OF shared_step_exits]
  by (auto simp: safe_with_def exits_with_def status_saved_def es_ready_def split: outcome.splits)

lemma demo_worker_env_ok [simp]: "worker_env_ok nd (demo_worker_env listen)"
  by (auto simp: worker_env_ok_def demo_worker_env_def demo_drain_env_def listen_env_ok_def
      demo_listen_env_def)

lemma demo_worker_env_no_race [simp]: "\<not> hangup_race nd (demo_worker_env listen) s"
  by (simp add: hangup_race_def demo_worker_env_def)

theorem shared_state_stays_well_formed_witness:
  "case run_ops (shared_step False)
       [RtsCalls (WriterInit (demo_write_env (IoBytes 0))),
        RtsCalls (WriterWrite (demo_write_env (IoError EPIPE)) [1, 2]),
        WorkerSteps (demo_worker_env None)] initial_es of
     Returns _ s' \<Rightarrow> \<not> es_mutex s' \<and> wb_rep s' (wb_contents s')
   | ThreadExits s' \<Rightarrow> STATUS_IS_ERROR (es_worker_status s')
   | Hangs \<Rightarrow> True
   | Aborts \<Rightarrow> False
   | Crashes \<Rightarrow> False"
  by (rule shared_state_stays_well_formed) simp_all

section \<open>A race with the end of event logging\<close>

text \<open>
  The race that \<open>hangup_race\<close> describes can happen: if the RTS stops the writer between the worker's
  snapshot and its step, and the step finds a hangup, the assertion that the descriptor is still
  the snapshot's fails in a debug build.
\<close>

theorem stop_after_snapshot_aborts:
  assumes "connected s" "wb_head s \<noteq> None" "ws_lock env = 0" "ws_unlock env = 0"
    and "we_lock wenv = 0" "we_unlock wenv = 0"
    and "\<And>t. writer_stop wenv s = Returns () t \<Longrightarrow> ws_other env s = t"
    and "se_poll (ws_write env) = PollReady r r'" "rv_POLLHUP r" "se_lock (ws_write env) = 0"
  shows "es_worker_step False env s = Aborts"
proof -
  have s: "\<not> es_mutex s" "s\<lparr>es_mutex := False\<rparr> = s" "wb_rep s (wb_contents s)" "es_client_fd s \<ge> 0"
    using assms(1) by (simp_all add: connected_def es_ready_def)
  let ?s1 = "s\<lparr>es_mutex := True, es_init_state := es_init_state s AND NOT EVENTLOG_SOCKET_SIG_ATTACHED,
      es_closed := es_closed s @ [es_client_fd s], es_client_fd := -1\<rparr>"
  have "wb_rep ?s1 (wb_contents s)" using s(3) by simp
  from free_rep [OF this] obtain t where t: "es_write_buffer_free ?s1 = Returns () t" "same_es t ?s1"
    by (auto simp: same_es_def)
  have stop: "writer_stop wenv s = Returns () (t\<lparr>es_mutex := False\<rparr>)"
    using s(1,4) t(1) assms(5,6) by (simp add: writer_stop_def Let_def)
  from assms(7) [OF this] same_esD(1) [OF t(2)] s(1,4) assms(2-4,8-10) show ?thesis
    by (auto simp: es_worker_step_def es_worker_step_write_def Let_def s(2))
qed

section \<open>The direct write and the queue\<close>

text \<open>
  \<open>writer_write\<close> writes a block directly to the socket when nothing is waiting; otherwise it queues
  it and the worker writes it. The same answer of the kernel to the \<open>write\<close> gives the same result
  in both ways, but not for every error.
\<close>

definition direct_and_queued :: "bool \<Rightarrow> write_env \<Rightarrow> step_write_env \<Rightarrow> byte list \<Rightarrow> es_state \<Rightarrow>
    (bool, es_state) outcome \<times> (unit, es_state) outcome" where
  "direct_and_queued nd env wenv d s =
     (writer_write nd env d s,
      call_bind (writer_enqueue nd env d s) (\<lambda>_. es_worker_step_write nd wenv (es_client_fd s)))"

text \<open>C23: the direct write of \<open>writer_write\<close> is equivalent to queueing the block and letting the
  worker write it: after both, the same bytes have been sent, the same bytes are waiting and the
  connection is the same, whenever the kernel accepts any number of bytes or answers \<open>EAGAIN\<close>. They
  differ on a broken pipe, where only the worker forgets the connection, and on any other error
  (such as \<open>EINTR\<close>), where the worker keeps the block but the direct write drops it.\<close>

theorem direct_write_equals_queued_write:
  assumes "connected s" "wb_contents s = []" "write_env_ok env"
    and "se_poll wenv = PollReady r r'" "rv_POLLOUT r" "\<not> rv_POLLHUP r"
    and "se_lock wenv = 0" "se_unlock wenv = 0" "se_writes wenv 0 = we_write env"
  shows "\<exists>s1 s2. direct_and_queued nd env wenv d s = (Returns True s1, Returns () s2)
     \<and> es_sent s1 = es_sent s2
     \<and> (case we_write env of
          IoBytes n \<Rightarrow> wb_contents s1 = wb_contents s2 \<and> es_client_fd s1 = es_client_fd s2
        | IoError errno \<Rightarrow>
            if errno = EAGAIN then wb_contents s1 = wb_contents s2 \<and> es_client_fd s1 = es_client_fd s2
            else wb_contents s1 = [] \<and> es_client_fd s1 = es_client_fd s \<and>
              (if errno = EPIPE then wb_contents s2 = [] \<and> es_client_fd s2 = -1
               else wb_contents s2 = [d] \<and> es_client_fd s2 = es_client_fd s))"
proof -
  let ?fd = "es_client_fd s"
  have s: "\<not> es_mutex s" "wb_rep s []" "?fd \<ge> 0"
    using assms(1,2) by (auto simp: connected_def es_ready_def)
  from writer_write_ok [OF assms(3) s(2,1), of nd d] obtain s1 q1 where s1:
    "writer_write nd env d s = Returns True s1" "wb_rep s1 q1" "es_client_fd s1 = ?fd"
    "(es_sent s1, q1) = write_spec ?fd
       (has_sig EVENTLOG_SOCKET_SIG_HAD_FIRST_CONNECTION (es_init_state s)) (we_write env) d
       (es_sent s, [])" by blast
  obtain t where t: "writer_enqueue nd env d s = Returns () t" "wb_rep t [d]" "same_es t s"
    using enqueue_ok [OF assms(3) s(2), of nd d] by auto
  note f = same_esD [OF t(3)]
  obtain sent' q2 broken where
    d: "drain_spec (se_writes wenv) 0 (es_sent t (es_client_fd t)) [d] = (sent', q2, broken)"
    by (metis prod_cases3)
  let ?t1 = "t\<lparr>es_mutex := True\<rparr>"
  have "wb_rep ?t1 [d]" using t(2) by simp
  from step_write_loop_ok [OF this, of "se_writes wenv" 0 sent' q2 broken] d obtain s2 where s2:
    "step_write_loop (se_writes wenv) 0 ?t1 = Some (Returns () s2)" "wb_rep s2 q2"
    "es_sent s2 = (es_sent t)(es_client_fd t := sent')"
    "es_client_fd s2 = (if broken then -1 else es_client_fd t)" by auto
  let ?s2 = "s2\<lparr>es_mutex := False\<rparr>"
  have "es_worker_step_write nd wenv ?fd t = Returns () ?s2"
    using assms(4-8) s(1) f s2(1) by (simp add: es_worker_step_write_def Let_def)
  then have pair: "direct_and_queued nd env wenv d s = (Returns True s1, Returns () ?s2)"
    using s1(1) t(1) by (simp add: direct_and_queued_def)
  have q: "wb_contents s1 = q1" "wb_contents ?s2 = q2"
    using s1(2) s2(2) by (simp_all add: wb_rep_contents)
  have sent: "es_sent s1 = es_sent s2"
    using s1(4) s2(3) d f s(3) assms(9)
    by (auto simp: write_spec_def fun_eq_iff split: io_result.splits if_splits)
  show ?thesis
    unfolding pair using sent q s1(3,4) s2(4) d f s(3) assms(9)
    by (auto simp: write_spec_def errno_distinct split: io_result.splits if_splits)
qed

theorem direct_write_equals_queued_write_witness:
  "\<exists>s1 s2. direct_and_queued False (demo_write_env (IoBytes 2)) (demo_drain_env (\<lambda>_. IoBytes 2)) [1, 2, 3]
       demo_connected = (Returns True s1, Returns () s2)
     \<and> es_sent s1 = es_sent s2 \<and> wb_contents s1 = wb_contents s2"
  using direct_write_equals_queued_write [of demo_connected "demo_write_env (IoBytes 2)"
      "demo_drain_env (\<lambda>_. IoBytes 2)" "no_revents\<lparr>rv_POLLOUT := True\<rparr>" no_revents False "[1, 2, 3]"]
  by (auto simp: demo_drain_env_def no_revents_def)

end
