(* ===== verification/ES_System.thy ===== *)
theory ES_System
  imports ES_Init ES_Shared
begin

text \<open>
  The whole program as a transition system: threads of the RTS that call the writer, the worker,
  the control thread, and threads of the user that register hooks, namespaces and commands or
  signal that the RTS is ready. A transition is one operation of one thread that returns; which
  thread is next is not determined. Invariants of the reachable states by rule induction.
\<close>

section \<open>The transitions\<close>

datatype user_call =
    SignalsReady signal_env
  | RegistersHook hook_env int "nat option" user_data
  | RegistersNamespace control_env byte "byte list" bool
  | RegistersCommand control_env "namespace_ptr option" EventlogSocketControlCommandId
      "EventlogSocketControlCommandHandler option" user_data

datatype program_act =
    ByRts writer_op
  | ByWorker worker_env
  | ByControl ctl_env
  | ByUser user_call

definition register_hook_es ::
  "bool \<Rightarrow> hook_env \<Rightarrow> int \<Rightarrow> nat option \<Rightarrow> user_data \<Rightarrow> es_state \<Rightarrow> (EventlogSocketStatus, es_state) outcome"
where
  "register_hook_es nd env hook handler data s =
     (case es_hooks_register_hook nd env hook handler data (es_hooks s) of
        Returns st h \<Rightarrow> Returns st (s\<lparr>es_hooks := h\<rparr>)
      | ThreadExits h \<Rightarrow> ThreadExits (s\<lparr>es_hooks := h\<rparr>)
      | Aborts \<Rightarrow> Aborts
      | Crashes \<Rightarrow> Crashes
      | Hangs \<Rightarrow> Hangs)"

fun perform_user :: "bool \<Rightarrow> user_call \<Rightarrow> system \<Rightarrow> (unit, system) outcome" where
  "perform_user nd (SignalsReady env) s =
     call_bind (on_es (eventlog_socket_signal_ghc_rts_ready env) s) (\<lambda>_. Returns ())"
| "perform_user nd (RegistersHook env hook handler data) s =
     call_bind (on_es (register_hook_es nd env hook handler data) s) (\<lambda>_. Returns ())"
| "perform_user nd (RegistersNamespace env len name out_nonnull) s =
     call_bind (on_ctl (es_control_register_namespace env len name out_nonnull) s) (\<lambda>_. Returns ())"
| "perform_user nd (RegistersCommand env ns cid handler data) s =
     call_bind (on_ctl (es_control_register_command env ns cid handler data) s) (\<lambda>_. Returns ())"

fun perform :: "bool \<Rightarrow> program_act \<Rightarrow> system \<Rightarrow> (unit, system) outcome" where
  "perform nd (ByRts op) s = call_bind (on_es (writer_step nd op) s) (\<lambda>_. Returns ())"
| "perform nd (ByWorker env) s = on_es (es_worker_step nd env) s"
| "perform nd (ByControl env) s = control_iteration nd env s"
| "perform nd (ByUser call) s = perform_user nd call s"

text \<open>
  What is assumed of each transition. Locks succeed and memory is available; when the operation
  waits or leaves its critical section, the other threads keep the shared state well formed; the
  user passes a pointer to a namespace that he has got from a registration, and a handler; the
  control thread receives at most 255 bytes at once.
\<close>

definition ctl_act_ok :: "ctl_env \<Rightarrow> bool" where
  "ctl_act_ok env \<longleftrightarrow>
     ctl_env_ok env \<and> (\<forall>s. es_ready s \<longrightarrow> es_ready (ce_other env s)) \<and>
     (\<forall>s. es_locked s \<longrightarrow> es_locked (snd (ce_wait env s)))"

fun user_call_ok :: "system \<Rightarrow> user_call \<Rightarrow> bool" where
  "user_call_ok s (SignalsReady env) \<longleftrightarrow> sg_lock env = 0 \<and> sg_unlock env = 0"
| "user_call_ok s (RegistersHook env hook handler data) \<longleftrightarrow> hook_env_ok env"
| "user_call_ok s (RegistersNamespace env len name out_nonnull) \<longleftrightarrow> control_env_ok env"
| "user_call_ok s (RegistersCommand env ns cid handler data) \<longleftrightarrow>
     control_env_ok env \<and> handler \<noteq> None \<and>
     (case ns of None \<Rightarrow> True | Some p \<Rightarrow> p < length (ctl_namespace_registry (sy_ctl s)))"

fun act_ok :: "bool \<Rightarrow> system \<Rightarrow> program_act \<Rightarrow> bool" where
  "act_ok nd s (ByRts op) \<longleftrightarrow> writer_op_ok op"
| "act_ok nd s (ByWorker env) \<longleftrightarrow> worker_env_ok nd env"
| "act_ok nd s (ByControl env) \<longleftrightarrow> ctl_act_ok env"
| "act_ok nd s (ByUser call) \<longleftrightarrow> user_call_ok s call"

inductive program_step :: "bool \<Rightarrow> system \<Rightarrow> program_act \<Rightarrow> system \<Rightarrow> bool" for nd :: bool where
  step: "act_ok nd s a \<Longrightarrow> perform nd a s = Returns () s' \<Longrightarrow> program_step nd s a s'"

inductive program_run :: "bool \<Rightarrow> system \<Rightarrow> program_act list \<Rightarrow> system \<Rightarrow> bool" for nd :: bool where
  stop: "program_run nd s [] s"
| go: "program_run nd s acts t \<Longrightarrow> program_step nd t a u \<Longrightarrow> program_run nd s (acts @ [a]) u"

inductive_simps program_step_iff: "program_step nd s a s'"
inductive_cases program_step_rts: "program_step nd s (ByRts op) s'"
  and program_step_worker: "program_step nd s (ByWorker env) s'"
  and program_step_control: "program_step nd s (ByControl env) s'"
  and program_step_user: "program_step nd s (ByUser call) s'"

section \<open>Each operation keeps the state well formed\<close>

definition program_ok :: "system \<Rightarrow> bool" where
  "program_ok s \<longleftrightarrow>
     es_ready (sy_es s) \<and> parser_ready (sy_ctl s) \<and> length (sy_chunk s) = CHUNK_SIZE"

lemma program_ok_initial: "program_ok initial_system"
  by (simp add: program_ok_def initial_system_def)

lemma on_es_safe:
  "safe_with es_ready (f (sy_es s)) \<Longrightarrow> program_ok s \<Longrightarrow> safe_with program_ok (on_es f s)"
  by (cases "f (sy_es s)") (simp_all add: on_es_def program_ok_def)

lemma on_ctl_safe:
  "safe_with parser_ready (f (sy_ctl s)) \<Longrightarrow> program_ok s \<Longrightarrow> safe_with program_ok (on_ctl f s)"
  by (cases "f (sy_ctl s)") (simp_all add: on_ctl_def program_ok_def)

lemma safe_with_unit: "safe_with P m \<Longrightarrow> safe_with P (call_bind m (\<lambda>_. Returns ()))"
  by (cases m) simp_all

lemma signal_safe:
  assumes "es_ready s" "sg_lock env = 0" "sg_unlock env = 0"
  shows "safe_with es_ready (eventlog_socket_signal_ghc_rts_ready env s)"
proof -
  have s: "\<not> es_mutex s" "wb_rep s (wb_contents s)" using assms(1) by (simp_all add: es_ready_def)
  have locked: "safe_with es_locked (handle_hook_es h hook (s\<lparr>es_mutex := True\<rparr>))" for h hook
    using s
    by (auto simp: handle_hook_es_def es_hooks_handle_hook_def hooks_lock_def hooks_unlock_def
        RETURN_ON_ERROR_def RETURN_ON_ERROR_CLEANUP_def Let_def es_locked_def trace_event_def
        split: outcome.splits option.splits)
  show ?thesis
    using s assms(2,3) locked [of "sg_hook env" EVENTLOG_SOCKET_HOOK_POST_START_EVENT_LOGGING]
    by (cases "handle_hook_es (sg_hook env) EVENTLOG_SOCKET_HOOK_POST_START_EVENT_LOGGING
          (s\<lparr>es_mutex := True\<rparr>)")
      (auto simp: eventlog_socket_signal_ghc_rts_ready_def RETURN_ON_ERROR_def
        RETURN_ON_ERROR_CLEANUP_def Let_def es_ready_def es_locked_def trace_event_def)
qed

lemma register_hook_safe:
  assumes "es_ready s" "hook_env_ok env"
  shows "safe_with es_ready (register_hook_es nd env hook handler data s)"
  using assms
  by (auto simp: register_hook_es_def es_hooks_register_hook_def hooks_lock_def hooks_unlock_def
      hook_env_ok_def RETURN_ON_ERROR_def RETURN_ON_ERROR_CLEANUP_def Let_def
      split: outcome.splits option.splits malloc_result.splits)

text \<open>A registry that has grown: nothing is removed, renamed or reordered.\<close>

definition registry_grows :: "registry \<Rightarrow> registry \<Rightarrow> bool" where
  "registry_grows r r' \<longleftrightarrow>
     length r \<le> length r' \<and>
     (\<forall>p < length r. ns_namespace_len (r' ! p) = ns_namespace_len (r ! p)
        \<and> ns_namespace (r' ! p) = ns_namespace (r ! p)
        \<and> prefix (ns_command_registry (r ! p)) (ns_command_registry (r' ! p)))"

lemma registry_grows_refl [simp]: "registry_grows r r"
  by (simp add: registry_grows_def)

lemma registry_grows_trans: "registry_grows r r' \<Longrightarrow> registry_grows r' r'' \<Longrightarrow> registry_grows r r''"
  by (auto simp: registry_grows_def intro: prefix_order.trans)

lemma registry_grows_append [simp]: "registry_grows r (r @ [e])"
  by (simp add: registry_grows_def nth_append)

lemma registry_grows_command [simp]:
  "registry_grows r (r[p := (r ! p)\<lparr>ns_command_registry := ns_command_registry (r ! p) @ [c]\<rparr>])"
  by (cases "p < length r") (auto simp: registry_grows_def nth_list_update)

lemma parser_wf_grows: "parser_wf r st \<Longrightarrow> length r \<le> length r' \<Longrightarrow> parser_wf r' st"
  by (cases st) (auto split: option.splits)

lemma parser_ready_grows:
  assumes "parser_ready s" "registry_ready s'" "handlers_set s'"
    and "ctl_command_parser_state s' = ctl_command_parser_state s"
    and "registry_grows (ctl_namespace_registry s) (ctl_namespace_registry s')"
  shows "parser_ready s'"
  using assms parser_wf_grows by (auto simp: parser_ready_def registry_grows_def)

lemma register_namespace_cases:
  assumes "\<not> ctl_namespace_registry_mutex s" "control_env_ok env"
  obtains r where "es_control_register_namespace env len name out s = Returns r s"
  | r where "\<not> namespace_is_registered (ctl_namespace_registry s) (unat len) name"
    "es_control_register_namespace env len name out s = Returns r (s\<lparr>ctl_namespace_registry :=
       ctl_namespace_registry s @ [\<lparr>ns_namespace_len = len, ns_namespace = strncpy name (unat len) @ [0],
         ns_command_registry = []\<rparr>]\<rparr>)"
proof -
  from assms(2) obtain c d where "env_lock env = 0" "env_unlock env = 0"
    "env_malloc_name env = MallocOk c" "env_malloc_entry env = MallocOk d" by (rule control_env_okD)
  note def = this
  show thesis
  proof (cases "out \<and> \<not> namespace_is_registered (ctl_namespace_registry s) (unat len) name")
    case True
    with assms(1) def show thesis
      by (intro that(2)) (auto simp: es_control_register_namespace_def Let_def)
  next
    case False
    with assms(1) def have "\<exists>r. es_control_register_namespace env len name out s = Returns r s"
      by (auto simp: es_control_register_namespace_def)
    then show thesis using that(1) by blast
  qed
qed

lemma register_namespace_safe:
  assumes "parser_ready s" "control_env_ok env"
  shows "safe_with (\<lambda>s'. parser_ready s' \<and> registry_grows (ctl_namespace_registry s) (ctl_namespace_registry s'))
    (es_control_register_namespace env len name out s)"
proof -
  have s: "\<not> ctl_namespace_registry_mutex s" "registry_inv s" "handlers_set s"
    using assms(1) by (simp_all add: parser_ready_def registry_ready_def)
  show ?thesis
  proof (rule register_namespace_cases [OF s(1) assms(2), of len name out])
    fix r assume "es_control_register_namespace env len name out s = Returns r s"
    with assms(1) show ?thesis by simp
  next
    let ?e = "\<lparr>ns_namespace_len = len, ns_namespace = strncpy name (unat len) @ [0],
         ns_command_registry = []\<rparr>"
    let ?s' = "s\<lparr>ctl_namespace_registry := ctl_namespace_registry s @ [?e]\<rparr>"
    fix r assume new: "\<not> namespace_is_registered (ctl_namespace_registry s) (unat len) name"
      and out: "es_control_register_namespace env len name out s = Returns r ?s'"
    have "parser_ready ?s'"
      using registry_inv_append_namespace [OF s(2) new] s
      by (intro parser_ready_grows [OF assms(1)]) (simp_all add: registry_ready_def handlers_set_def)
    with out show ?thesis by simp
  qed
qed

lemma appended_command_ready:
  assumes "parser_ready s" "p \<noteq> 0" "p < length (ctl_namespace_registry s)" "cmd_command_handler c \<noteq> None"
  shows "parser_ready (appended_command p c s)"
proof (rule parser_ready_grows [OF assms(1)])
  have s: "registry_inv s" "\<not> ctl_namespace_registry_mutex s" "handlers_set s"
    using assms(1) by (simp_all add: parser_ready_def registry_ready_def)
  show "registry_ready (appended_command p c s)"
    using registry_inv_append_command [OF s(1) assms(3,2)] s(2)
    by (simp add: appended_command_def registry_ready_def)
  show "handlers_set (appended_command p c s)"
    using s(3) assms(3,4)
    by (auto simp: handlers_set_def appended_command_def list_all_length nth_list_update nth_append)
qed (simp_all add: appended_command_def)

lemma register_command_safe:
  assumes "parser_ready s" "control_env_ok env" "handler \<noteq> None"
    and "case ns of None \<Rightarrow> True | Some p \<Rightarrow> p < length (ctl_namespace_registry s)"
  shows "safe_with (\<lambda>s'. parser_ready s' \<and> registry_grows (ctl_namespace_registry s) (ctl_namespace_registry s'))
    (es_control_register_command env ns cid handler data s)"
proof (cases "ns = None \<or> ns = Some 0")
  case True
  with assms(1) show ?thesis by (auto simp: es_control_register_command_def)
next
  case False
  then obtain p where p: "ns = Some p" "p \<noteq> 0" "p < length (ctl_namespace_registry s)"
    using assms(4) by (cases ns) auto
  let ?c = "\<lparr>cmd_command_id = cid, cmd_command_handler = handler, cmd_command_data = data\<rparr>"
  have "\<not> ctl_namespace_registry_mutex s" using assms(1) by (simp add: parser_ready_def registry_ready_def)
  moreover have "parser_ready (appended_command p ?c s)"
    using appended_command_ready [OF assms(1) p(2,3), of ?c] assms(3) by simp
  moreover have "registry_grows (ctl_namespace_registry s) (ctl_namespace_registry (appended_command p c s))" for c
    by (simp add: appended_command_def)
  ultimately show ?thesis
    using assms(1,2) p by (simp add: register_command_result split: list.splits)
qed

section \<open>The control thread\<close>

lemma returns_with_chain:
  "returns_with Q m \<Longrightarrow> (\<And>r s. Q s \<Longrightarrow> returns_with P (k r s)) \<Longrightarrow> returns_with P (call_bind m k)"
  "returns_with Q m' \<Longrightarrow> (\<And>s. Q s \<Longrightarrow> returns_with P (k' s)) \<Longrightarrow>
     returns_with P (EXIT_ON_ERROR_CLEANUP m' save cleanup k')"
  "returns_with Q m' \<Longrightarrow> (\<And>s. Q s \<Longrightarrow> returns_with P (k' s)) \<Longrightarrow> returns_with P (EXIT_ON_ERROR m' save k')"
  by (cases m; simp) (cases m'; simp add: EXIT_ON_ERROR_def EXIT_ON_ERROR_CLEANUP_def)+

abbreviation sy_ready :: "system \<Rightarrow> bool" where
  "sy_ready s \<equiv> es_ready (sy_es s)"
abbreviation sy_locked :: "system \<Rightarrow> bool" where
  "sy_locked s \<equiv> es_locked (sy_es s)"

lemma on_ctl_keeps_es: "P (sy_es s) \<Longrightarrow> returns_with (\<lambda>s. P (sy_es s)) (on_ctl f s)"
  by (cases "f (sy_ctl s)") (simp_all add: on_ctl_def)

lemma control_wake_up_keeps:
  assumes "ctl_act_ok env" "sy_ready s"
  shows "returns_with sy_ready (control_wake_up nd env s)"
proof -
  have e: "ce_lock env = 0" "ce_unlock env = 0" "\<And>es. es_locked es \<Longrightarrow> es_locked (snd (ce_wait env es))"
    using assms(1) by (simp_all add: ctl_act_ok_def ctl_env_ok_def)
  have lock: "returns_with sy_locked (sy_lock 0 s)"
    using assms(2) by (simp add: es_ready_def es_locked_def)
  have release: "returns_with sy_ready
      (EXIT_ON_ERROR (Returns (STATUS_FROM_PTHREAD 0) (sy_unlock 0 t)) control_save (Returns r))"
    if "sy_locked t" for t and r :: "int option"
    by (rule returns_with_chain(3) [where Q = sy_ready]) (use that in \<open>simp_all add: sy_unlock_def\<close>)
  have wait: "returns_with sy_locked (on_es (es_control_wait_for_connection (ce_wait env)) t)"
    if "sy_locked t" for t
    using e(3) [OF that]
    by (cases "ce_wait env (sy_es t)")
      (auto simp: on_es_def es_control_wait_for_connection_def RETURN_ON_ERROR_def RETURN_ON_ERROR_CLEANUP_def)
  show ?thesis
    unfolding control_wake_up_def e Let_def
    by (rule returns_with_chain(3) [OF lock])
      (auto intro!: returns_with_chain(2) [where Q = sy_locked] wait release on_ctl_keeps_es
        simp: sy_unlock_def simp del: fd_reset_result)
qed

lemma control_handle_input_keeps:
  "sy_ready s \<Longrightarrow> returns_with sy_ready (control_handle_input nd env s)"
  by (auto simp: control_handle_input_def Let_def split: recv_result.splits
      intro!: returns_with_chain(3) [where Q = sy_ready] on_ctl_keeps_es)

lemma control_iteration_keeps:
  assumes "ctl_act_ok env" "sy_ready s"
  shows "returns_with sy_ready (control_iteration nd env s)"
proof -
  have other: "sy_ready (s\<lparr>sy_es := ce_other env (sy_es s)\<rparr>)" and ok: "ctl_env_ok env"
    using assms by (simp_all add: ctl_act_ok_def)
  show ?thesis
    unfolding control_iteration_def
    by (rule returns_with_chain(1) [OF control_wake_up_keeps [OF assms(1) other]])
      (auto simp: control_wait_input_ok [OF ok] intro!: returns_with_assert control_handle_input_keeps
        split: option.splits)
qed

section \<open>The program does not go wrong\<close>

text \<open>An operation fails an assertion exactly in the race of the worker with another thread.\<close>

fun act_races :: "bool \<Rightarrow> program_act \<Rightarrow> es_state \<Rightarrow> bool" where
  "act_races nd (ByWorker env) s \<longleftrightarrow> hangup_race nd env s"
| "act_races nd a s \<longleftrightarrow> False"

lemma perform_safe:
  assumes "program_ok s" "act_ok nd s a" "\<not> act_races nd a (sy_es s)"
  shows "safe_with (\<lambda>s'. program_ok s' \<and> registry_grows (ctl_namespace_registry (sy_ctl s))
     (ctl_namespace_registry (sy_ctl s'))) (perform nd a s)"
proof -
  let ?grows = "\<lambda>s'. registry_grows (ctl_namespace_registry (sy_ctl s)) (ctl_namespace_registry (sy_ctl s'))"
  have s: "es_ready (sy_es s)" "parser_ready (sy_ctl s)" "length (sy_chunk s) = CHUNK_SIZE"
    using assms(1) by (simp_all add: program_ok_def)
  have es: "safe_with (\<lambda>s'. program_ok s' \<and> ?grows s') (on_es f s)" if "safe_with es_ready (f (sy_es s))"
    for f :: "es_state \<Rightarrow> ('r, es_state) outcome"
    using that assms(1) by (cases "f (sy_es s)") (simp_all add: on_es_def program_ok_def)
  have ctl: "safe_with (\<lambda>s'. program_ok s' \<and> ?grows s') (on_ctl f s)"
    if "safe_with (\<lambda>c. parser_ready c \<and> registry_grows (ctl_namespace_registry (sy_ctl s))
          (ctl_namespace_registry c)) (f (sy_ctl s))"
    for f :: "control \<Rightarrow> ('r, control) outcome"
    using that assms(1) by (cases "f (sy_ctl s)") (simp_all add: on_ctl_def program_ok_def)
  show ?thesis
  proof (cases a)
    case (ByRts op)
    with assms(2) show ?thesis by (simp add: safe_with_unit es ready_writer_step [OF s(1)])
  next
    case (ByWorker env)
    with assms(2,3) show ?thesis by (simp add: es worker_step_safe [OF _ s(1)])
  next
    case (ByControl env)
    with assms(2) have ok: "ctl_act_ok env" "ctl_env_ok env" by (simp_all add: ctl_act_ok_def)
    have "control_ready s" using s by (simp add: control_ready_def es_ready_def)
    from control_iteration_ok [OF this ok(2), of nd] obtain t where t:
      "control_iteration nd env s = Returns () t" "control_ready t"
      "ctl_namespace_registry (sy_ctl t) = ctl_namespace_registry (sy_ctl s)" by blast
    with control_iteration_keeps [OF ok(1) s(1), of nd] ByControl show ?thesis
      by (simp add: program_ok_def control_ready_def)
  next
    case (ByUser call)
    with assms(2) s show ?thesis
      by (cases call) (simp_all add: safe_with_unit es ctl signal_safe register_hook_safe
          register_namespace_safe register_command_safe)
  qed
qed

lemma perform_races:
  assumes "program_ok s" "act_ok nd s a" "act_races nd a (sy_es s)"
  shows "perform nd a s = Aborts"
  using assms worker_step_race by (cases a) (auto simp: on_es_def program_ok_def)

lemma program_step_keeps:
  assumes "program_step nd s a t" "program_ok s"
  shows "program_ok t \<and> registry_grows (ctl_namespace_registry (sy_ctl s)) (ctl_namespace_registry (sy_ctl t))"
  using assms perform_safe [OF assms(2), of nd a] perform_races [OF assms(2), of nd a]
  by (cases "act_races nd a (sy_es s)") (auto simp: program_step_iff)

lemma program_run_keeps:
  "program_run nd s acts t \<Longrightarrow> program_ok s \<Longrightarrow>
     program_ok t \<and> registry_grows (ctl_namespace_registry (sy_ctl s)) (ctl_namespace_registry (sy_ctl t))"
  by (induction rule: program_run.induct) (auto dest: program_step_keeps intro: registry_grows_trans)

text \<open>C13: the program does not go wrong. From its initial state, in any run of returning operations
  of the threads of the RTS, the worker, the control thread and the users, every state reached is
  well formed (\<open>g_mutex\<close> and the registry's mutex are free, the write buffer is a well-formed list
  in the heap, every position of the parser is inside its array, no two registered namespaces clash,
  every command has a handler). There no admissible operation of any thread uses memory wrongly,
  and one fails an assertion in exactly one case: in a debug build, another thread has changed the
  connection between the snapshot and the step of the worker, and \<open>poll\<close> reports a hangup
  (\<open>hangup_race\<close>, the assertion of \<open>worker.c:429\<close>). Admissible (\<open>act_ok\<close>) is an operation whose locks
  succeed, for which memory is available, with registered pointers and a handler as arguments, while
  the other threads keep the shared state well formed, and with chunks of at most 255 bytes (with
  256 the control thread may hang or abort, \<open>full_chunk_stops_control_thread\<close>). Operations that hang
  are no transitions of the runs; see \<open>third_command_never_returns\<close>.\<close>

theorem program_never_goes_wrong:
  assumes "program_run nd initial_system acts s"
  shows "program_ok s \<and> (\<forall>a. act_ok nd s a \<longrightarrow> perform nd a s \<noteq> Crashes \<and>
     (perform nd a s = Aborts \<longleftrightarrow> (\<exists>env. a = ByWorker env \<and> hangup_race nd env (sy_es s))))"
proof -
  have ok: "program_ok s" using program_run_keeps [OF assms program_ok_initial] by simp
  have "perform nd a s \<noteq> Crashes \<and> (perform nd a s = Aborts \<longleftrightarrow> act_races nd a (sy_es s))"
    if "act_ok nd s a" for a
    using perform_safe [OF ok that] perform_races [OF ok that] by (cases "act_races nd a (sy_es s)") auto
  moreover have "act_races nd a (sy_es s) \<longleftrightarrow> (\<exists>env. a = ByWorker env \<and> hangup_race nd env (sy_es s))" for a
    by (cases a) auto
  ultimately show ?thesis using ok by simp
qed

definition demo_registered :: control where
  "demo_registered = initial_control\<lparr>ctl_namespace_registry :=
     [builtin_namespace_entry,
      \<lparr>ns_namespace_len = 6, ns_namespace = demo_name @ [0], ns_command_registry = []\<rparr>]\<rparr>"

lemma demo_program_run:
  "program_run False initial_system [ByUser (RegistersNamespace demo_control_env 6 demo_name True)]
     (initial_system\<lparr>sy_ctl := demo_registered\<rparr>)"
proof -
  have "es_control_register_namespace demo_control_env 6 demo_name True initial_control =
      Returns (STATUS_OK, Some 1) demo_registered"
    using demo_register_run by (auto simp: call_bind_Returns_iff demo_registered_def)
  then have "program_step False initial_system (ByUser (RegistersNamespace demo_control_env 6 demo_name True))
      (initial_system\<lparr>sy_ctl := demo_registered\<rparr>)"
    by (intro program_step.intros) (simp_all add: on_ctl_def initial_system_def)
  from program_run.go [OF program_run.stop this] show ?thesis by simp
qed

lemma demo_program_writes:
  "\<exists>t. program_run False s [ByRts WriterFlush] t"
proof -
  have "program_step False s (ByRts WriterFlush) s"
    by (intro program_step.intros) (simp_all add: on_es_def writer_flush_def)
  from program_run.go [OF program_run.stop this] show ?thesis by auto
qed

theorem program_never_goes_wrong_witness:
  "program_ok (initial_system\<lparr>sy_ctl := demo_registered\<rparr>)
   \<and> perform False (ByWorker (demo_worker_env None)) (initial_system\<lparr>sy_ctl := demo_registered\<rparr>)
       \<notin> {Crashes, Aborts}"
proof -
  have "act_ok False s (ByWorker (demo_worker_env None))" for s by simp
  with program_never_goes_wrong [OF demo_program_run] show ?thesis by fastforce
qed

text \<open>C19: registrations are permanent. After a command has been found in a namespace, take any further
  run of operations of all threads that return: the namespace still resolves under the same name to
  the same pointer, and a message with the command's ID still calls the same handler with the same
  data. The registration of a third command in a namespace is no operation of such a run: it never
  returns and keeps the registry's mutex, after which resolving and dispatching wait for ever
  (\<open>third_command_never_returns\<close>).\<close>

theorem registered_commands_are_permanent:
  assumes "program_run nd initial_system acts s" "program_run nd s acts' s'"
    and "p < length (ctl_namespace_registry (sy_ctl s))"
    and "find_command (ns_command_registry (ctl_namespace_registry (sy_ctl s) ! p)) cid = Some c"
    and "cmd_command_handler c = Some h" "control_env_ok env"
  shows "es_control_namespace_store_resolve env
         (unat (ns_namespace_len (ctl_namespace_registry (sy_ctl s) ! p)))
         (ns_namespace (ctl_namespace_registry (sy_ctl s) ! p)) (sy_ctl s') =
       Returns (STATUS_OK, Some p) (sy_ctl s')
     \<and> es_control_command_handle nd env p cid (sy_ctl s') =
       Returns STATUS_OK ((sy_ctl s')\<lparr>ctl_effects := ctl_effects (sy_ctl s') @
         call_command_handler h p cid (cmd_command_data c)\<rparr>)"
proof -
  let ?r = "ctl_namespace_registry (sy_ctl s)" and ?r' = "ctl_namespace_registry (sy_ctl s')"
  have "program_ok s" using program_run_keeps [OF assms(1) program_ok_initial] by simp
  from program_run_keeps [OF assms(2) this] have s': "program_ok s'" and grows: "registry_grows ?r ?r'"
    by simp_all
  have inv: "registry_inv (sy_ctl s')" "\<not> ctl_namespace_registry_mutex (sy_ctl s')"
    using s' by (simp_all add: program_ok_def parser_ready_def registry_ready_def)
  have p: "p < length ?r'" "ns_namespace_len (?r' ! p) = ns_namespace_len (?r ! p)"
    "ns_namespace (?r' ! p) = ns_namespace (?r ! p)"
    "prefix (ns_command_registry (?r ! p)) (ns_command_registry (?r' ! p))"
    using grows assms(3) by (auto simp: registry_grows_def)
  have "find_command (ns_command_registry (?r' ! p)) cid = Some c"
    using p(4) assms(4) by (auto simp: prefix_def find_command_append)
  with resolve_self [OF inv(1) p(1) inv(2) assms(6)] p inv(2) assms(5,6) show ?thesis
    by (simp add: command_handle_result)
qed

theorem registered_commands_are_permanent_witness:
  "\<exists>t. program_run False (initial_system\<lparr>sy_ctl := demo_registered\<rparr>) [ByRts WriterFlush] t
     \<and> es_control_command_handle False demo_control_env 0 1 (sy_ctl t) =
       Returns STATUS_OK ((sy_ctl t)\<lparr>ctl_effects := ctl_effects (sy_ctl t) @
         call_command_handler HandlerStartProfiling 0 1 0\<rparr>)"
proof -
  let ?s = "initial_system\<lparr>sy_ctl := demo_registered\<rparr>"
  obtain t where t: "program_run False ?s [ByRts WriterFlush] t" using demo_program_writes by blast
  have c: "0 < length (ctl_namespace_registry (sy_ctl ?s))"
    "find_command (ns_command_registry (ctl_namespace_registry (sy_ctl ?s) ! 0)) 1 =
       Some \<lparr>cmd_command_id = 1, cmd_command_handler = Some HandlerStartProfiling, cmd_command_data = 0\<rparr>"
    by (simp_all add: demo_registered_def builtin_namespace_entry_def builtin_id_defs)
  from registered_commands_are_permanent [OF demo_program_run t c _ demo_control_env_ok] t
  show ?thesis by auto
qed

end
