(* ===== verification/ES_Phase.thy ===== *)
theory ES_Phase
  imports ES_System
begin

text \<open>
  Phases of a run of the whole program (\<open>ES_System\<close>): an invariant of the shared state that the
  operations of a phase keep, and what happens to the bytes that the RTS writes in it. The locale
  \<open>phase\<close> extends a statement on each operation to runs; \<open>unconnected_phase\<close> is the contract of the
  phases without a client, where only the RTS and user threads have an effect.
\<close>

section \<open>Phases\<close>

locale phase =
  fixes within :: "es_state \<Rightarrow> bool"
    and reach :: "byte list \<Rightarrow> es_state \<Rightarrow> es_state \<Rightarrow> bool"
    and stays :: "program_act \<Rightarrow> byte list \<Rightarrow> bool"
  assumes phase_refl: "within s \<Longrightarrow> reach [] s s"
    and phase_trans: "reach d s t \<Longrightarrow> reach d' t u \<Longrightarrow> reach (d @ d') s u"
    and phase_within: "reach d s t \<Longrightarrow> within t"
    and phase_perform: "within (sy_es x) \<Longrightarrow> act_ok nd x a \<Longrightarrow> stays a d \<Longrightarrow>
      returns_with (\<lambda>y. reach d (sy_es x) (sy_es y)) (perform nd a x)"
begin

lemma step_reach:
  "program_step nd s a t \<Longrightarrow> within (sy_es s) \<Longrightarrow> stays a d \<Longrightarrow> reach d (sy_es s) (sy_es t)"
  using phase_perform [of s nd a d] by (auto simp: program_step_iff)

lemma run_reach:
  assumes "program_run nd s acts t" "within (sy_es s)" "list_all2 stays acts ds"
  shows "reach (concat ds) (sy_es s) (sy_es t)"
  using assms
proof (induction arbitrary: ds rule: program_run.induct)
  case (go s acts t a u)
  from go.prems(2) obtain ds' d where ds: "ds = ds' @ [d]" "list_all2 stays acts ds'" "stays a d"
    by (auto simp: list_all2_append1 list_all2_Cons1)
  have "reach (concat ds') (sy_es s) (sy_es t)" using go.IH go.prems(1) ds(2) by blast
  moreover from this have "reach d (sy_es t) (sy_es u)"
    by (intro step_reach [OF go.hyps(2) _ ds(3)] phase_within)
  ultimately show ?case using phase_trans ds(1) by fastforce
qed (simp add: phase_refl)

end

text \<open>A run is cut into phases.\<close>

lemma program_run_appendD:
  assumes "program_run nd s (acts @ acts') u"
  shows "\<exists>t. program_run nd s acts t \<and> program_run nd t acts' u"
  using assms
proof (induction acts' arbitrary: u rule: rev_induct)
  case Nil
  then show ?case by (auto intro: program_run.stop)
next
  case (snoc a acts')
  from snoc.prems obtain v where v: "program_run nd s (acts @ acts') v" "program_step nd v a u"
    by (cases rule: program_run.cases) auto
  from snoc.IH [OF v(1)] obtain t where "program_run nd s acts t" "program_run nd t acts' v" by blast
  with v(2) show ?case by (auto intro: program_run.go)
qed

lemma program_run_single: "program_run nd s [a] t \<Longrightarrow> program_step nd s a t"
  by (erule program_run.cases) (auto elim: program_run.cases)

section \<open>What the operations of a thread do to the shared state\<close>

lemma returns_with_value [simp]: "returns_with P (call_bind m (\<lambda>_. Returns r)) = returns_with P m"
  by (cases m) simp_all

lemma returns_with_on_es [simp]:
  "returns_with (\<lambda>t. P (sy_es t)) (on_es f s) = returns_with P (f (sy_es s))"
  by (cases "f (sy_es s)") (simp_all add: on_es_def)

lemma returns_with_weaken: "returns_with P m \<Longrightarrow> (\<And>s. P s \<Longrightarrow> Q s) \<Longrightarrow> returns_with Q m"
  by (cases m) auto

lemma returns_with_exit:
  "returns_with P (k s) \<Longrightarrow> returns_with P (EXIT_ON_ERROR (Returns st s) save k)"
  by (simp add: EXIT_ON_ERROR_def EXIT_ON_ERROR_CLEANUP_def)

lemma on_ctl_returns: "returns_with (\<lambda>t. sy_es t = sy_es s) (on_ctl f s)"
  by (cases "f (sy_ctl s)") (simp_all add: on_ctl_def)

lemma listen_without_client:
  assumes "le_accept env = AcceptError errno" "errno \<noteq> 0"
  shows "returns_with (\<lambda>t. t = s) (es_worker_step_listen nd env s)"
proof -
  have "returns_with (\<lambda>t. t = s) (EXIT_ON_ERROR (Returns (STATUS_FROM_ERRNO errno) s) save k)"
    for save and k :: "es_state \<Rightarrow> (unit, es_state) outcome"
    using assms(2) by (simp add: EXIT_ON_ERROR_def EXIT_ON_ERROR_CLEANUP_def)
  then show ?thesis
    by (auto simp: es_worker_step_listen_def Let_def assms(1) intro!: returns_with_exit split: option.splits)
qed

text \<open>After the first signal, signalling again only locks and unlocks the mutex.\<close>

lemma signal_again:
  assumes "\<not> es_mutex s" "has_sig EVENTLOG_SOCKET_SIG_RTS_READY (es_init_state s)"
    and "sg_lock env = 0" "sg_unlock env = 0"
  shows "returns_with (\<lambda>t. t = s) (eventlog_socket_signal_ghc_rts_ready env s)"
proof -
  have id: "s\<lparr>es_mutex := False\<rparr> = s" using assms(1) by simp
  show ?thesis
    using assms by (simp add: eventlog_socket_signal_ghc_rts_ready_def RETURN_ON_ERROR_def
        RETURN_ON_ERROR_CLEANUP_def Let_def id)
qed

lemma register_hook_es_hooks:
  "returns_with (\<lambda>t. \<exists>h. t = s\<lparr>es_hooks := h\<rparr>) (register_hook_es nd env hook handler data s)"
  by (auto simp: register_hook_es_def split: outcome.splits)

section \<open>Phases without a client\<close>

text \<open>
  What is assumed of an operation in such a phase: other threads, when they run during it, keep the
  invariant and write the bytes that are counted; the RTS makes the calls that \<open>rts\<close> allows; the
  worker's \<open>accept\<close> finds no client.
\<close>

definition keeps_phase ::
  "(es_state \<Rightarrow> bool) \<Rightarrow> (byte list \<Rightarrow> es_state \<Rightarrow> es_state \<Rightarrow> bool) \<Rightarrow> (es_state \<Rightarrow> es_state) \<Rightarrow> byte list \<Rightarrow> bool"
where
  "keeps_phase within reach f d \<longleftrightarrow> (\<forall>s. within s \<longrightarrow> reach d s (f s))"

text \<open>The same for a wait on a condition, which gives the mutex back.\<close>

definition keeps_phase_in_wait ::
  "(es_state \<Rightarrow> bool) \<Rightarrow> (byte list \<Rightarrow> es_state \<Rightarrow> es_state \<Rightarrow> bool) \<Rightarrow> (es_state \<Rightarrow> int \<times> es_state) \<Rightarrow>
   byte list \<Rightarrow> bool" where
  "keeps_phase_in_wait within reach wait =
     keeps_phase within reach (\<lambda>s. (snd (wait (s\<lparr>es_mutex := True\<rparr>)))\<lparr>es_mutex := False\<rparr>)"

fun stays_unconnected ::
  "(es_state \<Rightarrow> bool) \<Rightarrow> (byte list \<Rightarrow> es_state \<Rightarrow> es_state \<Rightarrow> bool) \<Rightarrow> (writer_op \<Rightarrow> byte list \<Rightarrow> bool) \<Rightarrow>
   program_act \<Rightarrow> byte list \<Rightarrow> bool" where
  "stays_unconnected within reach rts (ByRts op) d \<longleftrightarrow> rts op d"
| "stays_unconnected within reach rts (ByWorker env) d \<longleftrightarrow>
     keeps_phase within reach (ws_other env) d \<and>
     (case le_accept (ws_listen env) of Accepted fd \<Rightarrow> False | AcceptError errno \<Rightarrow> errno \<noteq> 0)"
| "stays_unconnected within reach rts (ByControl env) d \<longleftrightarrow>
     (\<exists>d1 d2. d = d1 @ d2 \<and> keeps_phase within reach (ce_other env) d1 \<and>
        keeps_phase_in_wait within reach (ce_wait env) d2)"
| "stays_unconnected within reach rts (ByUser call) d \<longleftrightarrow> d = []"

locale unconnected_phase =
  fixes within :: "es_state \<Rightarrow> bool"
    and reach :: "byte list \<Rightarrow> es_state \<Rightarrow> es_state \<Rightarrow> bool"
    and rts :: "writer_op \<Rightarrow> byte list \<Rightarrow> bool"
  assumes reach_refl: "within s \<Longrightarrow> reach [] s s"
    and reach_trans: "reach d s t \<Longrightarrow> reach d' t u \<Longrightarrow> reach (d @ d') s u"
    and reach_within: "reach d s t \<Longrightarrow> within t"
    and unconnected: "within s \<Longrightarrow> es_ready s \<and> es_client_fd s = -1 \<and>
      has_sig EVENTLOG_SOCKET_SIG_RTS_READY (es_init_state s)"
    and hooks_reach: "within s \<Longrightarrow> reach [] s (s\<lparr>es_hooks := h\<rparr>)"
    and rts_reach: "within s \<Longrightarrow> writer_op_ok op \<Longrightarrow> rts op d \<Longrightarrow> returns_with (reach d s) (writer_step nd op s)"
begin

abbreviation keeps :: "(es_state \<Rightarrow> es_state) \<Rightarrow> byte list \<Rightarrow> bool" where
  "keeps \<equiv> keeps_phase within reach"

lemma keepsD: "keeps f d \<Longrightarrow> within s \<Longrightarrow> reach d s (f s)"
  by (simp add: keeps_phase_def)

lemma within_simps: "within s \<Longrightarrow> \<not> es_mutex s" "within s \<Longrightarrow> s\<lparr>es_mutex := False\<rparr> = s"
  using unconnected [of s] by (simp_all add: es_ready_def)

lemma worker_snapshot:
  assumes "within s" "worker_env_ok nd env"
  shows "es_worker_step nd env s = es_worker_step_listen nd (ws_listen env) (ws_other env s)"
  using unconnected [OF assms(1)] within_simps(1) [OF assms(1)] assms(2)
  by (simp add: es_worker_step_def worker_env_ok_def Let_def within_simps(2) [OF assms(1)])

lemma worker_reach:
  assumes "within s" "worker_env_ok nd env" "stays_unconnected within reach rts (ByWorker env) d"
  shows "returns_with (reach d s) (es_worker_step nd env s)"
proof -
  obtain errno where a: "le_accept (ws_listen env) = AcceptError errno" "errno \<noteq> 0"
    using assms(3) by (auto split: accept_result.splits)
  have "reach d s (ws_other env s)" using assms(1,3) by (simp add: keepsD)
  then show ?thesis
    using returns_with_weaken [OF listen_without_client [OF a, of "ws_other env s" nd]]
    by (simp add: worker_snapshot [OF assms(1,2)])
qed

lemma control_reach:
  assumes "within (sy_es s)" "ctl_env_ok env" "stays_unconnected within reach rts (ByControl env) d"
  shows "returns_with (\<lambda>t. reach d (sy_es s) (sy_es t)) (control_iteration nd env s)"
proof -
  from assms(3) obtain d1 d2 where d: "d = d1 @ d2" "keeps (ce_other env) d1"
    "keeps_phase_in_wait within reach (ce_wait env) d2" by auto
  let ?es = "ce_other env (sy_es s)"
  have w1: "reach d1 (sy_es s) ?es" using keepsD [OF d(2) assms(1)] .
  then have es: "within ?es" by (rule reach_within)
  have rc: "ce_lock env = 0" "ce_unlock env = 0" "\<And>s. fst (ce_wait env s) = 0"
    using assms(2) by (simp_all add: ctl_env_ok_def)
  obtain es' where es': "ce_wait env (?es\<lparr>es_mutex := True\<rparr>) = (0, es')"
    using rc(3) [of "?es\<lparr>es_mutex := True\<rparr>"] by (cases "ce_wait env (?es\<lparr>es_mutex := True\<rparr>)") simp
  have "reach d2 ?es (es'\<lparr>es_mutex := False\<rparr>)"
    using keepsD [OF d(3) [unfolded keeps_phase_in_wait_def] es] es' by simp
  with w1 have "reach d (sy_es s) (es'\<lparr>es_mutex := False\<rparr>)"
    unfolding d(1) by (rule reach_trans)
  then show ?thesis
    using unconnected [OF es] within_simps(1) [OF es] es' rc
    by (auto simp: control_iteration_def control_wake_up_def Let_def sy_unlock_def on_es_def
        es_control_wait_for_connection_def)
qed

lemma user_reach:
  assumes "within (sy_es s)" "user_call_ok s call"
  shows "returns_with (\<lambda>t. reach [] (sy_es s) (sy_es t)) (perform_user nd call s)"
proof (cases call)
  case (SignalsReady env)
  have "returns_with (\<lambda>t. t = sy_es s) (eventlog_socket_signal_ghc_rts_ready env (sy_es s))"
    using assms(2) SignalsReady unconnected [OF assms(1)] within_simps(1) [OF assms(1)]
    by (intro signal_again) simp_all
  then have "returns_with (reach [] (sy_es s)) (eventlog_socket_signal_ghc_rts_ready env (sy_es s))"
    by (rule returns_with_weaken) (simp add: reach_refl [OF assms(1)])
  with SignalsReady show ?thesis by simp
next
  case (RegistersHook env hook handler data)
  have "returns_with (reach [] (sy_es s)) (register_hook_es nd env hook handler data (sy_es s))"
    using register_hook_es_hooks by (rule returns_with_weaken) (auto simp: hooks_reach [OF assms(1)])
  with RegistersHook show ?thesis by simp
qed (auto intro: returns_with_weaken [OF on_ctl_returns] simp: reach_refl [OF assms(1)])

lemma perform_reach:
  assumes "within (sy_es s)" "act_ok nd s a" "stays_unconnected within reach rts a d"
  shows "returns_with (\<lambda>t. reach d (sy_es s) (sy_es t)) (perform nd a s)"
  using assms by (cases a) (simp_all add: rts_reach worker_reach control_reach ctl_act_ok_def user_reach
      del: perform_user.simps stays_unconnected.simps(2,3))

end

sublocale unconnected_phase \<subseteq> phase within reach "stays_unconnected within reach rts"
  by unfold_locales (fact reach_refl reach_trans reach_within perform_reach)+

end
