(* ===== verification/ES_Service.thy ===== *)
theory ES_Service
  imports ES_Phase
begin

text \<open>
  What the whole program does for a client while its connection lasts, in any interleaving of all
  threads (\<open>ES_System\<close>): the event stream is delivered in order, and the commands that the client
  sends are executed once each, in order, whatever is registered meanwhile. And what the program
  has announced (the signals of \<open>g_init_state\<close>) stays announced.
\<close>

section \<open>The connection stays up\<close>

text \<open>
  \<open>adds_bytes f d\<close>: what the other threads do in a pause of a thread (\<open>f\<close>) is to write the bytes
  \<open>d\<close> to the connection. \<open>stays_connected a d\<close>: the operation \<open>a\<close> does not end the connection, and
  the RTS writes \<open>d\<close> in it or during it. The RTS does not stop the writer, \<open>poll\<close> reports no
  hangup, and \<open>write\<close> accepts some bytes or asks to try again.
\<close>

definition adds_bytes :: "(es_state \<Rightarrow> es_state) \<Rightarrow> byte list \<Rightarrow> bool" where
  "adds_bytes f d \<longleftrightarrow>
     (\<forall>s. connected s \<longrightarrow>
        connected (f s) \<and> es_stream (f s) = (es_client_fd s, snd (es_stream s) @ d))"

fun stays_connected :: "program_act \<Rightarrow> byte list \<Rightarrow> bool" where
  "stays_connected (ByRts (WriterInit env)) d \<longleftrightarrow> d = []"
| "stays_connected (ByRts (WriterWrite env data)) d \<longleftrightarrow>
     d = data \<and> (case we_write env of IoBytes n \<Rightarrow> True | IoError errno \<Rightarrow> errno = EAGAIN)"
| "stays_connected (ByRts WriterFlush) d \<longleftrightarrow> d = []"
| "stays_connected (ByRts (WriterStop env)) d \<longleftrightarrow> False"
| "stays_connected (ByWorker env) d \<longleftrightarrow>
     adds_bytes (ws_other env) d \<and> step_write_env_ok (ws_write env) \<and>
     (case ne_poll (ws_nonwrite env) of PollReady r _ \<Rightarrow> \<not> rv_POLLHUP r | _ \<Rightarrow> True)"
| "stays_connected (ByControl env) d \<longleftrightarrow> adds_bytes (ce_other env) d"
| "stays_connected (ByUser call) d \<longleftrightarrow> d = []"

definition served :: "byte list \<Rightarrow> es_state \<Rightarrow> es_state \<Rightarrow> bool" where
  "served d s t \<longleftrightarrow> connected t \<and> es_stream t = (es_client_fd s, snd (es_stream s) @ d)"

lemma served_refl: "connected s \<Longrightarrow> served [] s s"
  by (simp add: served_def es_stream_def)

lemma served_trans: "served d s t \<Longrightarrow> served d' t u \<Longrightarrow> served (d @ d') s u"
  by (auto simp: served_def es_stream_def simp flip: append_assoc)

lemma servedI:
  assumes "connected s" "wb_rep t (wb_contents s)" "\<not> es_mutex t" "es_client_fd t = es_client_fd s"
    and "es_sent t = es_sent s"
  shows "served [] s t"
  using es_ready_rep [OF assms(3,2)] assms by (simp add: served_def connected_def es_stream_def)

lemma adds_bytesD: "adds_bytes f d \<Longrightarrow> connected s \<Longrightarrow> served d s (f s)"
  by (simp add: adds_bytes_def served_def)

lemma adds_bytes_comp:
  assumes "adds_bytes f d" "adds_bytes g d'" "connected s"
  shows "served (d @ d') s (g (f s))"
proof -
  have f: "served d s (f s)" using assms(1,3) by (rule adds_bytesD)
  then have "connected (f s)" by (simp add: served_def)
  with assms(2) have "served d' (f s) (g (f s))" by (rule adds_bytesD)
  with f show ?thesis by (rule served_trans)
qed

lemma connectedD:
  assumes "connected s"
  shows "\<not> es_mutex s" "wb_rep s (wb_contents s)" "es_client_fd s \<ge> 0" "es_client_fd s \<noteq> -1" "es_ready s"
  using assms by (auto simp: connected_def es_ready_def)

section \<open>The operations of each thread\<close>

lemma rts_serves:
  assumes "connected s" "writer_op_ok op" "stays_connected (ByRts op) d"
  shows "returns_with (served d s) (writer_step nd op s)"
proof (cases op)
  case (WriterInit env)
  with assms show ?thesis
    using connectedD [OF assms(1)]
    by (auto simp: writer_init_def Let_def write_env_ok_def intro!: servedI)
next
  case (WriterWrite env data)
  with stream_write [OF assms(1), of env data nd] assms(2,3) show ?thesis
    by (auto simp: served_def)
next
  case WriterFlush
  with assms show ?thesis by (simp add: writer_flush_def served_refl)
next
  case (WriterStop env)
  with assms show ?thesis by simp
qed

lemma nonwrite_serves:
  assumes "connected s" "case ne_poll env of PollReady r _ \<Rightarrow> \<not> rv_POLLHUP r | _ \<Rightarrow> True"
  shows "returns_with (served [] s) (es_worker_step_nonwrite env fd s)"
  using assms served_refl [OF assms(1)]
  by (auto simp: es_worker_step_nonwrite_def es_worker_wake_drain_def Let_def no_revents_def
      split: poll_result.splits option.splits)

lemma worker_serves:
  assumes "connected s" "worker_env_ok nd env" "stays_connected (ByWorker env) d"
  shows "returns_with (served d s) (es_worker_step nd env s)"
proof -
  note s = connectedD [OF assms(1)]
  have s': "s\<lparr>es_mutex := False\<rparr> = s" using s(1) by simp
  let ?t = "ws_other env s"
  have t: "served d s ?t" using assms(1,3) by (simp add: adds_bytesD)
  then have ct: "connected ?t" by (simp add: served_def)
  have next_step: "returns_with (served d s) m" if "returns_with (served [] ?t) m" for m :: "(unit, es_state) outcome"
    using that served_trans [OF t, of "[]"] by (cases m) auto
  have "returns_with (served [] ?t) (es_worker_step_nonwrite (ws_nonwrite env) fd ?t)" for fd
    using assms(3) by (intro nonwrite_serves [OF ct]) simp
  moreover have "returns_with (served [] ?t) (es_worker_step_write nd (ws_write env) fd ?t)" for fd
    using stream_drain [OF ct, of "ws_write env" nd fd] assms(3)
    by (auto simp: served_def es_stream_def)
  ultimately show ?thesis
    using s assms(2) by (auto simp: es_worker_step_def worker_env_ok_def Let_def s' next_step)
qed

lemma signal_serves:
  assumes "connected s" "sg_lock env = 0" "sg_unlock env = 0"
  shows "returns_with (served [] s) (eventlog_socket_signal_ghc_rts_ready env s)"
  using connectedD [OF assms(1)] assms(2,3)
  by (auto simp: eventlog_socket_signal_ghc_rts_ready_def handle_hook_es_def es_hooks_handle_hook_def
      hooks_lock_def hooks_unlock_def RETURN_ON_ERROR_def RETURN_ON_ERROR_CLEANUP_def Let_def
      trace_event_def split: outcome.splits option.splits intro!: servedI assms(1))

lemma register_hook_serves:
  assumes "connected s"
  shows "returns_with (served [] s) (register_hook_es nd env hook handler data s)"
  using connectedD [OF assms]
  by (auto simp: register_hook_es_def split: outcome.splits intro!: servedI assms)

text \<open>While a client is connected, the control thread only locks and unlocks the mutex.\<close>

lemma control_wake_up_es:
  assumes "ctl_env_ok env" "\<not> es_mutex (sy_es s)" "es_client_fd (sy_es s) \<noteq> -1"
  shows "returns_with (\<lambda>t. sy_es t = sy_es s) (control_wake_up nd env s)"
  using assms by (auto simp: control_wake_up_def ctl_env_ok_def Let_def sy_unlock_def)

lemma control_handle_input_es:
  "returns_with (\<lambda>t. sy_es t = sy_es s) (control_handle_input nd env s)"
proof -
  have "returns_with (\<lambda>t. sy_es t = sy_es s) (EXIT_ON_ERROR m control_save (Returns ()))"
    if "returns_with (\<lambda>t. sy_es t = sy_es s) m" for m
    by (rule returns_with_chain(3) [OF that]) simp
  then show ?thesis
    using on_ctl_returns [of "s\<lparr>sy_chunk := c, sy_log := l\<rparr>" for c l]
    by (auto simp: control_handle_input_def Let_def split: recv_result.splits)
qed

lemma control_serves:
  assumes "connected (sy_es s)" "ctl_env_ok env" "stays_connected (ByControl env) d"
  shows "returns_with (\<lambda>t. served d (sy_es s) (sy_es t)) (control_iteration nd env s)"
proof -
  let ?es = "ce_other env (sy_es s)"
  have served: "served d (sy_es s) ?es" using assms(1,3) by (simp add: adds_bytesD)
  then have es: "\<not> es_mutex ?es" "es_client_fd ?es \<noteq> -1"
    using connectedD [of ?es] by (simp_all add: served_def)
  have input: "returns_with (\<lambda>t. sy_es t = ?es) (call_bind (control_wait_input nd env t) (\<lambda>is_ready s.
      if is_ready then control_handle_input nd env s else Returns () s))" if "sy_es t = ?es" for t
    using control_handle_input_es [of t nd env] that by (simp add: control_wait_input_ok [OF assms(2)])
  have "returns_with (\<lambda>t. sy_es t = ?es) (control_iteration nd env s)"
    unfolding control_iteration_def
    by (rule returns_with_chain(1) [where Q = "\<lambda>t. sy_es t = ?es"])
      (use es input control_wake_up_es [OF assms(2), of "s\<lparr>sy_es := ?es\<rparr>" nd]
        in \<open>auto intro!: returns_with_assert split: option.splits\<close>)
  then show ?thesis using served by (auto simp: returns_with_def split: outcome.splits)
qed

section \<open>The event stream in the whole program\<close>

lemma on_ctl_serves:
  "connected (sy_es s) \<Longrightarrow> returns_with (\<lambda>t. served [] (sy_es s) (sy_es t)) (on_ctl f s)"
  using on_ctl_returns [of s f] served_refl by (auto simp: returns_with_def split: outcome.splits)

lemma perform_serves:
  assumes "connected (sy_es s)" "act_ok nd s a" "stays_connected a d"
  shows "returns_with (\<lambda>t. served d (sy_es s) (sy_es t)) (perform nd a s)"
proof (cases a)
  case (ByRts op)
  with assms show ?thesis by (simp add: rts_serves)
next
  case (ByWorker env)
  with assms show ?thesis by (simp add: worker_serves)
next
  case (ByControl env)
  with assms show ?thesis by (simp add: control_serves ctl_act_ok_def)
next
  case (ByUser call)
  with assms show ?thesis
    by (cases call) (simp_all add: signal_serves register_hook_serves on_ctl_serves)
qed

interpretation service: phase connected served stays_connected
proof
  show "served [] s s" if "connected s" for s using that by (rule served_refl)
  show "served (d @ d') s u" if "served d s t" "served d' t u" for d d' s t u
    using that by (rule served_trans)
  show "connected t" if "served d s t" for d s t using that by (simp add: served_def)
qed (fact perform_serves)

lemmas program_step_serves = service.step_reach
  and program_run_serves = service.run_reach

text \<open>C1: the whole program delivers the event stream. In any run of the program in which the
  connection does not break, with any interleaving of RTS threads, the worker's full steps (the
  snapshot, what other threads do after it, draining the wake pipe or the buffer), the control
  thread and users, the bytes the kernel has accepted for the client, followed by those waiting,
  are the ones sent and waiting before, followed by what the RTS has written, in order.\<close>

theorem program_delivers_event_stream:
  assumes "program_run nd s acts t" "connected (sy_es s)" "list_all2 stays_connected acts ds"
  shows "connected (sy_es t) \<and> es_client_fd (sy_es t) = es_client_fd (sy_es s)
     \<and> es_sent (sy_es t) (es_client_fd (sy_es s)) @ concat (wb_contents (sy_es t)) =
         es_sent (sy_es s) (es_client_fd (sy_es s)) @ concat (wb_contents (sy_es s)) @ concat ds"
  using program_run_serves [OF assms] by (auto simp: served_def es_stream_def)

lemma demo_rts_write:
  assumes "connected (sy_es s)" "case res of IoBytes n \<Rightarrow> True | IoError errno \<Rightarrow> errno = EAGAIN"
  obtains t where "program_step nd s (ByRts (WriterWrite (demo_write_env res) d)) t"
    "connected (sy_es t)" "sy_ctl t = sy_ctl s"
proof -
  from stream_write [OF assms(1), of "demo_write_env res" d nd] assms(2) obtain es where
    "writer_write nd (demo_write_env res) d (sy_es s) = Returns True es" "connected es" by auto
  then have "program_step nd s (ByRts (WriterWrite (demo_write_env res) d)) (s\<lparr>sy_es := es\<rparr>)"
    by (intro program_step.intros) (simp_all add: on_es_def)
  with \<open>connected es\<close> show thesis by (intro that [of "s\<lparr>sy_es := es\<rparr>"]) simp_all
qed

definition demo_served :: system where
  "demo_served = initial_system\<lparr>sy_es := demo_connected\<rparr>"

theorem program_delivers_event_stream_witness:
  "\<exists>acts t. program_run True demo_served acts t
     \<and> es_sent (sy_es t) 7 @ concat (wb_contents (sy_es t)) = [1, 2, 3, 4, 5]"
proof -
  let ?a = "ByRts (WriterWrite (demo_write_env (IoBytes 1)) [1, 2, 3])"
    and ?b = "ByRts (WriterWrite (demo_write_env (IoError EAGAIN)) [4, 5])"
  have s: "connected (sy_es demo_served)" by (simp add: demo_served_def)
  obtain t where t: "program_step True demo_served ?a t" "connected (sy_es t)"
    by (rule demo_rts_write [OF s, of "IoBytes 1" True "[1, 2, 3]"]) auto
  obtain u where u: "program_step True t ?b u"
    by (rule demo_rts_write [OF t(2), of "IoError EAGAIN" True "[4, 5]"]) auto
  have "program_run True demo_served [?a, ?b] u"
    using program_run.go [OF program_run.go [OF program_run.stop t(1)] u] by simp
  from program_delivers_event_stream [OF this s, of "[[1, 2, 3], [4, 5]]"] this show ?thesis
    by (intro exI [of _ "[?a, ?b]"] exI [of _ u]) (simp add: demo_served_def)
qed

text \<open>C6: what is written is delivered. In any run as above, with any interleaving of all threads: as
  soon as the worker has a turn in which the socket is ready and accepts the waiting blocks (if any
  are left), and no other thread acts within that turn, the turn ends, the client has every byte
  written so far, and the buffer is empty.\<close>

theorem written_bytes_are_delivered:
  assumes "program_run nd s acts t" "connected (sy_es s)" "list_all2 stays_connected acts ds"
    and "worker_env_ok nd env" "ws_other env (sy_es t) = sy_es t" "step_write_env_ok (ws_write env)"
    and "se_poll (ws_write env) = PollReady r r'" "rv_POLLOUT r"
    and "\<forall>i < length (wb_contents (sy_es t)).
           se_writes (ws_write env) i = IoBytes (length (wb_contents (sy_es t) ! i))"
  shows "\<exists>u. (u = t \<or> program_step nd t (ByWorker env) u) \<and> wb_contents (sy_es u) = []
     \<and> es_sent (sy_es u) (es_client_fd (sy_es s)) =
         es_sent (sy_es s) (es_client_fd (sy_es s)) @ concat (wb_contents (sy_es s)) @ concat ds"
proof -
  let ?fd = "es_client_fd (sy_es s)" and ?t = "sy_es t"
  have served: "served (concat ds) (sy_es s) ?t" by (rule program_run_serves [OF assms(1-3)])
  then have t: "connected ?t" "es_client_fd ?t = ?fd" by (simp_all add: served_def es_stream_def)
  show ?thesis
  proof (cases "wb_contents ?t = []")
    case True
    with served show ?thesis by (intro exI [of _ t]) (auto simp: served_def es_stream_def)
  next
    case False
    from worker_delivers_backlog [OF t(1) assms(6-9), of nd ?fd] obtain es where es:
      "es_worker_step_write nd (ws_write env) ?fd ?t = Returns () es"
      "es_sent es ?fd = es_sent ?t ?fd @ concat (wb_contents ?t)" "wb_contents es = []"
      using t(2) by auto
    obtain h where "wb_head ?t = Some h" using wb_head_iff [OF connectedD(2) [OF t(1)]] False by auto
    moreover have id: "?t\<lparr>es_mutex := False\<rparr> = ?t" using connectedD(1) [OF t(1)] by simp
    ultimately have "es_worker_step nd env ?t = Returns () es"
      using connectedD(1,4) [OF t(1)] t(2) assms(4,5) es(1)
      by (simp add: es_worker_step_def worker_env_ok_def Let_def id)
    then have "program_step nd t (ByWorker env) (t\<lparr>sy_es := es\<rparr>)"
      using assms(4) by (intro program_step.intros) (simp_all add: on_es_def)
    with es served t(2) show ?thesis
      by (intro exI [of _ "t\<lparr>sy_es := es\<rparr>"]) (simp add: served_def es_stream_def)
  qed
qed

theorem written_bytes_are_delivered_witness:
  "\<exists>acts t u. program_run True demo_served acts t
     \<and> (u = t \<or> program_step True t (ByWorker ((demo_worker_env None)
           \<lparr>ws_write := demo_drain_env (\<lambda>k. IoBytes 3)\<rparr>)) u)
     \<and> es_sent (sy_es t) 7 = [] \<and> es_sent (sy_es u) 7 = [1, 2, 3]"
proof -
  let ?a = "ByRts (WriterWrite (demo_write_env (IoError EAGAIN)) [1, 2, 3])"
    and ?env = "(demo_worker_env None)\<lparr>ws_write := demo_drain_env (\<lambda>k. IoBytes 3)\<rparr>"
  have wenv: "write_env_ok (demo_write_env (IoError EAGAIN))" by simp
  from writer_write_ok [OF wenv, of demo_connected "[]" True "[1, 2, 3]"] obtain es where es:
    "writer_write True (demo_write_env (IoError EAGAIN)) [1, 2, 3] demo_connected = Returns True es"
    "wb_rep es [[1, 2, 3]]" "\<not> es_mutex es" "es_sent es 7 = []"
    by (auto simp: demo_connected_def write_spec_def fun_eq_iff)
  let ?t = "demo_served\<lparr>sy_es := es\<rparr>"
  have "program_step True demo_served ?a ?t"
    using es(1) by (intro program_step.intros) (simp_all add: on_es_def demo_served_def)
  then have run: "program_run True demo_served [?a] ?t"
    using program_run.go [OF program_run.stop] by fastforce
  have s: "connected (sy_es demo_served)" by (simp add: demo_served_def)
  have q: "wb_contents (sy_es ?t) = [[1, 2, 3]]" using wb_rep_contents [OF es(2)] by simp
  have env: "worker_env_ok True ?env" "ws_other ?env (sy_es ?t) = sy_es ?t"
    "ws_write ?env = demo_drain_env (\<lambda>k. IoBytes 3)"
    using demo_worker_env_ok [of True None] by (simp_all add: worker_env_ok_def demo_worker_env_def demo_drain_env_def)
  have drain: "step_write_env_ok (demo_drain_env (\<lambda>k. IoBytes 3))"
    "se_poll (demo_drain_env (\<lambda>k. IoBytes 3)) = PollReady (no_revents\<lparr>rv_POLLOUT := True\<rparr>) no_revents"
    "se_writes (demo_drain_env (\<lambda>k. IoBytes 3)) i = IoBytes 3" for i
    by simp_all (simp_all add: demo_drain_env_def)
  have "list_all2 stays_connected [?a] [[1, 2, 3]]" by simp
  from written_bytes_are_delivered [OF run s this env(1,2), unfolded env(3), OF drain(1,2)] q
  obtain u where "u = ?t \<or> program_step True ?t (ByWorker ?env) u" "es_sent (sy_es u) 7 = [1, 2, 3]"
    by (auto simp: drain(3) demo_served_def)
  with run es(4) show ?thesis
    by (intro exI [of _ "[?a]"] exI [of _ ?t] exI [of _ u]) simp
qed

section \<open>The commands of the client in the whole program\<close>

text \<open>
  The reference automaton of the protocol, restricted to commands that are registered; on these
  it gives the same results for a registry that has grown.
\<close>

fun known_step ::
  "registry \<Rightarrow> spec_state \<times> handler_effect list \<Rightarrow> byte \<Rightarrow> (spec_state \<times> handler_effect list) option"
where
  "known_step reg (SpecCommand p, es) b =
     (if p < length reg \<and> find_command (ns_command_registry (reg ! p)) b \<noteq> None
      then spec_step reg (SpecCommand p, es) b else None)"
| "known_step reg st b = spec_step reg st b"

fun known_run ::
  "registry \<Rightarrow> byte list \<Rightarrow> spec_state \<times> handler_effect list \<Rightarrow>
   (spec_state \<times> handler_effect list) option" where
  "known_run reg [] st = Some st"
| "known_run reg (b # bs) st =
     (case known_step reg st b of None \<Rightarrow> None | Some st' \<Rightarrow> known_run reg bs st')"

lemma known_run_append:
  "known_run reg (as @ bs) st =
     (case known_run reg as st of None \<Rightarrow> None | Some st' \<Rightarrow> known_run reg bs st')"
  by (induction as arbitrary: st) (auto split: option.splits)

lemma spec_lookup_grows:
  assumes "registry_grows r r'" "spec_lookup r name = Some p"
  shows "spec_lookup r' name = Some p"
proof -
  have same: "namespace_resolve_from i r n nm = namespace_resolve_from i (take (length r) r') n nm" for i n nm
    using assms(1)
  proof (induction r arbitrary: i r')
    case (Cons e r)
    then obtain e' q where r': "r' = e' # q" by (cases r') (auto simp: registry_grows_def)
    have "registry_grows r q" using Cons.prems unfolding r' registry_grows_def by fastforce
    moreover have "ns_namespace e' = ns_namespace e" "ns_namespace_len e' = ns_namespace_len e"
      using Cons.prems unfolding r' registry_grows_def by fastforce+
    ultimately show ?case using Cons.IH by (simp add: r' store_match_Some)
  qed simp
  have "namespace_resolve_from 0 (take (length r) r' @ drop (length r) r') (length name) (name @ [0]) = Some p"
    using assms(2) by (simp only: namespace_resolve_from_append same [symmetric])
      (simp add: spec_lookup_def)
  then show ?thesis by (simp add: spec_lookup_def)
qed

lemma find_command_grows:
  assumes "registry_grows r r'" "p < length r" "find_command (ns_command_registry (r ! p)) cid = Some c"
  shows "find_command (ns_command_registry (r' ! p)) cid = Some c"
  using assms by (auto simp: registry_grows_def prefix_def find_command_append)

lemma known_step_grows:
  assumes "registry_grows r r'" "known_step r st b = Some st'"
  shows "spec_step r' st b = Some st'"
proof -
  obtain q es where st: "st = (q, es)" by (cases st)
  show ?thesis
  proof (cases q)
    case (SpecCommand p)
    with st assms(2) obtain c where p: "p < length r" "find_command (ns_command_registry (r ! p)) b = Some c"
      by (auto split: if_splits)
    with find_command_grows [OF assms(1) p] st SpecCommand assms(2) show ?thesis
      by (simp add: spec_effects_def)
  next
    case (SpecNamespace n acc)
    with st assms spec_lookup_grows [OF assms(1)] show ?thesis by (auto split: if_splits option.splits)
  qed (use st assms(2) in simp_all)
qed

lemma known_run_grows:
  "registry_grows r r' \<Longrightarrow> known_run r bs st = Some st' \<Longrightarrow> spec_run r' bs st = Some st'"
  by (induction bs arbitrary: st) (auto dest: known_step_grows split: option.splits)

text \<open>What a client sees of the control thread: where the parser is on the client's connection, and
  the calls that have been made.\<close>

definition client_view :: "int \<Rightarrow> system \<Rightarrow> spec_state \<times> handler_effect list" where
  "client_view fd s =
     (if ctl_client_fd (sy_ctl s) = fd then spec_of (ctl_command_parser_state (sy_ctl s)) else SpecMagic 0,
      ctl_effects (sy_ctl s))"

fun act_received :: "program_act \<Rightarrow> byte list" where
  "act_received (ByControl env) = received_by env"
| "act_received a = []"

lemma control_iteration_view:
  assumes "program_ok s" "ctl_env_ok env" "es_client_fd (ce_other env (sy_es s)) = fd" "fd \<noteq> -1"
    and "control_iteration nd env s = Returns () t"
    and "spec_run (ctl_namespace_registry (sy_ctl s)) (received_by env) (client_view fd s) = Some v"
  shows "client_view fd t = v"
proof -
  have ready: "control_ready s" using assms(1) by (simp add: program_ok_def control_ready_def es_ready_def)
  have "log_run (ctl_namespace_registry (sy_ctl s)) (iteration_log env (sy_es s)) (system_view s) = Some (fd, v)"
    using assms(3,4,6)
    by (auto simp: iteration_log_def system_view_def client_view_def control_spec_def receives_log_def)
  with control_iteration_ok [OF ready assms(2), of nd] assms(5) have "system_view t = (fd, v)" by auto
  then show ?thesis by (auto simp: system_view_def client_view_def control_spec_def)
qed

text \<open>The other operations do not touch the parser.\<close>

definition same_parser :: "control \<Rightarrow> control \<Rightarrow> bool" where
  "same_parser c d \<longleftrightarrow> ctl_client_fd d = ctl_client_fd c
     \<and> ctl_command_parser_state d = ctl_command_parser_state c \<and> ctl_effects d = ctl_effects c"

lemma same_parser_refl [simp]: "same_parser c c"
  by (simp add: same_parser_def)

lemma register_namespace_same_parser:
  assumes "parser_ready s" "control_env_ok env"
  shows "returns_with (same_parser s) (es_control_register_namespace env len name out s)"
proof -
  have "\<not> ctl_namespace_registry_mutex s" using assms(1) by (simp add: parser_ready_def registry_ready_def)
  then show ?thesis
    by (rule register_namespace_cases [OF _ assms(2), of _ len name out]) (simp_all add: same_parser_def)
qed

lemma register_command_same_parser:
  assumes "parser_ready s" "control_env_ok env"
    and "case ns of None \<Rightarrow> True | Some p \<Rightarrow> p < length (ctl_namespace_registry s)"
  shows "returns_with (same_parser s) (es_control_register_command env ns cid handler data s)"
proof (cases "ns = None \<or> ns = Some 0")
  case True
  then show ?thesis by (auto simp: es_control_register_command_def)
next
  case False
  then obtain p where p: "ns = Some p" "p \<noteq> 0" "p < length (ctl_namespace_registry s)"
    using assms(3) by (cases ns) auto
  have "\<not> ctl_namespace_registry_mutex s" using assms(1) by (simp add: parser_ready_def registry_ready_def)
  with assms(2) p show ?thesis
    by (simp add: register_command_result same_parser_def appended_command_def split: list.splits)
qed

lemma on_es_same_parser: "returns_with (\<lambda>t. same_parser (sy_ctl s) (sy_ctl t)) (on_es f s)"
  by (cases "f (sy_es s)") (simp_all add: on_es_def)

lemma on_ctl_same_parser:
  "returns_with (same_parser (sy_ctl s)) (f (sy_ctl s)) \<Longrightarrow>
     returns_with (\<lambda>t. same_parser (sy_ctl s) (sy_ctl t)) (on_ctl f s)"
  by (cases "f (sy_ctl s)") (simp_all add: on_ctl_def)

lemma other_acts_same_parser:
  assumes "program_ok s" "act_ok nd s a" "\<And>env. a \<noteq> ByControl env"
  shows "returns_with (\<lambda>t. same_parser (sy_ctl s) (sy_ctl t)) (perform nd a s)"
proof -
  have ready: "parser_ready (sy_ctl s)" using assms(1) by (simp add: program_ok_def)
  show ?thesis
  proof (cases a)
    case (ByUser call)
    with assms(2) ready show ?thesis
      by (cases call) (simp_all add: on_es_same_parser on_ctl_same_parser
          register_namespace_same_parser register_command_same_parser)
  qed (use assms(3) on_es_same_parser in simp_all)
qed

section \<open>Commands are executed in any run\<close>

lemma program_step_view:
  assumes "program_step nd s a t" "program_ok s" "connected (sy_es s)" "stays_connected a d"
    and "es_client_fd (sy_es s) = fd"
    and "spec_run (ctl_namespace_registry (sy_ctl s)) (act_received a) (client_view fd s) = Some v"
  shows "client_view fd t = v"
proof (cases "\<exists>env. a = ByControl env")
  case True
  then obtain env where a: "a = ByControl env" by blast
  with assms have "served d (sy_es s) (ce_other env (sy_es s))" by (simp add: adds_bytesD)
  then have "es_client_fd (ce_other env (sy_es s)) = fd" using assms(5) by (simp add: served_def es_stream_def)
  moreover have "fd \<noteq> -1" using connectedD(4) [OF assms(3)] assms(5) by simp
  ultimately show ?thesis
    using assms a by (auto simp: program_step_iff ctl_act_ok_def intro!: control_iteration_view)
next
  case False
  then have "act_received a = []" by (cases a) auto
  moreover have "same_parser (sy_ctl s) (sy_ctl t)"
    using other_acts_same_parser [OF assms(2), of nd a] False assms(1) by (auto simp: program_step_iff)
  ultimately show ?thesis using assms(6) by (auto simp: client_view_def same_parser_def)
qed

lemma program_run_view:
  assumes "program_run nd s acts t" "program_ok s" "connected (sy_es s)" "list_all2 stays_connected acts ds"
    and "known_run (ctl_namespace_registry (sy_ctl s)) (concat (map act_received acts))
           (client_view (es_client_fd (sy_es s)) s) = Some v"
  shows "client_view (es_client_fd (sy_es s)) t = v"
  using assms
proof (induction arbitrary: ds v rule: program_run.induct)
  case (go s acts t a u)
  let ?fd = "es_client_fd (sy_es s)" and ?reg = "ctl_namespace_registry (sy_ctl s)"
  from go.prems(3) obtain ds' d where ds: "list_all2 stays_connected acts ds'" "stays_connected a d"
    by (auto simp: list_all2_append1 list_all2_Cons1)
  from go.prems(4) obtain w where w:
    "known_run ?reg (concat (map act_received acts)) (client_view ?fd s) = Some w"
    "known_run ?reg (act_received a) w = Some v" by (auto simp: known_run_append split: option.splits)
  have view: "client_view ?fd t = w" using go.IH [OF go.prems(1,2) ds(1) w(1)] .
  have ok: "program_ok t" "registry_grows ?reg (ctl_namespace_registry (sy_ctl t))"
    using program_run_keeps [OF go.hyps(1) go.prems(1)] by simp_all
  have "served (concat ds') (sy_es s) (sy_es t)"
    using go.hyps(1) go.prems(2) ds(1) by (rule program_run_serves)
  then have t: "connected (sy_es t)" "es_client_fd (sy_es t) = ?fd" by (simp_all add: served_def es_stream_def)
  show ?case
    using program_step_view [OF go.hyps(2) ok(1) t(1) ds(2) t(2)] known_run_grows [OF ok(2) w(2)] view
    by simp
qed simp

lemma known_run_spec:
  assumes "name \<noteq> []" "spec_run reg name (SpecNamespace n acc, es) = Some st"
    and "length acc + length name \<le> n"
  shows "known_run reg name (SpecNamespace n acc, es) = Some st"
  using assms
proof (induction name arbitrary: acc)
  case (Cons b name)
  show ?case
  proof (cases "name = []")
    case True
    with Cons.prems show ?thesis by (auto split: if_splits option.splits)
  next
    case False
    then have lt: "Suc (length acc) < n" using Cons.prems(3) by (cases name) auto
    with Cons.prems(2) have "spec_run reg name (SpecNamespace n (acc @ [b]), es) = Some st" by simp
    from Cons.IH [OF False this] lt Cons.prems(3) show ?thesis by simp
  qed
qed simp

lemma known_run_command:
  assumes "name \<noteq> []" "length name < 256" "spec_lookup reg name = Some p" "p < length reg"
    and "find_command (ns_command_registry (reg ! p)) cid \<noteq> None"
  shows "known_run reg (put_Command name cid) (SpecMagic 0, es) =
     Some (SpecMagic 0, es @ spec_effects reg p cid)"
proof -
  have u: "unat (of_nat (length name) :: byte) = length name"
    using assms(2) by (simp add: unat_of_nat)
  moreover have "(of_nat (length name) :: byte) \<noteq> 0" using assms(1) u by (metis length_0_conv unat_0)
  moreover have "known_run reg magicBytes (SpecMagic 0, es) = Some (SpecVersion, es)"
    by (simp add: magicBytes_def g_control_magic_def CONTROL_MAGIC_LEN_def)
  moreover have "spec_run reg name (SpecNamespace (length name) [], es) = Some (SpecCommand p, es)"
    using spec_run_namespace_full [OF assms(1), of "[]"] assms(3) by simp
  then have "known_run reg name (SpecNamespace (length name) [], es) = Some (SpecCommand p, es)"
    by (intro known_run_spec) (use assms(1) in simp_all)
  ultimately show ?thesis
    using assms(4,5)
    by (simp add: put_Command_def put_Namespace_def protocolVersion_def known_run_append
        EVENTLOG_SOCKET_CONTROL_PROTOCOL_VERSION_def)
qed

definition registered_message :: "registry \<Rightarrow> namespace_ptr \<times> byte \<Rightarrow> bool" where
  "registered_message reg m \<longleftrightarrow>
     fst m < length reg \<and> find_command (ns_command_registry (reg ! fst m)) (snd m) \<noteq> None"

definition message_bytes :: "registry \<Rightarrow> namespace_ptr \<times> byte \<Rightarrow> byte list" where
  "message_bytes reg m = put_Command (entry_name (reg ! fst m)) (snd m)"

definition message_calls :: "registry \<Rightarrow> namespace_ptr \<times> byte \<Rightarrow> handler_effect list" where
  "message_calls reg m = spec_effects reg (fst m) (snd m)"

lemma known_run_messages:
  assumes "registry_inv s" "list_all (registered_message (ctl_namespace_registry s)) msgs"
  shows "known_run (ctl_namespace_registry s) (concat (map (message_bytes (ctl_namespace_registry s)) msgs))
      (SpecMagic 0, es) =
    Some (SpecMagic 0, es @ concat (map (message_calls (ctl_namespace_registry s)) msgs))"
  using assms(2)
  by (induction msgs arbitrary: es)
    (auto simp: known_run_append registered_message_def message_bytes_def message_calls_def
      known_run_command [OF entry_name_resolves [OF assms(1)]])

text \<open>C2: the whole program executes the commands of a client. Take a well-formed state with a client
  connected that the control thread has not noticed yet (then the parser may be in any state that
  a client before it has left) or for which the parser is in between two messages, and any run of
  admissible operations (\<open>act_ok\<close>) of all threads from it that return, in which the connection does
  not break. If the
  control thread receives, in chunks of at most 255 bytes and interleaved with the operations of the
  other threads (which may register further namespaces and commands), the messages of commands that
  were registered at the start, then their handlers have been called, once each, in the order of
  the messages, and nothing else has been called. Two cases are outside: a full chunk of 256 bytes,
  which stops the control thread if it begins inside a namespace (\<open>full_chunk_stops_control_thread\<close>),
  and the registration of a third command in a namespace, which never returns and keeps the
  registry's mutex, so that no later command is executed (\<open>third_command_never_returns\<close>).\<close>

theorem program_executes_commands:
  assumes "program_ok s" "connected (sy_es s)"
    and "ctl_client_fd (sy_ctl s) = es_client_fd (sy_es s) \<longrightarrow> ctl_command_parser_state (sy_ctl s) = STATE_MAGIC 0"
    and "program_run nd s acts t" "list_all2 stays_connected acts ds"
    and "list_all (registered_message (ctl_namespace_registry (sy_ctl s))) msgs"
    and "concat (map act_received acts) =
           concat (map (message_bytes (ctl_namespace_registry (sy_ctl s))) msgs)"
  shows "ctl_effects (sy_ctl t) = ctl_effects (sy_ctl s) @
           concat (map (message_calls (ctl_namespace_registry (sy_ctl s))) msgs)"
proof -
  have "registry_inv (sy_ctl s)" using assms(1) by (simp add: program_ok_def parser_ready_def registry_ready_def)
  moreover have "client_view (es_client_fd (sy_es s)) s = (SpecMagic 0, ctl_effects (sy_ctl s))"
    using assms(3) by (simp add: client_view_def)
  ultimately have "client_view (es_client_fd (sy_es s)) t = (SpecMagic 0, ctl_effects (sy_ctl s) @
      concat (map (message_calls (ctl_namespace_registry (sy_ctl s))) msgs))"
    using known_run_messages [OF _ assms(6)] assms(7) by (intro program_run_view [OF assms(4,1,2,5)]) simp
  then show ?thesis by (simp add: client_view_def)
qed

lemma demo_control_step:
  assumes "program_ok s" "connected (sy_es s)" "ctl_act_ok env" "ce_other env = (\<lambda>s. s)"
  obtains t where "program_step nd s (ByControl env) t" "program_ok t" "connected (sy_es t)"
proof -
  have "control_ready s" using assms(1) by (simp add: program_ok_def control_ready_def es_ready_def)
  from control_iteration_ok [OF this, of env nd] assms(3) obtain t where
    "control_iteration nd env s = Returns () t" by (auto simp: ctl_act_ok_def)
  then have step: "program_step nd s (ByControl env) t" using assms(3) by (simp add: program_step_iff)
  moreover have "stays_connected (ByControl env) []"
    using assms(4) by (simp add: adds_bytes_def es_stream_def)
  from program_step_serves [OF step assms(2) this] have "connected (sy_es t)" by (simp add: served_def)
  ultimately show thesis using that program_step_keeps [OF step assms(1)] by blast
qed

lemma demo_census_bytes: "message_bytes [builtin_namespace_entry] (0, 5) =
    magicBytes @ [protocolVersion, 15] @ BUILTIN_NAMESPACE @ [5]"
  by (simp add: message_bytes_def put_Command_def put_Namespace_def BUILTIN_NAMESPACE_bytes)

lemma demo_served_ok [simp]:
  "program_ok demo_served" "connected (sy_es demo_served)" "sy_ctl demo_served = initial_control"
  using connectedD(5) [OF demo_connected_ok(1)]
  by (simp_all add: demo_served_def program_ok_def initial_system_def)

theorem program_executes_commands_witness:
  "\<exists>acts t. program_run False demo_served acts t \<and> length acts = 3
     \<and> ctl_effects (sy_ctl t) = [CallsRequestHeapCensus]"
proof -
  let ?bytes = "message_bytes [builtin_namespace_entry] (0, 5)"
  let ?c = "\<lambda>bytes. ByControl (demo_ctl_env (\<lambda>s. s) (Received bytes))"
    and ?w = "ByRts (WriterWrite (demo_write_env (IoBytes 1)) [1, 2, 3])"
  let ?acts = "[?c (take 9 ?bytes), ?w, ?c (drop 9 ?bytes)]"
  have ok: "ctl_act_ok (demo_ctl_env (\<lambda>s. s) (Received (take 9 ?bytes)))"
    "ctl_act_ok (demo_ctl_env (\<lambda>s. s) (Received (drop 9 ?bytes)))"
    unfolding ctl_act_ok_def
    by (simp_all add: demo_census_bytes magicBytes_def BUILTIN_NAMESPACE_bytes) (simp_all add: demo_ctl_env_def)
  obtain s1 where s1: "program_step False demo_served (?c (take 9 ?bytes)) s1" "program_ok s1" "connected (sy_es s1)"
    by (rule demo_control_step [OF demo_served_ok(1,2) ok(1)]) auto
  obtain s2 where s2: "program_step False s1 ?w s2" "connected (sy_es s2)"
    by (rule demo_rts_write [OF s1(3), of "IoBytes 1" False "[1, 2, 3]"]) auto
  have ok2: "program_ok s2" using program_step_keeps [OF s2(1) s1(2)] by simp
  obtain s3 where s3: "program_step False s2 (?c (drop 9 ?bytes)) s3"
    by (rule demo_control_step [OF ok2 s2(2) ok(2)]) auto
  have run: "program_run False demo_served ?acts s3"
    using program_run.go [OF program_run.go [OF program_run.go [OF program_run.stop s1(1)] s2(1)] s3] by simp
  have "ctl_effects (sy_ctl s3) = ctl_effects (sy_ctl demo_served) @
      concat (map (message_calls (ctl_namespace_registry (sy_ctl demo_served))) [(0, 5)])"
  proof (rule program_executes_commands [OF demo_served_ok(1,2) _ run, of "[[], [1, 2, 3], []]"])
    show "list_all2 stays_connected ?acts [[], [1, 2, 3], []]"
      by (simp add: adds_bytes_def es_stream_def)
    show "list_all (registered_message (ctl_namespace_registry (sy_ctl demo_served))) [(0, 5)]"
      by (simp add: registered_message_def builtin_namespace_entry_def builtin_id_defs)
    show "concat (map act_received ?acts) =
        concat (map (message_bytes (ctl_namespace_registry (sy_ctl demo_served))) [(0, 5)])"
      by simp
  qed simp
  with run show ?thesis
    by (intro exI [of _ ?acts] exI [of _ s3]) (simp add: message_calls_def spec_effects_builtin)
qed

end
