(* ===== verification/ES_FirstClient.thy ===== *)
theory ES_FirstClient
  imports ES_Service
begin

text \<open>
  The first client of a program: in any interleaving of all threads (\<open>ES_System\<close>) it gets the
  event log from the first block on, also what was written before it connected.
\<close>

section \<open>Waiting for the first client\<close>

text \<open>
  The writer is attached, the RTS has announced that it is ready, and no client has connected.
  Then the RTS writes into the buffer.
\<close>

definition expecting :: "es_state \<Rightarrow> bool" where
  "expecting s \<longleftrightarrow>
     unconnected False s \<and> es_client_fd s = -1 \<and>
     has_sig EVENTLOG_SOCKET_SIG_ATTACHED (es_init_state s) \<and>
     has_sig EVENTLOG_SOCKET_SIG_RTS_READY (es_init_state s)"

definition awaited :: "byte list \<Rightarrow> es_state \<Rightarrow> es_state \<Rightarrow> bool" where
  "awaited d s t \<longleftrightarrow>
     expecting t \<and> es_sent t = es_sent s \<and> concat (wb_contents t) = concat (wb_contents s) @ d"

text \<open>In this phase the RTS does not stop the writer.\<close>

fun rts_fills :: "writer_op \<Rightarrow> byte list \<Rightarrow> bool" where
  "rts_fills (WriterInit env) d \<longleftrightarrow> d = []"
| "rts_fills (WriterWrite env data) d \<longleftrightarrow> d = data"
| "rts_fills WriterFlush d \<longleftrightarrow> d = []"
| "rts_fills (WriterStop env) d \<longleftrightarrow> False"

abbreviation adds_waiting :: "(es_state \<Rightarrow> es_state) \<Rightarrow> byte list \<Rightarrow> bool" where
  "adds_waiting \<equiv> keeps_phase expecting awaited"

definition stays_waiting :: "program_act \<Rightarrow> byte list \<Rightarrow> bool" where
  "stays_waiting = stays_unconnected expecting awaited rts_fills"

lemma awaited_refl: "expecting s \<Longrightarrow> awaited [] s s"
  by (simp add: awaited_def)

lemma awaited_trans: "awaited d s t \<Longrightarrow> awaited d' t u \<Longrightarrow> awaited (d @ d') s u"
  by (simp add: awaited_def)

lemma expectingD:
  assumes "expecting s"
  shows "\<not> es_mutex s" "wb_rep s (wb_contents s)" "es_client_fd s = -1" "es_ready s"
    "has_sig EVENTLOG_SOCKET_SIG_ATTACHED (es_init_state s)"
    "has_sig EVENTLOG_SOCKET_SIG_RTS_READY (es_init_state s)"
    "\<not> has_sig EVENTLOG_SOCKET_SIG_HAD_FIRST_CONNECTION (es_init_state s)"
  using assms by (auto simp: expecting_def unconnected_def es_ready_def)

lemma awaitedI:
  assumes "expecting s" "wb_rep t (wb_contents s)" "\<not> es_mutex t" "es_client_fd t = -1"
    and "es_sent t = es_sent s"
    and "es_init_state t = es_init_state s \<or> es_init_state t = es_init_state s OR EVENTLOG_SOCKET_SIG_ATTACHED"
  shows "awaited [] s t"
  using es_ready_rep [OF assms(3,2)] assms expectingD [OF assms(1)]
  by (auto simp: awaited_def expecting_def unconnected_def has_sig_bits bit_or_iff sig_bit_simps)

section \<open>The operations in this phase\<close>

lemma rts_waits:
  assumes "expecting s" "writer_op_ok op" "rts_fills op d"
  shows "returns_with (awaited d s) (writer_step nd op s)"
proof (cases op)
  case (WriterInit env)
  with assms show ?thesis
    using expectingD [OF assms(1)]
    by (auto simp: writer_init_def Let_def write_env_ok_def intro!: awaitedI)
next
  case (WriterWrite env data)
  with assms obtain t where "writer_write nd env data s = Returns True t" "unconnected False t"
    "es_client_fd t = es_client_fd s" "es_init_state t = es_init_state s" "es_sent t = es_sent s"
    "wb_contents t = wb_contents s @ [data]"
    using unconnected_write [of False s env nd data] by (auto simp: expecting_def)
  with WriterWrite assms(1,3) show ?thesis by (auto simp: awaited_def expecting_def)
next
  case WriterFlush
  with assms show ?thesis by (simp add: writer_flush_def awaited_refl)
next
  case (WriterStop env)
  with assms show ?thesis by simp
qed

interpretation waiting: unconnected_phase expecting awaited rts_fills
proof
  show "awaited [] s s" if "expecting s" for s using that by (rule awaited_refl)
  show "awaited (d @ d') s u" if "awaited d s t" "awaited d' t u" for d d' s t u
    using that by (rule awaited_trans)
  show "expecting t" if "awaited d s t" for d s t using that by (simp add: awaited_def)
  show "es_ready s \<and> es_client_fd s = -1 \<and> has_sig EVENTLOG_SOCKET_SIG_RTS_READY (es_init_state s)"
    if "expecting s" for s using expectingD [OF that] by simp
  show "awaited [] s (s\<lparr>es_hooks := h\<rparr>)" if "expecting s" for s h
    using expectingD [OF that] by (intro awaitedI that) simp_all
qed (fact rts_waits)

section \<open>The client connects\<close>

text \<open>
  The worker's step that accepts the client: event logging runs and is not restarted, the
  connection is published, and the buffer is kept. Other threads write into the buffer before the
  client is published (\<open>le_other\<close> 0 to 2) and to the client after that; \<open>d\<close> is all they write.
\<close>

fun first_connects :: "program_act \<Rightarrow> int \<Rightarrow> byte list \<Rightarrow> bool" where
  "first_connects (ByWorker env) fd d \<longleftrightarrow>
     (let listen = ws_listen env
      in le_accept listen = Accepted fd \<and> fd \<ge> 0 \<and> le_status listen = EVENTLOG_RUNNING \<and>
         (\<exists>d0 d1 d2 d3 d4 d5. d = d0 @ d1 @ d2 @ d3 @ d4 @ d5 \<and> adds_waiting (ws_other env) d0 \<and>
            adds_waiting (le_other listen 0) d1 \<and> adds_waiting (le_other listen 1) d2 \<and>
            adds_waiting (le_other listen 2) d3 \<and> adds_bytes (le_other listen 3) d4 \<and>
            adds_bytes (le_other listen 4) d5))"
| "first_connects a fd d \<longleftrightarrow> False"

definition accepted_first :: "int \<Rightarrow> byte list \<Rightarrow> es_state \<Rightarrow> es_state \<Rightarrow> bool" where
  "accepted_first fd d s t \<longleftrightarrow>
     connected t \<and> es_stream t = (fd, es_sent s fd @ concat (wb_contents s) @ d)"

lemma accepted_first_trans:
  "awaited d s t \<Longrightarrow> accepted_first fd d' t u \<Longrightarrow> accepted_first fd (d @ d') s u"
  "accepted_first fd d s t \<Longrightarrow> served d' t u \<Longrightarrow> accepted_first fd (d @ d') s u"
  by (auto simp: accepted_first_def awaited_def served_def es_stream_def simp flip: append_assoc)

lemma ready_is_not_awaited:
  assumes "expecting s" "listen_env_ok env"
  shows "es_worker_wait_rts_ready env s = Returns () s"
proof -
  have "s\<lparr>es_mutex := False\<rparr> = s" using expectingD(1) [OF assms(1)] by simp
  then show ?thesis
    using assms expectingD [OF assms(1)]
    by (simp add: es_worker_wait_rts_ready_def wait_rts_ready_loop.simps listen_env_ok_def)
qed

lemma publish_first:
  assumes "expecting s" "listen_env_ok env" "fd \<ge> 0"
  shows "\<exists>t. connect_publish env fd s = Returns () t \<and> accepted_first fd [] s t"
  using expectingD [OF assms(1)] assms(2,3)
  by (auto simp: connect_publish_def listen_env_ok_def trace_event_def Let_def accepted_first_def
      connected_def es_ready_def es_stream_def)

lemma mark_first_serves:
  assumes "connected s" "listen_env_ok env"
  shows "\<exists>t. connect_mark_first env had s = Returns () t \<and> served [] s t"
  using connectedD [OF assms(1)] assms
  by (auto simp: connect_mark_first_def listen_env_ok_def trace_event_def Let_def intro!: servedI served_refl)

lemma first_connect_keeps_buffer:
  assumes "expecting s" "listen_env_ok env" "le_status env = EVENTLOG_RUNNING" "fd \<ge> 0"
    and "adds_waiting (le_other env 1) d1" "adds_waiting (le_other env 2) d2"
    and "adds_bytes (le_other env 3) d3" "adds_bytes (le_other env 4) d4"
  shows "\<exists>t. connect_client nd env fd s = Returns () t \<and> accepted_first fd (d1 @ d2 @ d3 @ d4) s t"
proof -
  note s = expectingD [OF assms(1)]
  have id: "s\<lparr>es_mutex := False\<rparr> = s" using s(1) by simp
  have dec: "should_stop_logging (le_status env) (es_init_state s) = False"
    "should_start_logging (le_status env) (es_init_state s) = False"
    using s assms(3) by (simp_all add: should_stop_logging_def should_start_logging_def)
  have t2: "awaited (d1 @ d2) s (le_other env 2 (le_other env 1 s))"
    using waiting.keepsD [OF assms(5,1)] waiting.keepsD [OF assms(6)] awaited_trans by (auto simp: awaited_def)
  then have "expecting (le_other env 2 (le_other env 1 s))" by (simp add: awaited_def)
  from publish_first [OF this assms(2,4)] obtain t3 where t3:
    "connect_publish env fd (le_other env 2 (le_other env 1 s)) = Returns () t3"
    "accepted_first fd (d1 @ d2) s t3" using accepted_first_trans(1) [OF t2] by fastforce
  have "connected t3" using t3(2) by (simp add: accepted_first_def)
  then have t4: "served (d3 @ d4) t3 (le_other env 4 (le_other env 3 t3))"
    by (rule adds_bytes_comp [OF assms(7,8)])
  then have "connected (le_other env 4 (le_other env 3 t3))" by (simp add: served_def)
  from mark_first_serves [OF this assms(2)] obtain t5 where t5:
    "connect_mark_first env False (le_other env 4 (le_other env 3 t3)) = Returns () t5"
    "served (d3 @ d4) t3 t5" using served_trans [OF t4] by fastforce
  have "connect_client nd env fd s = Returns () t5"
    using s assms(2) t3(1) t5(1)
    by (simp add: connect_client_def connect_stop_def connect_start_def dec id listen_env_ok_def Let_def)
  moreover have "accepted_first fd (d1 @ d2 @ d3 @ d4) s t5"
    using accepted_first_trans(2) [OF t3(2) t5(2)] by simp
  ultimately show ?thesis by blast
qed

lemma worker_connects:
  assumes "expecting s" "worker_env_ok nd env" "first_connects (ByWorker env) fd d"
  shows "returns_with (accepted_first fd d s) (es_worker_step nd env s)"
proof -
  let ?env = "ws_listen env" and ?t = "ws_other env s"
  let ?u = "le_other ?env 0 ?t"
  obtain d0 d1 d2 d3 d4 d5 where d: "d = d0 @ d1 @ d2 @ d3 @ d4 @ d5" "adds_waiting (ws_other env) d0"
    "adds_waiting (le_other ?env 0) d1" "adds_waiting (le_other ?env 1) d2"
    "adds_waiting (le_other ?env 2) d3" "adds_bytes (le_other ?env 3) d4" "adds_bytes (le_other ?env 4) d5"
    using assms(3) by (auto simp: Let_def)
  have e: "le_accept ?env = Accepted fd" "le_status ?env = EVENTLOG_RUNNING" "fd \<ge> 0" "listen_env_ok ?env"
    using assms(2,3) by (simp_all add: Let_def worker_env_ok_def)
  have t: "awaited d0 s ?t" using d(2) assms(1) by (rule waiting.keepsD)
  then have u: "awaited d1 ?t ?u" using waiting.keepsD [OF d(3)] by (simp add: awaited_def)
  then have "expecting ?u" by (simp add: awaited_def)
  from first_connect_keeps_buffer [OF this e(4,2,3) d(4-7)] obtain v where v:
    "connect_client nd ?env fd ?u = Returns () v" "accepted_first fd (d2 @ d3 @ d4 @ d5) ?u v" by blast
  have "accepted_first fd d s v"
    using accepted_first_trans(1) [OF awaited_trans [OF t u] v(2)] by (simp add: d(1))
  moreover have "es_worker_wait_rts_ready ?env ?t = Returns () ?t"
    using t by (intro ready_is_not_awaited e(4)) (simp add: awaited_def)
  ultimately have "returns_with (accepted_first fd d s) (es_worker_step_listen nd ?env ?t)"
    by (auto simp: es_worker_step_listen_def Let_def e(1) v(1) intro!: returns_with_exit split: option.splits)
  then show ?thesis by (simp add: waiting.worker_snapshot [OF assms(1,2)])
qed

lemma program_step_connects:
  assumes "program_step nd s a t" "expecting (sy_es s)" "first_connects a fd d"
  shows "accepted_first fd d (sy_es s) (sy_es t)"
proof (cases a)
  case (ByWorker env)
  have "worker_env_ok nd env" using assms(1) ByWorker by (simp add: program_step_iff)
  with worker_connects [OF assms(2)] assms(3) ByWorker
  have "returns_with (\<lambda>t. accepted_first fd d (sy_es s) (sy_es t)) (perform nd a s)"
    by (simp del: first_connects.simps)
  with assms(1) show ?thesis by (simp add: program_step_iff)
qed (use assms(3) in simp_all)

text \<open>C3: the first client gets the whole event log. Take any run of the whole program, with any
  interleaving of RTS threads, worker, control thread and users, that starts with the writer
  attached, the RTS ready and no client so far: first no client connects, then the worker accepts
  one while event logging is running, then its connection does not break. The bytes that the
  kernel has accepted for the client, followed by those waiting, are all the bytes written since
  the start, before, during and after the connection, in order: the log is neither cut nor
  restarted.\<close>

theorem first_client_gets_whole_log:
  assumes "program_run nd s (before @ [a] @ after) t" "expecting (sy_es s)"
    and "list_all2 stays_waiting before ds" "first_connects a fd d" "list_all2 stays_connected after ds'"
    and "es_sent (sy_es s) fd = []"
  shows "connected (sy_es t) \<and> es_client_fd (sy_es t) = fd
     \<and> es_sent (sy_es t) fd @ concat (wb_contents (sy_es t)) =
         concat (wb_contents (sy_es s)) @ concat ds @ d @ concat ds'"
proof -
  from program_run_appendD [OF assms(1)] obtain s1 where s1:
    "program_run nd s before s1" "program_run nd s1 ([a] @ after) t" by blast
  from program_run_appendD [OF s1(2)] obtain s2 where s2:
    "program_run nd s1 [a] s2" "program_run nd s2 after t" by blast
  have w: "awaited (concat ds) (sy_es s) (sy_es s1)"
    using waiting.run_reach [OF s1(1) assms(2)] assms(3) by (simp add: stays_waiting_def)
  then have c: "accepted_first fd d (sy_es s1) (sy_es s2)"
    using program_step_connects [OF program_run_single [OF s2(1)] _ assms(4)] by (simp add: awaited_def)
  then have "served (concat ds') (sy_es s2) (sy_es t)"
    using program_run_serves [OF s2(2) _ assms(5)] by (simp add: accepted_first_def)
  with w c assms(6) show ?thesis
    by (auto simp: awaited_def accepted_first_def served_def es_stream_def)
qed

definition demo_expecting :: system where
  "demo_expecting = initial_system\<lparr>sy_es := initial_es\<lparr>es_init_state :=
     EVENTLOG_SOCKET_SIG_ATTACHED OR EVENTLOG_SOCKET_SIG_RTS_READY\<rparr>\<rparr>"

lemma demo_expecting_ok:
  "expecting (sy_es demo_expecting)" "es_sent (sy_es demo_expecting) fd = []"
  "wb_contents (sy_es demo_expecting) = []"
  by (simp_all add: demo_expecting_def initial_system_def expecting_def unconnected_def es_ready_def
      has_sig_bits bit_or_iff sig_bit_simps)

lemma demo_rts_waits:
  assumes "expecting (sy_es s)"
  obtains t where "program_step nd s (ByRts (WriterWrite (demo_write_env res) d)) t" "expecting (sy_es t)"
    "es_hooks (sy_es t) = es_hooks (sy_es s)"
proof -
  from unconnected_write [of False "sy_es s" "demo_write_env res" nd d] assms obtain es where es:
    "writer_write nd (demo_write_env res) d (sy_es s) = Returns True es"
    "es_hooks es = es_hooks (sy_es s)" by (auto simp: expecting_def)
  then have step: "program_step nd s (ByRts (WriterWrite (demo_write_env res) d)) (s\<lparr>sy_es := es\<rparr>)"
    by (intro program_step.intros) (simp_all add: on_es_def)
  then have "awaited d (sy_es s) es"
    using waiting.perform_reach [OF assms, of nd "ByRts (WriterWrite (demo_write_env res) d)" d] es(1)
    by (simp add: program_step_iff)
  with step es(2) show thesis by (intro that [of "s\<lparr>sy_es := es\<rparr>"]) (simp_all add: awaited_def)
qed

definition demo_first_env :: worker_env where
  "demo_first_env = \<lparr>ws_lock = 0, ws_unlock = 0, ws_other = (\<lambda>s. s),
     ws_nonwrite = \<lparr>ne_poll = PollTimeout, ne_reads = (\<lambda>_. IoBytes 0), ne_lock = 0, ne_unlock = 0\<rparr>,
     ws_write = demo_drain_env (\<lambda>k. IoBytes 1), ws_listen = demo_listen_env\<rparr>"

lemma demo_first_step:
  assumes "expecting (sy_es s)" "\<not> hk_mutex (es_hooks (sy_es s))"
  obtains t where "program_step nd s (ByWorker demo_first_env) t"
proof -
  note s = expectingD [OF assms(1)]
  have s': "(sy_es s)\<lparr>es_mutex := False\<rparr> = sy_es s" using s(1) by simp
  have env: "worker_env_ok nd demo_first_env"
    by (simp add: worker_env_ok_def demo_first_env_def demo_drain_env_def demo_listen_env_def listen_env_ok_def)
  then have listen: "listen_env_ok demo_listen_env" by (simp add: worker_env_ok_def demo_first_env_def)
  from connect_client_ok [OF s(4) assms(2) demo_listen_env_ok, of nd 7] obtain es where
    "connect_client nd demo_listen_env 7 (sy_es s) = Returns () es" by blast
  with ready_is_not_awaited [OF assms(1) listen]
  have "es_worker_step_listen nd demo_listen_env (sy_es s) = Returns () es"
    by (simp add: es_worker_step_listen_def demo_listen_env_def listen_poll_loop.simps)
  then have "es_worker_step nd demo_first_env (sy_es s) = Returns () es"
    using s by (simp add: es_worker_step_def demo_first_env_def Let_def s')
  then show thesis
    using env by (intro that [of "s\<lparr>sy_es := es\<rparr>"] program_step.intros) (simp_all add: on_es_def)
qed

theorem first_client_gets_whole_log_witness:
  "\<exists>acts t. program_run True demo_expecting acts t \<and> length acts = 3
     \<and> es_sent (sy_es t) 7 @ concat (wb_contents (sy_es t)) = [1, 2, 3]"
proof -
  let ?w = "\<lambda>d. ByRts (WriterWrite (demo_write_env (IoBytes 1)) d)" and ?a = "ByWorker demo_first_env"
  obtain s1 where s1: "program_step True demo_expecting (?w [1, 2]) s1" "expecting (sy_es s1)"
    "es_hooks (sy_es s1) = initial_hooks"
    by (rule demo_rts_waits [OF demo_expecting_ok(1), of True "IoBytes 1" "[1, 2]"])
      (auto simp: demo_expecting_def)
  obtain s2 where s2: "program_step True s1 ?a s2"
    by (rule demo_first_step [OF s1(2)]) (auto simp: s1(3) initial_hooks_def)
  have a: "first_connects ?a 7 []"
    by (simp add: demo_first_env_def demo_listen_env_def keeps_phase_def awaited_refl adds_bytes_def es_stream_def)
  have "connected (sy_es s2)"
    using program_step_connects [OF s2 s1(2) a] by (simp add: accepted_first_def)
  then obtain t where t: "program_step True s2 (?w [3]) t"
    by (rule demo_rts_write [of s2 "IoBytes 1" True "[3]"]) auto
  have run: "program_run True demo_expecting ([?w [1, 2]] @ [?a] @ [?w [3]]) t"
    using program_run.go [OF program_run.go [OF program_run.go [OF program_run.stop s1(1)] s2] t] by simp
  from first_client_gets_whole_log [OF run demo_expecting_ok(1), of "[[1, 2]]" 7 "[]" "[[3]]"] run a
  show ?thesis
    by (intro exI [of _ "[?w [1, 2]] @ [?a] @ [?w [3]]"] exI [of _ t])
      (simp add: demo_expecting_ok(2,3) stays_waiting_def del: first_connects.simps)
qed

end
