(* ===== verification/ES_Restart.thy ===== *)
theory ES_Restart
  imports ES_FirstClient
begin

text \<open>
  The connections for which event logging is restarted: the contract \<open>restart_phase\<close> of the phases
  before them (no client, nothing in the buffer, and the writer is not attached or has served a
  client before), and what such a connection does in any interleaving of all threads.
\<close>

section \<open>Event logging is restarted for the client\<close>

fun rts_bytes :: "writer_op \<Rightarrow> byte list" where
  "rts_bytes (WriterWrite env d) = d"
| "rts_bytes op = []"

definition rts_logs :: "writer_op list \<Rightarrow> bool" where
  "rts_logs ops \<longleftrightarrow> list_all (\<lambda>op. writer_op_ok op \<and> stays_connected (ByRts op) (rts_bytes op)) ops"

definition ops_bytes :: "writer_op list \<Rightarrow> byte list" where
  "ops_bytes ops = concat (map rts_bytes ops)"

text \<open>
  \<open>starts_log env d\<close>: \<open>startEventLogging\<close> succeeds at some attempt, and what the RTS writes in the
  attempts up to that one is \<open>d\<close>.
\<close>

definition starts_log :: "listen_env \<Rightarrow> byte list \<Rightarrow> bool" where
  "starts_log env d \<longleftrightarrow>
     (\<exists>k. fst (le_start env k) \<and> (\<forall>j < k. \<not> fst (le_start env j)) \<and>
        (\<forall>j. rts_logs (snd (le_start env j))) \<and>
        d = concat (map (\<lambda>j. ops_bytes (snd (le_start env j))) [0..<Suc k]))"

lemma rts_calls_Cons:
  "rts_calls nd (op # ops) s = call_bind (writer_step nd op s) (\<lambda>_. rts_calls nd ops)"
proof (cases "writer_step nd op s")
  case (Returns r t)
  then show ?thesis by (cases "run_ops (writer_step nd) ops t") (simp_all add: rts_calls_def)
qed (simp_all add: rts_calls_def)

lemma rts_logs_serves:
  "connected s \<Longrightarrow> rts_logs ops \<Longrightarrow> returns_with (served (ops_bytes ops) s) (rts_calls nd ops s)"
proof (induction ops arbitrary: s)
  case Nil
  then show ?case by (simp add: rts_calls_def ops_bytes_def served_refl)
next
  case (Cons op ops)
  have op: "returns_with (served (rts_bytes op) s) (writer_step nd op s)"
    using Cons.prems by (intro rts_serves) (simp_all add: rts_logs_def)
  have "returns_with (served (ops_bytes (op # ops)) s) (rts_calls nd ops t)"
    if t: "served (rts_bytes op) s t" for t
  proof -
    have "returns_with (served (ops_bytes ops) t) (rts_calls nd ops t)"
      using t Cons.prems(2) by (intro Cons.IH) (simp_all add: served_def rts_logs_def)
    then show ?thesis
      by (rule returns_with_weaken) (use served_trans [OF t] in \<open>simp add: ops_bytes_def\<close>)
  qed
  with op show ?case unfolding rts_calls_Cons by (rule returns_with_chain(1))
qed

lemma trace_event_serves: "connected s \<Longrightarrow> served [] s (trace_event e s)"
  using connectedD [of s] by (intro servedI) (simp_all add: trace_event_def)

lemma start_logging_loop_serves:
  assumes "\<forall>j. rts_logs (snd (le_start env j))"
  shows "connected s \<Longrightarrow> fst (le_start env (i + k)) \<Longrightarrow> \<forall>j < k. \<not> fst (le_start env (i + j)) \<Longrightarrow>
    returns_with (served (concat (map (\<lambda>j. ops_bytes (snd (le_start env j))) [i..<i + Suc k])) s)
      (case start_logging_loop nd env i s of None \<Rightarrow> Hangs | Some r \<Rightarrow> r)"
proof (induction k arbitrary: i s)
  case 0
  obtain ops where st: "le_start env i = (True, ops)" using 0(2) by (cases "le_start env i") auto
  let ?s = "trace_event (EvStartEventLogging True) s"
  have "returns_with (served (ops_bytes ops) ?s) (rts_calls nd ops ?s)"
    using assms st trace_event_serves [OF 0(1)]
    by (intro rts_logs_serves) (auto simp: served_def dest: spec [of _ i])
  then have "returns_with (served (ops_bytes ops) s) (rts_calls nd ops ?s)"
    by (rule returns_with_weaken) (use served_trans [OF trace_event_serves [OF 0(1)]] in fastforce)
  with st show ?case by (subst start_logging_loop.simps) (auto split: outcome.splits)
next
  case (Suc k)
  obtain ops where st: "le_start env i = (False, ops)"
    using Suc.prems(3) by (cases "le_start env i") (auto dest: spec [of _ 0])
  let ?s = "trace_event (EvStartEventLogging False) s"
  have "returns_with (served (ops_bytes ops) ?s) (rts_calls nd ops ?s)"
    using assms st trace_event_serves [OF Suc.prems(1)]
    by (intro rts_logs_serves) (auto simp: served_def dest: spec [of _ i])
  then have now: "returns_with (served (ops_bytes ops) s) (rts_calls nd ops ?s)"
    by (rule returns_with_weaken) (use served_trans [OF trace_event_serves [OF Suc.prems(1)]] in fastforce)
  have later: "returns_with (served (concat (map (\<lambda>j. ops_bytes (snd (le_start env j))) [i..<i + Suc (Suc k)])) s)
      (case start_logging_loop nd env (Suc i) t of None \<Rightarrow> Hangs | Some r \<Rightarrow> r)"
    if t: "served (ops_bytes ops) s t" for t
  proof -
    have "\<forall>j < k. \<not> fst (le_start env (Suc i + j))"
      using Suc.prems(3) by (auto dest: spec [where x = "Suc _"])
    then have "returns_with (served (concat (map (\<lambda>j. ops_bytes (snd (le_start env j))) [Suc i..<Suc i + Suc k])) t)
        (case start_logging_loop nd env (Suc i) t of None \<Rightarrow> Hangs | Some r \<Rightarrow> r)"
      using t Suc.prems(2) by (intro Suc.IH) (simp_all add: served_def)
    moreover have "[i..<i + Suc (Suc k)] = i # [Suc i..<Suc i + Suc k]" by (simp add: upt_conv_Cons)
    ultimately show ?thesis
      using st served_trans [OF t] by (auto simp: returns_with_def split: outcome.splits)
  qed
  show ?case
    using now st later by (subst start_logging_loop.simps) (auto split: outcome.splits)
qed

lemma handle_hook_es_serves:
  "connected s \<Longrightarrow> returns_with (served [] s) (handle_hook_es env hook s)"
  using connectedD [of s]
  by (auto simp: handle_hook_es_def trace_event_def split: outcome.splits intro!: servedI)

lemma connect_start_serves:
  assumes "connected s" "starts_log env d"
  shows "returns_with (served d s) (connect_start nd env True s)"
proof -
  obtain k where k: "fst (le_start env (0 + k))" "\<forall>j < k. \<not> fst (le_start env (0 + j))"
    "\<forall>j. rts_logs (snd (le_start env j))" "d = concat (map (\<lambda>j. ops_bytes (snd (le_start env j))) [0..<0 + Suc k])"
    using assms(2) by (auto simp: starts_log_def)
  have loop: "returns_with (served d s) (case start_logging_loop nd env 0 s of None \<Rightarrow> Hangs | Some r \<Rightarrow> r)"
    unfolding k(4) by (rule start_logging_loop_serves [OF k(3) assms(1) k(1,2)])
  have hooks: "returns_with (served d s) (EXIT_ON_ERROR (handle_hook_es henv hook t) worker_save (Returns ()))"
    if t: "served d s t" for henv hook t
  proof -
    have "returns_with (served [] t) (handle_hook_es henv hook t)"
      using t by (intro handle_hook_es_serves) (simp add: served_def)
    then have "returns_with (served d s) (handle_hook_es henv hook t)"
      by (rule returns_with_weaken) (use served_trans [OF t] in fastforce)
    then show ?thesis by (rule returns_with_chain(3)) simp
  qed
  show ?thesis
    using returns_with_chain(1) [OF loop hooks] by (simp add: connect_start_def)
qed

section \<open>Phases in which nothing is kept\<close>

text \<open>In these phases no byte reaches any client; what the RTS writes, if anything, is lost.\<close>

definition quietly :: "(es_state \<Rightarrow> bool) \<Rightarrow> byte list \<Rightarrow> es_state \<Rightarrow> es_state \<Rightarrow> bool" where
  "quietly within d s t \<longleftrightarrow> within t \<and> es_sent t = es_sent s"

definition stays_quiet :: "(es_state \<Rightarrow> bool) \<Rightarrow> (writer_op \<Rightarrow> bool) \<Rightarrow> program_act \<Rightarrow> bool" where
  "stays_quiet within rts a \<longleftrightarrow> stays_unconnected within (quietly within) (\<lambda>op d. rts op) a []"

abbreviation keeps_quiet :: "(es_state \<Rightarrow> bool) \<Rightarrow> (es_state \<Rightarrow> es_state) \<Rightarrow> bool" where
  "keeps_quiet within f \<equiv> keeps_phase within (quietly within) f []"

text \<open>
  The worker's step that accepts a client after such a phase. Until the client is published, nothing
  reaches it; after that other threads may write to it (\<open>le_other\<close> 3 and 4), and the RTS does in
  \<open>startEventLogging\<close>; \<open>d\<close> is all they write.
\<close>

fun restart_connects ::
  "(es_state \<Rightarrow> bool) \<Rightarrow> (writer_op \<Rightarrow> bool) \<Rightarrow> program_act \<Rightarrow> int \<Rightarrow> byte list \<Rightarrow> bool" where
  "restart_connects within rts (ByWorker env) fd d \<longleftrightarrow>
     (let listen = ws_listen env
      in le_accept listen = Accepted fd \<and> fd \<ge> 0 \<and> list_all rts (le_end listen) \<and>
         keeps_quiet within (ws_other env) \<and> keeps_quiet within (le_other listen 0) \<and>
         keeps_quiet within (le_other listen 1) \<and> keeps_quiet within (le_other listen 2) \<and>
         (\<exists>d1 d2 d3. d = d1 @ d2 @ d3 \<and> adds_bytes (le_other listen 3) d1 \<and> starts_log listen d2 \<and>
            adds_bytes (le_other listen 4) d3))"
| "restart_connects within rts a fd d \<longleftrightarrow> False"

definition accepted_next :: "int \<Rightarrow> byte list \<Rightarrow> es_state \<Rightarrow> es_state \<Rightarrow> bool" where
  "accepted_next fd d s t \<longleftrightarrow> connected t \<and> es_stream t = (fd, es_sent s fd @ d)"

lemma accepted_next_trans:
  "quietly within e s t \<Longrightarrow> accepted_next fd d t u \<Longrightarrow> accepted_next fd d s u"
  "accepted_next fd d s t \<Longrightarrow> served d' t u \<Longrightarrow> accepted_next fd (d @ d') s u"
  by (auto simp: accepted_next_def quietly_def served_def es_stream_def simp flip: append_assoc)

locale restart_phase =
  fixes within :: "es_state \<Rightarrow> bool" and rts :: "writer_op \<Rightarrow> bool"
  assumes quiet: "within s \<Longrightarrow> es_ready s \<and> es_client_fd s = -1 \<and>
      has_sig EVENTLOG_SOCKET_SIG_RTS_READY (es_init_state s)"
    and restarts: "within s \<Longrightarrow> wb_contents s = [] \<and>
      (\<not> has_sig EVENTLOG_SOCKET_SIG_ATTACHED (es_init_state s) \<or>
       has_sig EVENTLOG_SOCKET_SIG_HAD_FIRST_CONNECTION (es_init_state s))"
    and hooks_trace: "within s \<Longrightarrow> within (s\<lparr>es_hooks := h, es_trace := tr\<rparr>)"
    and rts_quiet: "within s \<Longrightarrow> writer_op_ok op \<Longrightarrow> rts op \<Longrightarrow>
      returns_with (quietly within [] s) (writer_step nd op s)"
begin

lemma quietD:
  assumes "within s"
  shows "\<not> es_mutex s" "wb_rep s []" "wb_contents s = []" "es_client_fd s = -1" "es_ready s"
    "has_sig EVENTLOG_SOCKET_SIG_RTS_READY (es_init_state s)"
  using quiet [OF assms] restarts [OF assms] by (auto simp: es_ready_def)

lemma quiet_hooks: "within s \<Longrightarrow> quietly within d s (s\<lparr>es_hooks := h\<rparr>)"
  using hooks_trace [of s "es_trace s" h] by (simp add: quietly_def)

lemma quiet_trace: "within s \<Longrightarrow> quietly within d s (trace_event e s)"
  using hooks_trace [of s _ "es_hooks s"] by (simp add: quietly_def trace_event_def)

lemma handle_hook_quiet: "within s \<Longrightarrow> returns_with (quietly within [] s) (handle_hook_es env hook s)"
  using hooks_trace [of s]
  by (auto simp: handle_hook_es_def trace_event_def quietly_def split: outcome.splits)

lemma rts_calls_quiet:
  "within s \<Longrightarrow> list_all writer_op_ok ops \<Longrightarrow> list_all rts ops \<Longrightarrow>
     returns_with (quietly within [] s) (rts_calls nd ops s)"
proof (induction ops arbitrary: s)
  case Nil
  then show ?case by (simp add: rts_calls_def quietly_def)
next
  case (Cons op ops)
  have op: "returns_with (quietly within [] s) (writer_step nd op s)"
    using Cons.prems by (intro rts_quiet) simp_all
  have "returns_with (quietly within [] s) (rts_calls nd ops t)" if "quietly within [] s t" for t
    using Cons.IH [of t] Cons.prems(2,3) that
    by (auto simp: quietly_def returns_with_def split: outcome.splits)
  with op show ?case unfolding rts_calls_Cons by (rule returns_with_chain(1))
qed

end

sublocale restart_phase \<subseteq> unconnected_phase within "quietly within" "\<lambda>op d. rts op"
proof
  show "quietly within [] s s" if "within s" for s using that by (simp add: quietly_def)
  show "quietly within (d @ d') s u" if "quietly within d s t" "quietly within d' t u" for d d' s t u
    using that by (simp add: quietly_def)
  show "within t" if "quietly within d s t" for d s t using that by (simp add: quietly_def)
  show "returns_with (quietly within d s) (writer_step nd op s)"
    if "within s" "writer_op_ok op" "rts op" for s nd op d
    using rts_quiet [OF that] by (rule returns_with_weaken) (simp add: quietly_def)
qed (auto simp: quiet intro: quiet_hooks)

context restart_phase
begin

lemma quiet_run:
  assumes "program_run nd s acts t" "within (sy_es s)" "list_all (stays_quiet within rts) acts"
  shows "quietly within [] (sy_es s) (sy_es t)"
proof -
  have "list_all2 (stays_unconnected within (quietly within) (\<lambda>op d. rts op)) acts (replicate (length acts) [])"
    using assms(3) by (simp add: list_all2_conv_all_nth list_all_length stays_quiet_def)
  from run_reach [OF assms(1,2) this] show ?thesis by (simp add: quietly_def)
qed

lemma connect_stop_quiet:
  assumes "within s" "listen_env_ok env" "list_all rts (le_end env)"
  shows "returns_with (quietly within [] s) (connect_stop nd env stop att s)"
proof -
  have stop: "returns_with (quietly within [] s) (rts_calls nd (le_end env) (trace_event EvEndEventLogging t))"
    if "quietly within [] s t" for t
  proof -
    have "quietly within [] t (trace_event EvEndEventLogging t)"
      using that by (intro quiet_trace) (simp add: quietly_def)
    then show ?thesis
      using rts_calls_quiet [of "trace_event EvEndEventLogging t" "le_end env" nd] assms(2,3) that
      by (auto simp: listen_env_ok_def quietly_def returns_with_def split: outcome.splits)
  qed
  have "quietly within [] s s" using assms(1) by (simp add: quietly_def)
  then show ?thesis
    using stop returns_with_chain(3) [OF handle_hook_quiet [OF assms(1)] stop]
    by (simp add: connect_stop_def Let_def)
qed

lemma publish_next:
  assumes "within s" "listen_env_ok env" "fd \<ge> 0"
  shows "returns_with (accepted_next fd [] s) (connect_publish env fd s)"
  using quietD [OF assms(1)] assms(2,3)
  by (auto simp: connect_publish_def listen_env_ok_def trace_event_def Let_def accepted_next_def
      connected_def es_ready_def es_stream_def)

lemma ready_without_wait:
  assumes "within s" "listen_env_ok env"
  shows "es_worker_wait_rts_ready env s = Returns () s"
proof -
  have "s\<lparr>es_mutex := False\<rparr> = s" using quietD(1) [OF assms(1)] by simp
  then show ?thesis
    using assms quietD [OF assms(1)]
    by (simp add: es_worker_wait_rts_ready_def wait_rts_ready_loop.simps listen_env_ok_def)
qed

lemma next_connect_restarts_log:
  assumes "within s" "listen_env_ok env" "fd \<ge> 0"
    and "keeps_quiet within (le_other env 1)" "keeps_quiet within (le_other env 2)"
    and "adds_bytes (le_other env 3) d1" "starts_log env d2" "adds_bytes (le_other env 4) d3"
    and "list_all rts (le_end env)"
  shows "returns_with (accepted_next fd (d1 @ d2 @ d3) s) (connect_client nd env fd s)"
proof -
  note s = quietD [OF assms(1)]
  have id: "s\<lparr>es_mutex := False\<rparr> = s" using s(1) by simp
  have dec: "should_start_logging (le_status env) (es_init_state s) = True"
    using restarts [OF assms(1)] by (auto simp: should_start_logging_def should_stop_logging_def)
  let ?att = "has_sig EVENTLOG_SOCKET_SIG_ATTACHED (es_init_state s)"
  let ?had = "has_sig EVENTLOG_SOCKET_SIG_HAD_FIRST_CONNECTION (es_init_state s)"
  let ?stop = "should_stop_logging (le_status env) (es_init_state s)"
  have s1: "quietly within [] s (le_other env 1 s)" by (rule keepsD [OF assms(4,1)])
  then have stop: "returns_with (quietly within [] s) (connect_stop nd env ?stop ?att (le_other env 1 s))"
    by (intro returns_with_weaken [OF connect_stop_quiet [OF _ assms(2,9)]]) (simp_all add: quietly_def)
  have publish: "returns_with (accepted_next fd [] s) (connect_publish env fd (le_other env 2 t))"
    if t: "quietly within [] s t" for t
  proof -
    have u: "quietly within [] t (le_other env 2 t)" using keepsD [OF assms(5)] t by (simp add: quietly_def)
    then have "within (le_other env 2 t)" by (simp add: quietly_def)
    from publish_next [OF this assms(2,3)] show ?thesis
      by (rule returns_with_weaken) (use accepted_next_trans(1) [OF t accepted_next_trans(1) [OF u]] in blast)
  qed
  have start: "returns_with (accepted_next fd (d1 @ d2) s) (connect_start nd env True (le_other env 3 t))"
    if t: "accepted_next fd [] s t" for t
  proof -
    have "connected t" using t by (simp add: accepted_next_def)
    then have u: "served d1 t (le_other env 3 t)" by (rule adds_bytesD [OF assms(6)])
    then have "connected (le_other env 3 t)" by (simp add: served_def)
    from connect_start_serves [OF this assms(7)] show ?thesis
      by (rule returns_with_weaken) (use accepted_next_trans(2) [OF t served_trans [OF u]] in fastforce)
  qed
  have mark: "returns_with (accepted_next fd (d1 @ d2 @ d3) s) (connect_mark_first env ?had (le_other env 4 t))"
    if t: "accepted_next fd (d1 @ d2) s t" for t
  proof -
    have "connected t" using t by (simp add: accepted_next_def)
    then have u: "served d3 t (le_other env 4 t)" by (rule adds_bytesD [OF assms(8)])
    then have "connected (le_other env 4 t)" by (simp add: served_def)
    from mark_first_serves [OF this assms(2)] obtain v where
      "connect_mark_first env ?had (le_other env 4 t) = Returns () v" "served [] (le_other env 4 t) v" by blast
    with accepted_next_trans(2) [OF t served_trans [OF u]] show ?thesis by fastforce
  qed
  have "returns_with (accepted_next fd (d1 @ d2 @ d3) s)
     (call_bind (connect_stop nd env ?stop ?att (le_other env 1 s)) (\<lambda>_ s.
        call_bind (connect_publish env fd (le_other env 2 s)) (\<lambda>_ s.
          call_bind (connect_start nd env True (le_other env 3 s)) (\<lambda>_ s.
            connect_mark_first env ?had (le_other env 4 s)))))"
    by (rule returns_with_chain(1) [OF stop], rule returns_with_chain(1) [OF publish], assumption,
        rule returns_with_chain(1) [OF start], assumption, erule mark)
  then show ?thesis
    using s(1) assms(2) by (simp add: connect_client_def listen_env_ok_def Let_def id dec)
qed

lemma worker_reconnects:
  assumes "within s" "worker_env_ok nd env" "restart_connects within rts (ByWorker env) fd d"
  shows "returns_with (accepted_next fd d s) (es_worker_step nd env s)"
proof -
  let ?env = "ws_listen env" and ?t = "ws_other env s"
  let ?u = "le_other ?env 0 ?t"
  obtain d1 d2 d3 where d: "d = d1 @ d2 @ d3" "adds_bytes (le_other ?env 3) d1" "starts_log ?env d2"
    "adds_bytes (le_other ?env 4) d3" using assms(3) by (auto simp: Let_def)
  have e: "le_accept ?env = Accepted fd" "fd \<ge> 0" "listen_env_ok ?env" "keeps_quiet within (ws_other env)"
    "keeps_quiet within (le_other ?env 0)" "keeps_quiet within (le_other ?env 1)" "keeps_quiet within (le_other ?env 2)"
    "list_all rts (le_end ?env)"
    using assms(2,3) by (simp_all add: Let_def worker_env_ok_def)
  have t: "quietly within [] s ?t" using e(4) assms(1) by (rule keepsD)
  then have u: "quietly within [] ?t ?u" using keepsD [OF e(5)] by (simp add: quietly_def)
  then have "within ?u" by (simp add: quietly_def)
  from next_connect_restarts_log [OF this e(3,2,6,7) d(2-4) e(8)]
  have "returns_with (accepted_next fd d s) (connect_client nd ?env fd ?u)"
    by (rule returns_with_weaken)
      (use accepted_next_trans(1) [OF t accepted_next_trans(1) [OF u]] in \<open>simp add: d(1)\<close>)
  moreover have "es_worker_wait_rts_ready ?env ?t = Returns () ?t"
    using t by (intro ready_without_wait e(3)) (simp add: quietly_def)
  ultimately have "returns_with (accepted_next fd d s) (es_worker_step_listen nd ?env ?t)"
    by (auto simp: es_worker_step_listen_def Let_def e(1) intro!: returns_with_exit split: option.splits)
  then show ?thesis by (simp add: worker_snapshot [OF assms(1,2)])
qed

text \<open>Such a step returns when the calls of the system and of the RTS succeed.\<close>

lemma accept_step:
  assumes "within (sy_es s)" "\<not> hk_mutex (es_hooks (sy_es s))" "worker_env_ok nd env"
    and "connect_env_ok (ws_listen env) k" "le_listen (ws_listen env) = None"
    and "le_poll (ws_listen env) = (\<lambda>_. PollReady r r')" "le_accept (ws_listen env) = Accepted fd"
    and "ws_other env = (\<lambda>s. s)" "le_other (ws_listen env) 0 = (\<lambda>s. s)"
  obtains t where "program_step nd s (ByWorker env) t"
proof -
  have "listen_env_ok (ws_listen env)" using assms(3) by (simp add: worker_env_ok_def)
  note ready = ready_without_wait [OF assms(1) this]
  from connect_client_ok [OF quietD(5) [OF assms(1)] assms(2,4), of nd fd] obtain es where
    "connect_client nd (ws_listen env) fd (sy_es s) = Returns () es" by blast
  with ready have "es_worker_step_listen nd (ws_listen env) (sy_es s) = Returns () es"
    using assms(5-7,9) by (simp add: es_worker_step_listen_def listen_poll_loop.simps)
  then have "es_worker_step nd env (sy_es s) = Returns () es"
    by (simp add: worker_snapshot [OF assms(1,3)] assms(8))
  then show thesis
    using assms(3) by (intro that [of "s\<lparr>sy_es := es\<rparr>"] program_step.intros) (simp_all add: on_es_def)
qed

lemma program_step_reconnects:
  assumes "program_step nd s a t" "within (sy_es s)" "restart_connects within rts a fd d"
  shows "accepted_next fd d (sy_es s) (sy_es t)"
proof (cases a)
  case (ByWorker env)
  have "worker_env_ok nd env" using assms(1) ByWorker by (simp add: program_step_iff)
  with worker_reconnects [OF assms(2)] assms(3) ByWorker
  have "returns_with (\<lambda>t. accepted_next fd d (sy_es s) (sy_es t)) (perform nd a s)"
    by (simp del: restart_connects.simps)
  with assms(1) show ?thesis by (simp add: program_step_iff)
qed (use assms(3) in simp_all)

end

end
