(* ===== verification/ES_NextClient.thy ===== *)
theory ES_NextClient
  imports ES_Restart
begin

text \<open>
  Every later client of a program: after the connection before it has ended, what the RTS writes is
  dropped; when the next client connects, event logging is restarted for it, and it gets the log
  from there on and nothing else, in any interleaving of all threads (\<open>ES_System\<close>).
\<close>

section \<open>Between two clients\<close>

definition dropping :: "es_state \<Rightarrow> bool" where
  "dropping s \<longleftrightarrow>
     unconnected True s \<and> es_client_fd s = -1 \<and>
     has_sig EVENTLOG_SOCKET_SIG_RTS_READY (es_init_state s)"

text \<open>In this phase the RTS may do anything; what it writes is lost.\<close>

definition stays_idle :: "program_act \<Rightarrow> bool" where
  "stays_idle = stays_quiet dropping (\<lambda>_. True)"

definition next_connects :: "program_act \<Rightarrow> int \<Rightarrow> byte list \<Rightarrow> bool" where
  "next_connects = restart_connects dropping (\<lambda>_. True)"

abbreviation idled :: "es_state \<Rightarrow> es_state \<Rightarrow> bool" where
  "idled \<equiv> quietly dropping []"

lemma droppingD:
  assumes "dropping s"
  shows "\<not> es_mutex s" "wb_rep s []" "wb_contents s = []" "es_client_fd s = -1" "es_ready s"
    "has_sig EVENTLOG_SOCKET_SIG_RTS_READY (es_init_state s)"
    "has_sig EVENTLOG_SOCKET_SIG_HAD_FIRST_CONNECTION (es_init_state s)"
  using assms by (auto simp: dropping_def unconnected_def es_ready_def)

text \<open>What the functions of the writer may do to \<open>g_init_state\<close>.\<close>

definition announced :: "byte \<Rightarrow> bool" where
  "announced i \<longleftrightarrow>
     has_sig EVENTLOG_SOCKET_SIG_RTS_READY i \<and> has_sig EVENTLOG_SOCKET_SIG_HAD_FIRST_CONNECTION i"

lemma announced_attached [simp]:
  "announced (i OR EVENTLOG_SOCKET_SIG_ATTACHED) = announced i"
  "announced (i AND NOT EVENTLOG_SOCKET_SIG_ATTACHED) = announced i"
  by (simp_all add: announced_def has_sig_bits bit_or_iff bit_and_iff bit_not_iff sig_bit_simps)

lemma droppingI:
  assumes "wb_rep t []" "\<not> es_mutex t" "es_client_fd t = -1" "announced (es_init_state t)"
  shows "dropping t"
  using es_ready_rep [OF assms(2,1)] assms by (simp add: dropping_def unconnected_def announced_def)

lemma dropping_announced: "dropping s \<Longrightarrow> announced (es_init_state s)"
  using droppingD(6,7) by (simp add: announced_def)

lemma rts_idles:
  assumes "dropping s" "writer_op_ok op"
  shows "returns_with (idled s) (writer_step nd op s)"
proof (cases op)
  case (WriterInit env)
  with assms show ?thesis
    using droppingD [OF assms(1)] dropping_announced [OF assms(1)]
    by (auto simp: writer_init_def Let_def write_env_ok_def quietly_def intro!: droppingI)
next
  case (WriterWrite env data)
  with assms unconnected_write [of True s env nd data] show ?thesis
    by (auto simp: quietly_def dropping_def)
next
  case WriterFlush
  with assms show ?thesis by (simp add: writer_flush_def quietly_def)
next
  case (WriterStop env)
  with assms show ?thesis
    using droppingD [OF assms(1)] dropping_announced [OF assms(1)]
    by (auto simp: writer_stop_def Let_def write_env_ok_def quietly_def intro!: droppingI)
qed

interpretation idle: restart_phase dropping "\<lambda>_. True"
proof
  fix s h tr
  assume s: "dropping s"
  note d = droppingD [OF s]
  show "es_ready s \<and> es_client_fd s = -1 \<and> has_sig EVENTLOG_SOCKET_SIG_RTS_READY (es_init_state s)"
    using d by simp
  show "wb_contents s = [] \<and> (\<not> has_sig EVENTLOG_SOCKET_SIG_ATTACHED (es_init_state s) \<or>
      has_sig EVENTLOG_SOCKET_SIG_HAD_FIRST_CONNECTION (es_init_state s))" using d by simp
  show "dropping (s\<lparr>es_hooks := h, es_trace := tr\<rparr>)"
    using d dropping_announced [OF s] by (intro droppingI) simp_all
qed (rule rts_idles)

section \<open>The end of a connection\<close>

text \<open>
  The RTS stops the writer, or \<open>poll\<close> reports to the worker that the client has hung up. Other
  threads may write to the client between the worker's snapshot and its step (\<open>ws_other\<close>).
\<close>

definition rest_of_connection :: "(es_state \<Rightarrow> es_state) \<Rightarrow> bool" where
  "rest_of_connection f \<longleftrightarrow>
     (\<forall>s. connected s \<and> announced (es_init_state s) \<longrightarrow>
        connected (f s) \<and> announced (es_init_state (f s)) \<and> es_client_fd (f s) = es_client_fd s)"

fun ends_connection :: "program_act \<Rightarrow> bool" where
  "ends_connection (ByRts (WriterStop env)) \<longleftrightarrow> True"
| "ends_connection (ByWorker env) \<longleftrightarrow>
     rest_of_connection (ws_other env) \<and>
     (case ne_poll (ws_nonwrite env) of
        PollReady r0 r1 \<Rightarrow> rv_POLLHUP r0 \<and> \<not> rv_POLLIN r1
      | _ \<Rightarrow> False) \<and>
     (case se_poll (ws_write env) of PollReady r _ \<Rightarrow> rv_POLLHUP r | _ \<Rightarrow> False)"
| "ends_connection a \<longleftrightarrow> False"

lemma hangup_ends:
  assumes "connected s" "announced (es_init_state s)"
    and "se_poll env = PollReady r r'" "rv_POLLHUP r" "se_lock env = 0" "se_unlock env = 0"
    and "ne_poll env' = PollReady r0 r1" "rv_POLLHUP r0" "\<not> rv_POLLIN r1" "ne_lock env' = 0" "ne_unlock env' = 0"
  shows "returns_with dropping (es_worker_step_write nd env (es_client_fd s) s)"
    and "returns_with dropping (es_worker_step_nonwrite env' fd s)"
proof -
  let ?s = "s\<lparr>es_mutex := True, es_client_fd := -1\<rparr>"
  note s = connectedD [OF assms(1)]
  have "wb_rep ?s (wb_contents s)" using s(2) by simp
  from free_rep [OF this] obtain t where t: "es_write_buffer_free ?s = Returns () t" "wb_rep t []"
    "same_es t ?s" by (auto simp: same_es_def)
  have "dropping (t\<lparr>es_mutex := False\<rparr>)"
    using same_esD [OF t(3)] t(2) assms(2) by (auto intro!: droppingI)
  with s assms t(1) show "returns_with dropping (es_worker_step_write nd env (es_client_fd s) s)"
    and "returns_with dropping (es_worker_step_nonwrite env' fd s)"
    by (simp_all add: es_worker_step_write_def es_worker_step_nonwrite_def Let_def)
qed

lemma stop_ends:
  assumes "connected s" "announced (es_init_state s)" "write_env_ok env"
  shows "returns_with (\<lambda>t. dropping t \<and> es_sent t = es_sent s) (writer_stop env s)"
proof -
  let ?s = "s\<lparr>es_mutex := True, es_init_state := es_init_state s AND NOT EVENTLOG_SOCKET_SIG_ATTACHED,
      es_closed := es_closed s @ [es_client_fd s], es_client_fd := -1\<rparr>"
  note s = connectedD [OF assms(1)]
  have "wb_rep ?s (wb_contents s)" using s(2) by simp
  from free_rep [OF this] obtain t where t: "es_write_buffer_free ?s = Returns () t" "wb_rep t []"
    "same_es t ?s" by (auto simp: same_es_def)
  have "dropping (t\<lparr>es_mutex := False\<rparr>)" "es_sent t = es_sent s"
    using same_esD [OF t(3)] t(2) assms(2) by (auto intro!: droppingI)
  with s assms(3) t(1) show ?thesis by (simp add: writer_stop_def Let_def write_env_ok_def)
qed

lemma worker_ends:
  assumes "connected s" "announced (es_init_state s)" "worker_env_ok nd env" "ends_connection (ByWorker env)"
  shows "returns_with dropping (es_worker_step nd env s)"
proof -
  note s = connectedD [OF assms(1)]
  have s': "s\<lparr>es_mutex := False\<rparr> = s" using s(1) by simp
  let ?t = "ws_other env s"
  have t: "connected ?t" "announced (es_init_state ?t)" "es_client_fd ?t = es_client_fd s"
    using assms(1,2,4) by (auto simp: rest_of_connection_def)
  obtain r r' r0 r1 where polls: "se_poll (ws_write env) = PollReady r r'" "rv_POLLHUP r"
    "ne_poll (ws_nonwrite env) = PollReady r0 r1" "rv_POLLHUP r0" "\<not> rv_POLLIN r1"
    using assms(4) by (auto split: poll_result.splits)
  have rc: "se_lock (ws_write env) = 0" "se_unlock (ws_write env) = 0"
    "ne_lock (ws_nonwrite env) = 0" "ne_unlock (ws_nonwrite env) = 0"
    using assms(3) by (simp_all add: worker_env_ok_def)
  note ends = hangup_ends [OF t(1,2) polls(1,2) rc(1,2) polls(3-5) rc(3,4)]
  show ?thesis
    using s assms(3) ends(1) [of nd] ends(2) [of "es_client_fd s"]
    by (simp add: es_worker_step_def worker_env_ok_def Let_def s' t(3))
qed

lemma connection_ends:
  assumes "program_step nd s a t" "connected (sy_es s)" "announced (es_init_state (sy_es s))"
    and "ends_connection a"
  shows "dropping (sy_es t)"
proof -
  have ok: "act_ok nd s a" "perform nd a s = Returns () t" using assms(1) by (auto simp: program_step_iff)
  have "returns_with (\<lambda>t. dropping (sy_es t)) (perform nd a s)"
  proof (cases a)
    case (ByRts op)
    with assms(4) obtain env where "op = WriterStop env" by (cases op) auto
    with ByRts ok(1) returns_with_weaken [OF stop_ends [OF assms(2,3)], of env dropping] show ?thesis
      by simp
  next
    case (ByWorker env)
    with ok(1) assms(2-4) show ?thesis by (simp add: worker_ends del: ends_connection.simps)
  qed (use assms(4) in simp_all)
  with ok(2) show ?thesis by simp
qed

section \<open>The next client\<close>

text \<open>C4: a later client gets a fresh log. Take any run of the whole program, with any interleaving
  of RTS threads, worker, control thread and users, in which the connection of a client ends (the
  step \<open>hang\<close>: \<open>poll\<close> reports a hangup to the worker or the RTS stops the writer), no client
  connects for a while, the worker accepts the next one and its connection does not break. What the
  kernel has accepted on the new client's descriptor from the end of the old connection on, followed
  by the bytes waiting, is what the RTS has written since the connection was published, in order,
  with the log as it starts it for this client: nothing that was waiting for the old client and
  nothing that was written in between. The new client may get the old one's descriptor number, as it
  usually does after \<open>writer_stop\<close>, which closes it: \<open>es_sent s1 fd\<close> is then what the old client
  has been sent. Between the worker's snapshot and the step in which it sees the hangup, other
  threads may write, but not end the connection.\<close>

theorem next_client_gets_fresh_log:
  assumes "connected (sy_es s)" "announced (es_init_state (sy_es s))" "ends_connection hang"
    and "program_step nd s hang s1" "program_run nd s1 (between @ [a] @ after) t"
    and "list_all stays_idle between" "next_connects a fd d" "list_all2 stays_connected after ds"
  shows "connected (sy_es t) \<and> es_client_fd (sy_es t) = fd
     \<and> es_sent (sy_es t) fd @ concat (wb_contents (sy_es t)) = es_sent (sy_es s1) fd @ d @ concat ds"
proof -
  from program_run_appendD [OF assms(5)] obtain s2 where s2:
    "program_run nd s1 between s2" "program_run nd s2 ([a] @ after) t" by blast
  from program_run_appendD [OF s2(2)] obtain s3 where s3:
    "program_run nd s2 [a] s3" "program_run nd s3 after t" by blast
  have "dropping (sy_es s1)" by (rule connection_ends [OF assms(4,1-3)])
  then have i: "idled (sy_es s1) (sy_es s2)"
    using idle.quiet_run [OF s2(1)] assms(6) by (simp add: stays_idle_def)
  then have c: "accepted_next fd d (sy_es s2) (sy_es s3)"
    using idle.program_step_reconnects [OF program_run_single [OF s3(1)]] assms(7)
    by (simp add: quietly_def next_connects_def)
  then have "served (concat ds) (sy_es s3) (sy_es t)"
    using program_run_serves [OF s3(2) _ assms(8)] by (simp add: accepted_next_def)
  with i c show ?thesis
    by (auto simp: quietly_def accepted_next_def served_def es_stream_def)
qed

definition demo_ending :: system where
  "demo_ending = initial_system\<lparr>sy_es := demo_connected\<lparr>es_init_state :=
     EVENTLOG_SOCKET_SIG_RTS_READY OR EVENTLOG_SOCKET_SIG_HAD_FIRST_CONNECTION,
     es_sent := (\<lambda>_. [])(7 := [6, 5])\<rparr>\<rparr>"

lemma demo_ending_ok:
  "connected (sy_es demo_ending)" "announced (es_init_state (sy_es demo_ending))"
  "es_client_fd (sy_es demo_ending) = 7" "es_sent (sy_es demo_ending) 7 = [6, 5]"
  "es_hooks (sy_es demo_ending) = initial_hooks"
  using demo_connected_ok
  by (simp_all add: demo_ending_def initial_system_def connected_def es_ready_def announced_def has_sig_bits
      bit_or_iff sig_bit_simps demo_connected_def)

definition demo_next_env :: worker_env where
  "demo_next_env = demo_first_env\<lparr>ws_listen := demo_listen_env\<lparr>le_accept := Accepted 7\<rparr>\<rparr>"

lemma demo_rts_step:
  assumes "es_ready (sy_es s)" "writer_op_ok op"
  obtains t where "program_step nd s (ByRts op) t" "es_hooks (sy_es t) = es_hooks (sy_es s)"
proof -
  have "writer_frame (es_hooks (sy_es s), es_trace (sy_es s),
      has_sig EVENTLOG_SOCKET_SIG_HAD_FIRST_CONNECTION (es_init_state (sy_es s))) (sy_es s)"
    using assms(1) by (simp add: writer_frame_def)
  from writer_step_frame [OF this assms(2), of nd] obtain es where
    "writer_step nd op (sy_es s) = Returns True es" "es_hooks es = es_hooks (sy_es s)"
    by (auto simp: writer_frame_def)
  then show thesis
    using assms(2) by (intro that [of "s\<lparr>sy_es := es\<rparr>"] program_step.intros) (simp_all add: on_es_def)
qed

lemma demo_next_ok: "worker_env_ok nd demo_next_env" "next_connects (ByWorker demo_next_env) 7 [1, 2]"
proof -
  show "worker_env_ok nd demo_next_env"
    by (simp add: worker_env_ok_def demo_next_env_def demo_first_env_def demo_drain_env_def
        demo_listen_env_def listen_env_ok_def)
  let ?env = "ws_listen demo_next_env"
  have "starts_log ?env [1, 2]"
    unfolding starts_log_def
    by (rule exI [of _ 1]) (simp add: demo_next_env_def demo_listen_env_def rts_logs_def ops_bytes_def)
  moreover have quiet: "le_other ?env i = (\<lambda>s. s)" "ws_other demo_next_env = (\<lambda>s. s)" for i
    by (simp_all add: demo_next_env_def demo_first_env_def demo_listen_env_def)
  moreover have "adds_bytes (\<lambda>s. s) []" "keeps_quiet dropping (\<lambda>s. s)"
    by (simp_all add: adds_bytes_def es_stream_def keeps_phase_def quietly_def)
  ultimately have "\<exists>d1 d2 d3. [1, 2] = d1 @ d2 @ d3 \<and> adds_bytes (le_other ?env 3) d1 \<and>
      starts_log ?env d2 \<and> adds_bytes (le_other ?env 4) d3"
    by (intro exI [of _ "[]"] exI [of _ "[1, 2]"]) simp
  moreover have "le_accept ?env = Accepted 7" by (simp add: demo_next_env_def)
  ultimately show "next_connects (ByWorker demo_next_env) 7 [1, 2]"
    using \<open>keeps_quiet dropping (\<lambda>s. s)\<close> by (simp add: next_connects_def Let_def quiet list.pred_True)
qed

lemma demo_next_step:
  assumes "dropping (sy_es s)" "\<not> hk_mutex (es_hooks (sy_es s))"
  obtains t where "program_step nd s (ByWorker demo_next_env) t"
  by (rule idle.accept_step [OF assms demo_next_ok(1), where k = 1 and fd = 7])
    (auto simp: demo_next_env_def demo_first_env_def demo_listen_env_def connect_env_ok_def)

theorem next_client_gets_fresh_log_witness:
  "\<exists>acts t. program_run True demo_ending acts t \<and> length acts = 4
     \<and> es_client_fd (sy_es demo_ending) = 7 \<and> es_client_fd (sy_es t) = 7
     \<and> es_sent (sy_es t) 7 @ concat (wb_contents (sy_es t)) = [6, 5] @ [1, 2, 4]"
proof -
  let ?stop = "ByRts (WriterStop (demo_write_env (IoBytes 0)))"
    and ?w = "\<lambda>d. ByRts (WriterWrite (demo_write_env (IoBytes 1)) d)" and ?a = "ByWorker demo_next_env"
  obtain s1 where s1: "program_step True demo_ending ?stop s1" "es_hooks (sy_es s1) = initial_hooks"
    by (rule demo_rts_step [OF connectedD(5) [OF demo_ending_ok(1)]]) (auto simp: demo_ending_ok(5))
  have d1: "dropping (sy_es s1)" using connection_ends [OF s1(1) demo_ending_ok(1,2)] by simp
  have sent: "es_sent (sy_es s1) 7 = [6, 5]"
    using s1(1) stop_ends [OF demo_ending_ok(1,2), of "demo_write_env (IoBytes 0)"] demo_ending_ok(4)
    by (cases "writer_stop (demo_write_env (IoBytes 0)) (sy_es demo_ending)")
      (auto simp: program_step_iff on_es_def)
  obtain s2 where s2: "program_step True s1 (?w [3]) s2" "es_hooks (sy_es s2) = initial_hooks"
    by (rule demo_rts_step [OF droppingD(5) [OF d1]]) (auto simp: s1(2))
  have idle: "stays_idle (?w [3])" by (simp add: stays_idle_def stays_quiet_def)
  then have d2: "dropping (sy_es s2)"
    using idle.quiet_run [of True s1 "[?w [3]]" s2] program_run.go [OF program_run.stop s2(1)] d1
    by (simp add: quietly_def stays_idle_def)
  obtain s3 where s3: "program_step True s2 ?a s3"
    by (rule demo_next_step [OF d2]) (auto simp: s2(2) initial_hooks_def)
  have "connected (sy_es s3)"
    using idle.program_step_reconnects [OF s3 d2 demo_next_ok(2) [unfolded next_connects_def]] by (simp add: accepted_next_def)
  then obtain t where t: "program_step True s3 (?w [4]) t"
    by (rule demo_rts_write [of s3 "IoBytes 1" True "[4]"]) auto
  have run: "program_run True s1 ([?w [3]] @ [?a] @ [?w [4]]) t"
    using program_run.go [OF program_run.go [OF program_run.go [OF program_run.stop s2(1)] s3] t] by simp
  have all: "program_run True demo_ending [?stop, ?w [3], ?a, ?w [4]] t"
    using program_run.go [OF program_run.go [OF program_run.go [OF program_run.go
      [OF program_run.stop s1(1)] s2(1)] s3] t] by simp
  have idle1: "list_all stays_idle [?w [3]]" using idle by simp
  from next_client_gets_fresh_log [OF demo_ending_ok(1,2) _ s1(1) run idle1 demo_next_ok(2), of "[[4]]"]
  have "es_client_fd (sy_es t) = 7"
    "es_sent (sy_es t) 7 @ concat (wb_contents (sy_es t)) = [6, 5] @ [1, 2, 4]"
    by (simp_all add: sent)
  with all show ?thesis by (intro exI [of _ "[?stop, ?w [3], ?a, ?w [4]]"] exI [of _ t]) (simp add: demo_ending_ok(3))
qed

section \<open>The first client of a program that has been started\<close>

text \<open>
  After \<open>eventlog_socket_start\<close> (and \<open>startFromEnv\<close>) the RTS is ready and the writer is not attached:
  the RTS does not call it until the first client connects.
\<close>

definition detached :: "es_state \<Rightarrow> bool" where
  "detached s \<longleftrightarrow>
     unconnected False s \<and> es_client_fd s = -1 \<and> wb_contents s = [] \<and>
     has_sig EVENTLOG_SOCKET_SIG_RTS_READY (es_init_state s) \<and>
     \<not> has_sig EVENTLOG_SOCKET_SIG_ATTACHED (es_init_state s)"

definition stays_detached :: "program_act \<Rightarrow> bool" where
  "stays_detached = stays_quiet detached (\<lambda>_. False)"

definition start_connects :: "program_act \<Rightarrow> int \<Rightarrow> byte list \<Rightarrow> bool" where
  "start_connects = restart_connects detached (\<lambda>_. False)"

interpretation started: restart_phase detached "\<lambda>_. False"
proof
  fix s h tr
  assume s: "detached s"
  then show "es_ready s \<and> es_client_fd s = -1 \<and> has_sig EVENTLOG_SOCKET_SIG_RTS_READY (es_init_state s)"
    "wb_contents s = [] \<and> (\<not> has_sig EVENTLOG_SOCKET_SIG_ATTACHED (es_init_state s) \<or>
      has_sig EVENTLOG_SOCKET_SIG_HAD_FIRST_CONNECTION (es_init_state s))"
    by (simp_all add: detached_def unconnected_def)
  let ?t = "s\<lparr>es_hooks := h, es_trace := tr\<rparr>"
  have "wb_rep ?t []" "\<not> es_mutex ?t" using s by (auto simp: detached_def unconnected_def es_ready_def)
  from es_ready_rep [OF this(2,1)] s show "detached ?t" by (simp add: detached_def unconnected_def)
qed simp

text \<open>C5: the first client of a program that has been started by \<open>eventlog_socket_start\<close>. Take any run of
  the whole program, with any interleaving of all threads, in which first no client connects, then
  the worker accepts one (event logging, if it runs with another writer, is stopped, and then
  started with this one) and its connection does not break. The bytes that the kernel has accepted
  for the client, followed by those waiting, are what the RTS has written since the connection was
  published, in order, from the start of the log.\<close>

theorem started_program_serves_first_client:
  assumes "program_run nd s (before @ [a] @ after) t" "detached (sy_es s)"
    and "list_all stays_detached before" "start_connects a fd d" "list_all2 stays_connected after ds"
  shows "connected (sy_es t) \<and> es_client_fd (sy_es t) = fd
     \<and> es_sent (sy_es t) fd @ concat (wb_contents (sy_es t)) = es_sent (sy_es s) fd @ d @ concat ds"
proof -
  from program_run_appendD [OF assms(1)] obtain s1 where s1:
    "program_run nd s before s1" "program_run nd s1 ([a] @ after) t" by blast
  from program_run_appendD [OF s1(2)] obtain s2 where s2:
    "program_run nd s1 [a] s2" "program_run nd s2 after t" by blast
  have i: "quietly detached [] (sy_es s) (sy_es s1)"
    using started.quiet_run [OF s1(1) assms(2)] assms(3) by (simp add: stays_detached_def)
  then have c: "accepted_next fd d (sy_es s1) (sy_es s2)"
    using started.program_step_reconnects [OF program_run_single [OF s2(1)]] assms(4)
    by (simp add: quietly_def start_connects_def)
  then have "served (concat ds) (sy_es s2) (sy_es t)"
    using program_run_serves [OF s2(2) _ assms(5)] by (simp add: accepted_next_def)
  with i c show ?thesis
    by (auto simp: quietly_def accepted_next_def served_def es_stream_def)
qed

definition demo_started :: system where
  "demo_started = initial_system\<lparr>sy_es := initial_es\<lparr>es_init_state := EVENTLOG_SOCKET_SIG_RTS_READY\<rparr>\<rparr>"

definition demo_start_env :: worker_env where
  "demo_start_env = demo_first_env\<lparr>ws_listen :=
     demo_listen_env\<lparr>le_end := [], le_status := EVENTLOG_NOT_CONFIGURED\<rparr>\<rparr>"

lemma demo_started_ok:
  "detached (sy_es demo_started)" "es_sent (sy_es demo_started) fd = []"
  "\<not> hk_mutex (es_hooks (sy_es demo_started))"
  by (simp_all add: demo_started_def initial_system_def detached_def unconnected_def es_ready_def
      has_sig_bits sig_bit_simps initial_hooks_def)

lemma demo_start_ok: "worker_env_ok nd demo_start_env" "start_connects (ByWorker demo_start_env) 7 [1, 2]"
proof -
  show "worker_env_ok nd demo_start_env"
    by (simp add: worker_env_ok_def demo_start_env_def demo_first_env_def demo_drain_env_def
        demo_listen_env_def listen_env_ok_def)
  let ?env = "ws_listen demo_start_env"
  have "starts_log ?env [1, 2]"
    unfolding starts_log_def
    by (rule exI [of _ 1]) (simp add: demo_start_env_def demo_listen_env_def rts_logs_def ops_bytes_def)
  moreover have quiet: "le_other ?env i = (\<lambda>s. s)" "ws_other demo_start_env = (\<lambda>s. s)" for i
    by (simp_all add: demo_start_env_def demo_first_env_def demo_listen_env_def)
  moreover have "adds_bytes (\<lambda>s. s) []" "keeps_quiet detached (\<lambda>s. s)"
    by (simp_all add: adds_bytes_def es_stream_def keeps_phase_def quietly_def)
  ultimately have "\<exists>d1 d2 d3. [1, 2] = d1 @ d2 @ d3 \<and> adds_bytes (le_other ?env 3) d1 \<and>
      starts_log ?env d2 \<and> adds_bytes (le_other ?env 4) d3"
    by (intro exI [of _ "[]"] exI [of _ "[1, 2]"]) simp
  moreover have "le_accept ?env = Accepted 7" "le_end ?env = []"
    by (simp_all add: demo_start_env_def demo_listen_env_def)
  ultimately show "start_connects (ByWorker demo_start_env) 7 [1, 2]"
    using \<open>keeps_quiet detached (\<lambda>s. s)\<close> by (simp add: start_connects_def Let_def quiet)
qed

theorem started_program_serves_first_client_witness:
  "\<exists>acts t. program_run True demo_started acts t \<and> length acts = 2
     \<and> es_sent (sy_es t) 7 @ concat (wb_contents (sy_es t)) = [1, 2, 3]"
proof -
  let ?a = "ByWorker demo_start_env" and ?w = "ByRts (WriterWrite (demo_write_env (IoBytes 1)) [3])"
  obtain s1 where s1: "program_step True demo_started ?a s1"
    by (rule started.accept_step [OF demo_started_ok(1,3) demo_start_ok(1), where k = 1 and fd = 7])
      (auto simp: demo_start_env_def demo_first_env_def demo_listen_env_def connect_env_ok_def)
  have "connected (sy_es s1)"
    using started.program_step_reconnects [OF s1 demo_started_ok(1) demo_start_ok(2) [unfolded start_connects_def]]
    by (simp add: accepted_next_def)
  then obtain t where t: "program_step True s1 ?w t"
    by (rule demo_rts_write [of s1 "IoBytes 1" True "[3]"]) auto
  have run: "program_run True demo_started ([] @ [?a] @ [?w]) t"
    using program_run.go [OF program_run.go [OF program_run.stop s1] t] by simp
  from started_program_serves_first_client [OF run demo_started_ok(1), of 7 "[1, 2]" "[[3]]"] demo_start_ok(2)
  have "es_sent (sy_es t) 7 @ concat (wb_contents (sy_es t)) = [1, 2, 3]"
    by (simp add: demo_started_ok(2))
  with run show ?thesis by (intro exI [of _ "[] @ [?a] @ [?w]"] exI [of _ t]) simp
qed

end
