(* ===== verification/ES_Interface.thy ===== *)
theory ES_Interface
  imports ES_System
begin

text \<open>
  The rest of the public interface: the functions of \<open>eventlog_socket.c\<close> that depend on the
  build option \<open>EVENTLOG_SOCKET_FEATURE_CONTROL\<close> (\<open>feature_control\<close>), and the wrappers of \<open>hsapi.c\<close> for
  the Haskell package.
\<close>

section \<open>Functions that depend on the control feature\<close>

definition eventlog_socket_control_strnamespace ::
  "bool \<Rightarrow> namespace_ptr option \<Rightarrow> control \<Rightarrow> (byte list option, control) outcome" where
  "eventlog_socket_control_strnamespace feature_control namespace s =
     (if feature_control then es_control_strnamespace namespace s else Returns None s)"

definition eventlog_socket_control_register_namespace ::
  "bool \<Rightarrow> control_env \<Rightarrow> byte \<Rightarrow> byte list \<Rightarrow> bool \<Rightarrow> control \<Rightarrow>
   (EventlogSocketStatus \<times> namespace_ptr option, control) outcome" where
  "eventlog_socket_control_register_namespace feature_control env namespace_len namespace out_nonnull s =
     (if feature_control then es_control_register_namespace env namespace_len namespace out_nonnull s
      else Returns (STATUS_FROM_CODE EVENTLOG_SOCKET_ERR_CTL_NOSUPPORT, None) s)"

definition eventlog_socket_control_register_command ::
  "bool \<Rightarrow> control_env \<Rightarrow> namespace_ptr option \<Rightarrow> EventlogSocketControlCommandId \<Rightarrow>
   EventlogSocketControlCommandHandler option \<Rightarrow> user_data \<Rightarrow> control \<Rightarrow>
   (EventlogSocketStatus, control) outcome" where
  "eventlog_socket_control_register_command feature_control env namespace command_id handler data s =
     (if feature_control then es_control_register_command env namespace command_id handler data s
      else Returns (STATUS_FROM_CODE EVENTLOG_SOCKET_ERR_CTL_NOSUPPORT) s)"

definition eventlog_socket_worker_status :: "es_state \<Rightarrow> EventlogSocketStatus" where
  "eventlog_socket_worker_status s = es_worker_status_read s"

definition eventlog_socket_control_status :: "bool \<Rightarrow> control \<Rightarrow> EventlogSocketStatus" where
  "eventlog_socket_control_status feature_control s =
     (if feature_control then es_control_status s else STATUS_FROM_CODE EVENTLOG_SOCKET_OK)"

definition eventlog_socket_register_hook ::
  "bool \<Rightarrow> hook_env \<Rightarrow> int \<Rightarrow> nat option \<Rightarrow> user_data \<Rightarrow> hooks \<Rightarrow> (EventlogSocketStatus, hooks) outcome"
where
  "eventlog_socket_register_hook nd env hook handler data s =
     es_hooks_register_hook nd env hook handler data s"

section \<open>The wrappers for the Haskell package\<close>

text \<open>
  Each wrapper calls the function and copies the status to an object of the caller; the model
  returns what the object then holds.
\<close>

definition es_hsapi_start ::
  "bool \<Rightarrow> bool \<Rightarrow> entry_env \<Rightarrow> (nat \<Rightarrow> byte list option) \<Rightarrow> EventlogSocketAddr \<Rightarrow>
   EventlogSocketOpts option \<Rightarrow> es_state \<Rightarrow> (EventlogSocketStatus, es_state) outcome" where
  "es_hsapi_start nd feature_control env mem addr opts s =
     call_bind (eventlog_socket_start nd feature_control env mem addr opts s) (\<lambda>status. Returns status)"

definition es_hsapi_from_env ::
  "config_env \<Rightarrow> bool \<Rightarrow> bool \<Rightarrow> config \<Rightarrow> (EventlogSocketStatus, config) outcome" where
  "es_hsapi_from_env env addr_nonnull opts_nonnull s =
     call_bind (eventlog_socket_from_env env addr_nonnull opts_nonnull s) (\<lambda>status. Returns status)"

definition es_hsapi_strerror :: "strerror_env \<Rightarrow> EventlogSocketStatus \<Rightarrow> char_ptr option" where
  "es_hsapi_strerror env status = eventlog_socket_strerror env status"

definition es_hsapi_register_hook ::
  "bool \<Rightarrow> hook_env \<Rightarrow> int \<Rightarrow> nat option \<Rightarrow> user_data \<Rightarrow> hooks \<Rightarrow> (EventlogSocketStatus, hooks) outcome"
where
  "es_hsapi_register_hook nd env hook handler data s =
     call_bind (eventlog_socket_register_hook nd env hook handler data s)
       (\<lambda>status. Returns status)"

definition es_hsapi_worker_status :: "es_state \<Rightarrow> EventlogSocketStatus" where
  "es_hsapi_worker_status s = eventlog_socket_worker_status s"

definition es_hsapi_control_status :: "bool \<Rightarrow> control \<Rightarrow> EventlogSocketStatus" where
  "es_hsapi_control_status feature_control s = eventlog_socket_control_status feature_control s"

definition es_hsapi_control_register_namespace ::
  "bool \<Rightarrow> control_env \<Rightarrow> byte \<Rightarrow> byte list \<Rightarrow> bool \<Rightarrow> control \<Rightarrow>
   (EventlogSocketStatus \<times> namespace_ptr option, control) outcome" where
  "es_hsapi_control_register_namespace feature_control env namespace_len namespace out_nonnull s =
     call_bind
       (eventlog_socket_control_register_namespace feature_control env namespace_len namespace out_nonnull s)
       (\<lambda>status_and_out. Returns status_and_out)"

definition es_hsapi_control_register_command ::
  "bool \<Rightarrow> control_env \<Rightarrow> namespace_ptr option \<Rightarrow> EventlogSocketControlCommandId \<Rightarrow>
   EventlogSocketControlCommandHandler option \<Rightarrow> user_data \<Rightarrow> control \<Rightarrow>
   (EventlogSocketStatus, control) outcome" where
  "es_hsapi_control_register_command feature_control env namespace command_id handler data s =
     call_bind (eventlog_socket_control_register_command feature_control env namespace command_id handler data s)
       (\<lambda>status. Returns status)"

end
