(* ===== verification/ES_Haskell.thy ===== *)
theory ES_Haskell
  imports ES_Interface
begin

text \<open>
  The Haskell module \<open>GHC.Eventlog.Socket\<close> of the package \<open>eventlog-socket\<close>, a client of the C
  library: how it marshals addresses, options and statuses, which exceptions it throws for which
  status, and that it frees what it owns.

  A \<open>String\<close> is the list of its bytes in the encoding of the locale (\<open>withCString\<close> and
  \<open>peekCString\<close> convert). A function returns a value or throws (\<open>Inr\<close>, \<open>Inl\<close>).
\<close>

type_synonym hs_string = "byte list"

datatype hs_exception =
    EventlogSocketAddrUnixPathTooLong hs_string
  | EventlogSocketAddrInetHostMissing hs_string
  | EventlogSocketAddrInetPortMissing hs_string
  | EventlogSocketControlNamespaceTooLong hs_string nat nat
  | EventlogSocketControlNamespaceExists hs_string
  | EventlogSocketControlCommandExists hs_string EventlogSocketControlCommandId
  | EventlogSocketControlUnsupported
  | UserError hs_string
  | PatternMatchFail
  | NoSuchField

section \<open>Marshalling\<close>

datatype hs_addr =
    EventlogSocketUnixAddr hs_string
  | EventlogSocketInetAddr hs_string hs_string

record hs_opts =
  esoWait :: bool
  esoSndbuf :: "int option"
  esoLinger :: "int option"

text \<open>\<open>peekNullableCString\<close> on a string in the heap; a dangling pointer is undefined behaviour.\<close>

definition peekNullableCString :: "nat option \<Rightarrow> config \<Rightarrow> (hs_string, config) outcome" where
  "peekNullableCString p s =
     (case p of
        None \<Rightarrow> Returns [] s
      | Some a \<Rightarrow> (case cfg_heap s a of None \<Rightarrow> Crashes | Some str \<Rightarrow> Returns (c_text str) s))"

definition peekEventlogSocketAddr :: "config \<Rightarrow> (hs_exception + hs_addr, config) outcome" where
  "peekEventlogSocketAddr s =
     (case cfg_addr s of
        EVENTLOG_SOCKET_UNIX path \<Rightarrow>
          call_bind (peekNullableCString path s) (\<lambda>esaUnixPath.
            Returns (Inr (EventlogSocketUnixAddr esaUnixPath)))
      | EVENTLOG_SOCKET_INET host port \<Rightarrow>
          call_bind (peekNullableCString host s) (\<lambda>esaInetHost s.
            call_bind (peekNullableCString port s) (\<lambda>esaInetPort.
              Returns (Inr (EventlogSocketInetAddr esaInetHost esaInetPort))))
      | EVENTLOG_SOCKET_OTHER tag \<Rightarrow> Returns (Inl PatternMatchFail) s)"

text \<open>The address and the memory that hold an address while the C function runs.\<close>

fun withEventlogSocketAddr :: "hs_addr \<Rightarrow> EventlogSocketAddr \<times> (nat \<Rightarrow> byte list option)" where
  "withEventlogSocketAddr (EventlogSocketUnixAddr path) =
     (EVENTLOG_SOCKET_UNIX (Some 0), [0 \<mapsto> path @ [0]])"
| "withEventlogSocketAddr (EventlogSocketInetAddr host port) =
     (EVENTLOG_SOCKET_INET (Some 0) (Some 1), [0 \<mapsto> host @ [0], 1 \<mapsto> port @ [0]])"

definition peekEventlogSocketOpts :: "EventlogSocketOpts \<Rightarrow> hs_opts" where
  "peekEventlogSocketOpts o' =
     \<lparr>esoWait = eso_wait o',
      esoSndbuf = (if eso_sndbuf o' \<le> 0 then None else Some (eso_sndbuf o')),
      esoLinger = (if eso_linger o' \<le> 0 then None else Some (eso_linger o'))\<rparr>"

definition withEventlogSocketOpts :: "hs_opts \<Rightarrow> EventlogSocketOpts" where
  "withEventlogSocketOpts eso =
     \<lparr>eso_wait = esoWait eso,
      eso_sndbuf = (case esoSndbuf eso of None \<Rightarrow> 0 | Some n \<Rightarrow> n),
      eso_linger = (case esoLinger eso of None \<Rightarrow> 0 | Some n \<Rightarrow> n)\<rparr>"

definition defaultEventlogSocketOpts :: "EventlogSocketOpts \<Rightarrow> hs_opts" where
  "defaultEventlogSocketOpts uninitialised =
     peekEventlogSocketOpts (the (eventlog_socket_opts_init (Some uninitialised)))"

definition peekEventlogSocketStatus :: "EventlogSocketStatus \<Rightarrow> EventlogSocketStatus" where
  "peekEventlogSocketStatus ess =
     \<lparr>ess_status_code = ess_status_code ess,
      ess_error_code =
        (if ess_status_code ess \<in> {EVENTLOG_SOCKET_ERR_GAI, EVENTLOG_SOCKET_ERR_SYS}
         then ess_error_code ess else 0)\<rparr>"

section \<open>Exceptions\<close>

text \<open>\<open>throwEventlogSocketStatus\<close>; it does not return if \<open>eventlog_socket_strerror\<close> does not.\<close>

definition throwEventlogSocketStatus ::
  "strerror_env \<Rightarrow> EventlogSocketStatus \<Rightarrow> 's \<Rightarrow> (hs_exception + 'a, 's) outcome" where
  "throwEventlogSocketStatus senv status s =
     (case es_hsapi_strerror senv status of
        None \<Rightarrow> Hangs
      | Some (Null errno) \<Rightarrow> Returns (Inl (UserError [])) s
      | Some (Ptr str) \<Rightarrow> Returns (Inl (UserError (c_text str))) s)"

definition throwEventlogSocketStatusAsIOException ::
  "strerror_env \<Rightarrow> EventlogSocketStatus \<Rightarrow> 's \<Rightarrow> (hs_exception + unit, 's) outcome" where
  "throwEventlogSocketStatusAsIOException senv status s =
     (if ess_status_code status \<noteq> EVENTLOG_SOCKET_OK then throwEventlogSocketStatus senv status s
      else Returns (Inr ()) s)"

definition testWorkerStatus :: "strerror_env \<Rightarrow> es_state \<Rightarrow> (hs_exception + unit, es_state) outcome" where
  "testWorkerStatus senv s =
     throwEventlogSocketStatusAsIOException senv (peekEventlogSocketStatus (es_hsapi_worker_status s)) s"

definition testControlStatus ::
  "strerror_env \<Rightarrow> bool \<Rightarrow> control \<Rightarrow> (hs_exception + unit, control) outcome" where
  "testControlStatus senv feature_control s =
     throwEventlogSocketStatusAsIOException senv
       (peekEventlogSocketStatus (es_hsapi_control_status feature_control s)) s"

section \<open>Starting\<close>

definition startWith ::
  "bool \<Rightarrow> bool \<Rightarrow> entry_env \<Rightarrow> strerror_env \<Rightarrow> hs_addr \<Rightarrow> hs_opts \<Rightarrow> es_state \<Rightarrow>
   (hs_exception + unit, es_state) outcome" where
  "startWith nd feature_control env senv esa eso s =
     (case withEventlogSocketAddr esa of (addr, mem) \<Rightarrow>
        call_bind (es_hsapi_start nd feature_control env mem addr (Some (withEventlogSocketOpts eso)) s)
          (\<lambda>status s.
            if ess_status_code status \<noteq> EVENTLOG_SOCKET_OK then throwEventlogSocketStatus senv status s
            else Returns (Inr ()) s))"

definition startWait ::
  "bool \<Rightarrow> bool \<Rightarrow> entry_env \<Rightarrow> strerror_env \<Rightarrow> EventlogSocketOpts \<Rightarrow> hs_string \<Rightarrow> es_state \<Rightarrow>
   (hs_exception + unit, es_state) outcome" where
  "startWait nd feature_control env senv uninitialised unixPath s =
     (let addr = EventlogSocketUnixAddr unixPath;
          opts = (defaultEventlogSocketOpts uninitialised)\<lparr>esoWait := True\<rparr>
      in startWith nd feature_control env senv addr opts s)"

definition start_without_wait ::
  "bool \<Rightarrow> bool \<Rightarrow> entry_env \<Rightarrow> strerror_env \<Rightarrow> EventlogSocketOpts \<Rightarrow> hs_string \<Rightarrow> es_state \<Rightarrow>
   (hs_exception + unit, es_state) outcome" where
  "start_without_wait nd feature_control env senv uninitialised unixPath s =
     (let addr = EventlogSocketUnixAddr unixPath;
          opts = (defaultEventlogSocketOpts uninitialised)\<lparr>esoWait := False\<rparr>
      in startWith nd feature_control env senv addr opts s)"

text \<open>
  \<open>fromEnv\<close> is \<open>bracket tryGet maybeFree maybePeek\<close>: it reads the configuration, makes a Haskell
  value of it (or throws), and frees it in either case.
\<close>

definition shouldFree :: "EventlogSocketStatus \<Rightarrow> bool" where
  "shouldFree status \<longleftrightarrow>
     ess_status_code status \<in>
       {EVENTLOG_SOCKET_OK, EVENTLOG_SOCKET_ERR_ENV_TOOLONG, EVENTLOG_SOCKET_ERR_ENV_NOHOST,
        EVENTLOG_SOCKET_ERR_ENV_NOPORT}"

definition maybeFree :: "EventlogSocketStatus \<Rightarrow> config \<Rightarrow> (unit, config) outcome" where
  "maybeFree status s =
     (if shouldFree status then
        call_bind (eventlog_socket_addr_free (Some (cfg_addr s)) s) (\<lambda>_ s.
          eventlog_socket_opts_free (Some (cfg_opts s)) s)
      else Returns () s)"

definition maybePeek ::
  "strerror_env \<Rightarrow> EventlogSocketStatus \<Rightarrow> config \<Rightarrow>
   (hs_exception + (hs_addr \<times> hs_opts) option, config) outcome" where
  "maybePeek senv status s =
     (let code = ess_status_code status;
          peek_then = (\<lambda>k. call_bind (peekEventlogSocketAddr s) (\<lambda>r s.
            case r of Inl e \<Rightarrow> Returns (Inl e) s | Inr esa \<Rightarrow> Returns (k esa) s))
      in if code = EVENTLOG_SOCKET_OK then
           peek_then (\<lambda>esa. Inr (Some (esa, peekEventlogSocketOpts (cfg_opts s))))
         else if code = EVENTLOG_SOCKET_ERR_ENV_NOADDR then Returns (Inr None) s
         else if code = EVENTLOG_SOCKET_ERR_ENV_TOOLONG then
           peek_then (\<lambda>esa. Inl (case esa of
             EventlogSocketUnixAddr path \<Rightarrow> EventlogSocketAddrUnixPathTooLong path
           | EventlogSocketInetAddr host port \<Rightarrow> NoSuchField))
         else if code = EVENTLOG_SOCKET_ERR_ENV_NOHOST then
           peek_then (\<lambda>esa. Inl (case esa of
             EventlogSocketInetAddr host port \<Rightarrow> EventlogSocketAddrInetHostMissing port
           | EventlogSocketUnixAddr path \<Rightarrow> NoSuchField))
         else if code = EVENTLOG_SOCKET_ERR_ENV_NOPORT then
           peek_then (\<lambda>esa. Inl (case esa of
             EventlogSocketInetAddr host port \<Rightarrow> EventlogSocketAddrInetHostMissing host
           | EventlogSocketUnixAddr path \<Rightarrow> NoSuchField))
         else throwEventlogSocketStatus senv status s)"

definition fromEnv ::
  "config_env \<Rightarrow> strerror_env \<Rightarrow> config \<Rightarrow>
   (hs_exception + (hs_addr \<times> hs_opts) option, config) outcome" where
  "fromEnv env senv s =
     call_bind (es_hsapi_from_env env True True s) (\<lambda>ess s.
       (let status = peekEventlogSocketStatus ess
        in call_bind (maybePeek senv status s) (\<lambda>r s.
             call_bind (maybeFree status s) (\<lambda>_. Returns r))))"

section \<open>Reading the configuration\<close>

lemma c_text_copy: "c_text (c_text str @ [0]) = c_text str"
proof -
  have "strlen (take (strlen str) str @ [0]) = strlen str" by (induction str) auto
  then show ?thesis by (simp add: c_text_def strlen_le_length)
qed

lemma peek_points_to: "points_to s p str \<Longrightarrow> peekNullableCString p s = Returns (c_text str) s"
  by (auto simp: points_to_def peekNullableCString_def c_text_copy)

lemma c_text_empty [simp]: "c_text [0] = []"
  by (simp add: c_text_def)

text \<open>What \<open>fromEnv\<close> returns or throws, by the variables that are set.\<close>

fun from_env_result ::
  "byte list option \<Rightarrow> byte list option \<Rightarrow> byte list option \<Rightarrow> bool \<Rightarrow>
   hs_exception + (hs_addr \<times> hs_opts) option" where
  "from_env_result (Some path) host port wait =
     Inr (Some (EventlogSocketUnixAddr (c_text path), \<lparr>esoWait = wait, esoSndbuf = None, esoLinger = None\<rparr>))"
| "from_env_result None (Some host) (Some port) wait =
     Inr (Some (EventlogSocketInetAddr (c_text host) (c_text port),
       \<lparr>esoWait = wait, esoSndbuf = None, esoLinger = None\<rparr>))"
| "from_env_result None None (Some port) wait = Inl (EventlogSocketAddrInetHostMissing (c_text port))"
| "from_env_result None (Some host) None wait = Inl (EventlogSocketAddrInetHostMissing (c_text host))"
| "from_env_result None None None wait = Inr None"

lemma maybePeek_result:
  assumes "if from_env_code path host port = EVENTLOG_SOCKET_ERR_ENV_NOADDR then True
     else addr_is s path host port (cfg_addr s)"
    and "cfg_opts s = \<lparr>eso_wait = wait, eso_sndbuf = 0, eso_linger = 0\<rparr>"
  shows "maybePeek senv (STATUS_FROM_CODE (from_env_code path host port)) s =
     Returns (from_env_result path host port wait) s"
  using assms
  by (cases path; cases host; cases port; cases "cfg_addr s")
    (auto simp: maybePeek_def peekEventlogSocketAddr_def peek_points_to peekEventlogSocketOpts_def
      STATUS_FROM_CODE_def Let_def)

lemma fromEnv_result:
  assumes "from_env_errno env (ce_getenv env EVENTLOG_SOCKET_ENV_UNIX_PATH)
      (ce_getenv env EVENTLOG_SOCKET_ENV_INET_HOST) (ce_getenv env EVENTLOG_SOCKET_ENV_INET_PORT) = None"
    "config_env_fresh env s"
  shows "\<exists>s'. fromEnv env senv s = Returns
       (from_env_result (ce_getenv env EVENTLOG_SOCKET_ENV_UNIX_PATH)
          (ce_getenv env EVENTLOG_SOCKET_ENV_INET_HOST) (ce_getenv env EVENTLOG_SOCKET_ENV_INET_PORT)
          (ce_getenv env EVENTLOG_SOCKET_ENV_WAIT \<noteq> None)) s'
     \<and> cfg_heap s' = cfg_heap s"
proof -
  define path where "path = ce_getenv env EVENTLOG_SOCKET_ENV_UNIX_PATH"
  define host where "host = ce_getenv env EVENTLOG_SOCKET_ENV_INET_HOST"
  define port where "port = ce_getenv env EVENTLOG_SOCKET_ENV_INET_PORT"
  let ?wait = "ce_getenv env EVENTLOG_SOCKET_ENV_WAIT \<noteq> None"
  let ?code = "from_env_code path host port"
  have "from_env_errno env path host port = None" using assms(1) by (simp add: path_def host_def port_def)
  from from_env_vars [OF this assms(2) path_def host_def port_def, of True] obtain t where t:
    "eventlog_socket_from_env env True True s = Returns (STATUS_FROM_CODE ?code) t"
    "if ?code = EVENTLOG_SOCKET_ERR_ENV_NOADDR then cfg_addr t = cfg_addr s \<and> cfg_heap t = cfg_heap s
     else addr_is t path host port (cfg_addr t)"
    "cfg_opts t = \<lparr>eso_wait = ?wait, eso_sndbuf = 0, eso_linger = 0\<rparr>" by auto
  have codes: "?code \<in> {EVENTLOG_SOCKET_OK, EVENTLOG_SOCKET_ERR_ENV_NOADDR,
      EVENTLOG_SOCKET_ERR_ENV_NOHOST, EVENTLOG_SOCKET_ERR_ENV_NOPORT}"
    by (cases path; cases host; cases port) auto
  have status: "peekEventlogSocketStatus (STATUS_FROM_CODE ?code) = STATUS_FROM_CODE ?code"
    by (simp add: peekEventlogSocketStatus_def STATUS_FROM_CODE_def)
  have peek: "maybePeek senv (STATUS_FROM_CODE ?code) t = Returns (from_env_result path host port ?wait) t"
    using t(2,3) by (intro maybePeek_result) (auto split: if_splits)
  have "\<exists>s'. maybeFree (STATUS_FROM_CODE ?code) t = Returns () s' \<and> cfg_heap s' = cfg_heap s"
  proof (cases "?code = EVENTLOG_SOCKET_ERR_ENV_NOADDR")
    case True
    with t(2) show ?thesis by (simp add: maybeFree_def shouldFree_def STATUS_FROM_CODE_def)
  next
    case False
    with codes from_env_balance [OF assms(2), of True] t(1) obtain u where
      "eventlog_socket_addr_free (Some (cfg_addr t)) t = Returns () u" "cfg_heap u = cfg_heap s"
      by (auto simp: STATUS_FROM_CODE_def split: outcome.splits)
    with False codes show ?thesis
      by (auto simp: maybeFree_def shouldFree_def STATUS_FROM_CODE_def eventlog_socket_opts_free_def)
  qed
  then show ?thesis
    using t(1) peek status
    by (auto simp: fromEnv_def es_hsapi_from_env_def Let_def simp flip: path_def host_def port_def)
qed

text \<open>When an allocation fails, nothing is left in the heap and the error is thrown.\<close>

lemma fromEnv_no_memory:
  assumes "config_env_fresh env s"
    and "from_env_errno env (ce_getenv env EVENTLOG_SOCKET_ENV_UNIX_PATH)
      (ce_getenv env EVENTLOG_SOCKET_ENV_INET_HOST) (ce_getenv env EVENTLOG_SOCKET_ENV_INET_PORT) = Some errno"
  shows "fromEnv env senv s = throwEventlogSocketStatus senv (STATUS_FROM_ERRNO errno) s"
proof -
  have status: "peekEventlogSocketStatus (STATUS_FROM_ERRNO errno) = STATUS_FROM_ERRNO errno"
    "ess_status_code (STATUS_FROM_ERRNO errno) = EVENTLOG_SOCKET_ERR_SYS"
    by (simp_all add: peekEventlogSocketStatus_def STATUS_FROM_ERRNO_def)
  show ?thesis
    using from_env_no_memory [OF assms(1) refl refl refl assms(2), of True] status
    by (auto simp: fromEnv_def es_hsapi_from_env_def maybePeek_def maybeFree_def shouldFree_def
        throwEventlogSocketStatus_def Let_def split: option.splits char_ptr.splits)
qed

text \<open>C27: \<open>fromEnv\<close> of the Haskell package, by the variables that are set. If an allocation of the C
  library fails, it throws the system error and has changed nothing. Otherwise it returns the address
  (a path or a host with a port) with the default options and \<open>esoWait\<close> from the environment,
  returns nothing when no variable is set, and throws when a host or a port is missing; in all these
  cases all memory of the C library has been freed when it returns or throws. This is the code's
  behaviour and deviates from the documentation of the exceptions (\<open>Socket.hsc:290-295\<close>) in two
  cases: a missing port throws \<open>EventlogSocketAddrInetHostMissing\<close> with the host in place of the port,
  and \<open>EventlogSocketAddrInetPortMissing\<close> is never thrown; and a path that is too long is returned,
  so that \<open>EventlogSocketAddrUnixPathTooLong\<close> is never thrown.\<close>

theorem haskell_from_env_by_variables:
  assumes "config_env_fresh env s"
    and path: "path = ce_getenv env EVENTLOG_SOCKET_ENV_UNIX_PATH"
    and host: "host = ce_getenv env EVENTLOG_SOCKET_ENV_INET_HOST"
    and port: "port = ce_getenv env EVENTLOG_SOCKET_ENV_INET_PORT"
  shows "case from_env_errno env path host port of
       Some errno \<Rightarrow> fromEnv env senv s = throwEventlogSocketStatus senv (STATUS_FROM_ERRNO errno) s
     | None \<Rightarrow> \<exists>s'. fromEnv env senv s =
           Returns (from_env_result path host port (ce_getenv env EVENTLOG_SOCKET_ENV_WAIT \<noteq> None)) s'
         \<and> cfg_heap s' = cfg_heap s"
  using fromEnv_no_memory [OF assms(1), of _ senv] fromEnv_result [OF _ assms(1), of senv]
  by (cases "from_env_errno env path host port") (simp_all add: path host port)

theorem haskell_from_env_by_variables_witness:
  "\<exists>s'. fromEnv (demo_config_env [EVENTLOG_SOCKET_ENV_INET_HOST \<mapsto> c_string ''a''])
       demo_strerror_env demo_config =
       Returns (Inl (EventlogSocketAddrInetHostMissing [0x61])) s'
     \<and> cfg_heap s' = Map.empty"
  using haskell_from_env_by_variables [OF demo_config_env_ok(2) refl refl refl,
      of "[EVENTLOG_SOCKET_ENV_INET_HOST \<mapsto> c_string ''a'']" demo_strerror_env]
  by (simp add: EVENTLOG_SOCKET_ENV_INET_HOST_def EVENTLOG_SOCKET_ENV_UNIX_PATH_def
      EVENTLOG_SOCKET_ENV_INET_PORT_def c_text_def c_string_def bytes_of_string_def of_char_def
      demo_config_def)

section \<open>Options\<close>

text \<open>The values that the options can have in C without changing their meaning in Haskell.\<close>

lemma opts_roundtrip:
  "peekEventlogSocketOpts (withEventlogSocketOpts eso) = eso \<longleftrightarrow>
     (\<forall>n. esoSndbuf eso = Some n \<longrightarrow> n > 0) \<and> (\<forall>n. esoLinger eso = Some n \<longrightarrow> n > 0)"
  by (cases "esoSndbuf eso"; cases "esoLinger eso"; cases eso)
    (auto simp: peekEventlogSocketOpts_def withEventlogSocketOpts_def)

lemma default_opts: "defaultEventlogSocketOpts u = \<lparr>esoWait = False, esoSndbuf = None, esoLinger = None\<rparr>"
  by (simp add: defaultEventlogSocketOpts_def eventlog_socket_opts_init_def peekEventlogSocketOpts_def)

section \<open>Hooks and commands\<close>

text \<open>
  The registrations. A handler is wrapped in a function pointer (\<open>fptr\<close>), which is freed if the
  registration throws (\<open>bracketOnError\<close>): the second component of the result.
\<close>

definition registerHook ::
  "bool \<Rightarrow> hook_env \<Rightarrow> strerror_env \<Rightarrow> int \<Rightarrow> nat \<Rightarrow> hooks \<Rightarrow> ((hs_exception + unit) \<times> bool, hooks) outcome"
where
  "registerHook nd env senv hook fptr s =
     call_bind (es_hsapi_register_hook nd env hook (Some fptr) 0 s) (\<lambda>ess s.
       (let status = peekEventlogSocketStatus ess
        in if ess_status_code status = EVENTLOG_SOCKET_OK then Returns (Inr (), False) s
           else call_bind (throwEventlogSocketStatus senv status s) (\<lambda>r. Returns (r, True))))"

definition namespaceName :: "bool \<Rightarrow> namespace_ptr \<Rightarrow> control \<Rightarrow> (hs_string, control) outcome" where
  "namespaceName feature_control namespace s =
     call_bind (eventlog_socket_control_strnamespace feature_control (Some namespace) s) (\<lambda>p.
       Returns (case p of None \<Rightarrow> [] | Some str \<Rightarrow> c_text str))"

definition registerNamespace ::
  "bool \<Rightarrow> control_env \<Rightarrow> strerror_env \<Rightarrow> hs_string \<Rightarrow> control \<Rightarrow>
   (hs_exception + namespace_ptr option, control) outcome" where
  "registerNamespace feature_control env senv namespace s =
     (let namespaceLen = length namespace;
          maxNamespaceLen = unat (- 1 :: byte)
      in if namespaceLen > maxNamespaceLen then
           Returns (Inl (EventlogSocketControlNamespaceTooLong namespace namespaceLen maxNamespaceLen)) s
         else
           call_bind (es_hsapi_control_register_namespace feature_control env (of_nat namespaceLen)
               (namespace @ [0]) True s) (\<lambda>(ess, namespaceOut) s.
             (let status = peekEventlogSocketStatus ess
              in if ess_status_code status = EVENTLOG_SOCKET_OK then Returns (Inr namespaceOut) s
                 else if ess_status_code status = EVENTLOG_SOCKET_ERR_CTL_NOSUPPORT then
                   Returns (Inl EventlogSocketControlUnsupported) s
                 else if ess_status_code status = EVENTLOG_SOCKET_ERR_CTL_EXISTS then
                   Returns (Inl (EventlogSocketControlNamespaceExists namespace)) s
                 else throwEventlogSocketStatus senv status s)))"

definition registerCommand ::
  "bool \<Rightarrow> control_env \<Rightarrow> strerror_env \<Rightarrow> namespace_ptr \<Rightarrow> EventlogSocketControlCommandId \<Rightarrow> nat \<Rightarrow>
   control \<Rightarrow> ((hs_exception + unit) \<times> bool, control) outcome" where
  "registerCommand feature_control env senv namespace commandId fptr s =
     call_bind (es_hsapi_control_register_command feature_control env (Some namespace) commandId
         (Some (UserHandler fptr)) 0 s) (\<lambda>ess s.
       (let status = peekEventlogSocketStatus ess
        in if ess_status_code status = EVENTLOG_SOCKET_OK then Returns (Inr (), False) s
           else if ess_status_code status = EVENTLOG_SOCKET_ERR_CTL_NOSUPPORT then
             Returns (Inl EventlogSocketControlUnsupported, True) s
           else if ess_status_code status = EVENTLOG_SOCKET_ERR_CTL_EXISTS then
             call_bind (namespaceName feature_control namespace s) (\<lambda>name.
               Returns (Inl (EventlogSocketControlCommandExists name commandId), True))
           else call_bind (throwEventlogSocketStatus senv status s) (\<lambda>r. Returns (r, True))))"

lemma peek_status_simps [simp]:
  "peekEventlogSocketStatus (STATUS_FROM_CODE c) = STATUS_FROM_CODE c"
  "ess_status_code (STATUS_FROM_CODE c) = c"
  by (simp_all add: peekEventlogSocketStatus_def STATUS_FROM_CODE_def)

lemma registerNamespace_result:
  assumes "registry_ready s" "control_env_ok env"
  shows "registerNamespace True env senv name s =
     (if length name > 255 then
        Returns (Inl (EventlogSocketControlNamespaceTooLong name (length name) 255)) s
      else if namespace_is_registered (ctl_namespace_registry s) (length name) (name @ [0]) then
        Returns (Inl (EventlogSocketControlNamespaceExists name)) s
      else Returns (Inr (Some (length (ctl_namespace_registry s))))
        (s\<lparr>ctl_namespace_registry := ctl_namespace_registry s @ [\<lparr>ns_namespace_len = of_nat (length name),
           ns_namespace = strncpy (name @ [0]) (length name) @ [0], ns_command_registry = []\<rparr>]\<rparr>))"
proof -
  have max: "unat (- 1 :: byte) = 255" by (simp add: unsigned_minus_1_eq_mask mask_eq_exp_minus_1)
  have len: "unat (of_nat (length name) :: byte) = length name" if "length name \<le> 255"
    using that by (simp add: unat_of_nat)
  have s: "\<not> ctl_namespace_registry_mutex s" "s\<lparr>ctl_namespace_registry_mutex := False\<rparr> = s"
    using assms(1) by (simp_all add: registry_ready_def)
  from assms(2) obtain c d where env: "env_lock env = 0" "env_unlock env = 0"
    "env_malloc_name env = MallocOk c" "env_malloc_entry env = MallocOk d" by (rule control_env_okD)
  show ?thesis
    using s env len
    by (auto simp: registerNamespace_def max es_hsapi_control_register_namespace_def
        eventlog_socket_control_register_namespace_def es_control_register_namespace_def Let_def)
qed

lemma registerCommand_result:
  assumes "\<not> ctl_namespace_registry_mutex s" "control_env_ok env" "p \<noteq> 0" "p < length (ctl_namespace_registry s)"
    and c: "c = \<lparr>cmd_command_id = cid, cmd_command_handler = Some (UserHandler f), cmd_command_data = 0\<rparr>"
  shows "registerCommand True env senv p cid f s =
     (case ns_command_registry (ctl_namespace_registry s ! p) of
        [] \<Rightarrow> Returns (Inr (), False) (appended_command p c s)
      | c0 # rest \<Rightarrow>
          if cmd_command_id c0 = cid
          then Returns (Inl (EventlogSocketControlCommandExists
                 (c_text (ns_namespace (ctl_namespace_registry s ! p))) cid), True) s
          else if rest = [] then Returns (Inr (), False) (appended_command p c s)
          else Hangs)"
  using register_command_result [OF assms(1-4) c] assms(4)
  by (auto simp: registerCommand_def es_hsapi_control_register_command_def
      eventlog_socket_control_register_command_def namespaceName_def eventlog_socket_control_strnamespace_def
      es_control_strnamespace_def split: list.splits)

text \<open>C20: registrations through the Haskell package. A name of more than 255 bytes and a name that the
  registry refuses throw the documented exceptions and change nothing. Any other name gets a new
  namespace; in it, a first command is registered; the same ID again throws \<open>CommandExists\<close> with
  the name of the namespace and frees the handler; a second ID is registered; but registering a
  third command never returns.\<close>

theorem haskell_registration_session:
  assumes "registry_ready s" "control_env_ok env" "0 \<notin> set name" "a \<noteq> b" "c \<noteq> a"
  shows "if length name > 255 then
       registerNamespace True env senv name s =
         Returns (Inl (EventlogSocketControlNamespaceTooLong name (length name) 255)) s
     else if namespace_is_registered (ctl_namespace_registry s) (length name) (name @ [0]) then
       registerNamespace True env senv name s = Returns (Inl (EventlogSocketControlNamespaceExists name)) s
     else (\<exists>p s1 s2 s3.
       registerNamespace True env senv name s = Returns (Inr (Some p)) s1
       \<and> registerCommand True env senv p a f s1 = Returns (Inr (), False) s2
       \<and> registerCommand True env senv p a g s2 =
           Returns (Inl (EventlogSocketControlCommandExists name a), True) s2
       \<and> registerCommand True env senv p b g s2 = Returns (Inr (), False) s3
       \<and> registerCommand True env senv p c h s3 = Hangs)"
proof (cases "length name > 255 \<or>
    namespace_is_registered (ctl_namespace_registry s) (length name) (name @ [0])")
  case True
  then show ?thesis by (auto simp: registerNamespace_result [OF assms(1,2)])
next
  case False
  let ?p = "length (ctl_namespace_registry s)"
  let ?e = "\<lparr>ns_namespace_len = of_nat (length name), ns_namespace = strncpy (name @ [0]) (length name) @ [0],
     ns_command_registry = []\<rparr>"
  let ?s1 = "s\<lparr>ctl_namespace_registry := ctl_namespace_registry s @ [?e]\<rparr>"
  let ?c = "\<lambda>cid f. \<lparr>cmd_command_id = cid, cmd_command_handler = Some (UserHandler f), cmd_command_data = 0\<rparr>"
  have s: "\<not> ctl_namespace_registry_mutex s" "?p \<noteq> 0"
    using assms(1) by (auto simp: registry_ready_def registry_inv_def Let_def)
  have "strncpy (name @ [0]) (length name) = name"
    using strncpy_nonzero [of "length name" "name @ [0]"] assms(3) by simp
  then have name: "c_text (ns_namespace ?e) = name"
    using assms(3) strlen_nonzero [of name "[]"] by (simp add: c_text_def)
  let ?s2 = "appended_command ?p (?c a f) ?s1"
  let ?s3 = "appended_command ?p (?c b g) ?s2"
  have cmds: "ns_command_registry (ctl_namespace_registry ?s2 ! ?p) = [?c a f]"
    "ns_command_registry (ctl_namespace_registry ?s3 ! ?p) = [?c a f, ?c b g]"
    "c_text (ns_namespace (ctl_namespace_registry ?s2 ! ?p)) = name"
    using name by (simp_all add: appended_command_def)
  have free: "\<not> ctl_namespace_registry_mutex ?s1" "\<not> ctl_namespace_registry_mutex ?s2"
    "\<not> ctl_namespace_registry_mutex ?s3" using s(1) by (simp_all add: appended_command_def)
  have len: "?p < length (ctl_namespace_registry ?s1)" "?p < length (ctl_namespace_registry ?s2)"
    "?p < length (ctl_namespace_registry ?s3)" by (simp_all add: appended_command_def)
  note reg = registerCommand_result [OF _ assms(2) s(2) _ refl]
  have "registerNamespace True env senv name s = Returns (Inr (Some ?p)) ?s1"
    using False by (simp add: registerNamespace_result [OF assms(1,2)])
  moreover have "registerCommand True env senv ?p a f ?s1 = Returns (Inr (), False) ?s2"
    using reg [OF free(1) len(1)] by simp
  moreover have "registerCommand True env senv ?p a g ?s2 =
      Returns (Inl (EventlogSocketControlCommandExists name a), True) ?s2"
    using reg [OF free(2) len(2)] cmds(1,3) by simp
  moreover have "registerCommand True env senv ?p b g ?s2 = Returns (Inr (), False) ?s3"
    using reg [OF free(2) len(2)] cmds(1) assms(4) by simp
  moreover have "registerCommand True env senv ?p c h ?s3 = Hangs"
    using reg [OF free(3) len(3)] cmds(2) assms(5) by simp
  ultimately show ?thesis using False by auto
qed

theorem haskell_registration_session_witness:
  "\<exists>p s1 s2 s3.
     registerNamespace True demo_control_env demo_strerror_env demo_name initial_control = Returns (Inr (Some p)) s1
     \<and> registerCommand True demo_control_env demo_strerror_env p 1 10 s1 = Returns (Inr (), False) s2
     \<and> registerCommand True demo_control_env demo_strerror_env p 1 11 s2 =
         Returns (Inl (EventlogSocketControlCommandExists demo_name 1), True) s2
     \<and> registerCommand True demo_control_env demo_strerror_env p 2 11 s2 = Returns (Inr (), False) s3
     \<and> registerCommand True demo_control_env demo_strerror_env p 3 12 s3 = Hangs"
proof -
  have name: "0 \<notin> set demo_name" "\<not> length demo_name > 255"
    "\<not> namespace_is_registered (ctl_namespace_registry initial_control) (length demo_name) (demo_name @ [0])"
    by (simp_all add: demo_name_def store_match_Some BUILTIN_NAMESPACE_bytes)
  show ?thesis
    using haskell_registration_session [OF registry_ready_initial demo_control_env_ok name(1), of 1 2 3
        demo_strerror_env 10 11 12] name(2,3)
    by simp
qed

end
