(* ===== verification/ES_Example.thy ===== *)
theory ES_Example
  imports ES_Interface
begin

text \<open>
  Two programs that use the library, the examples \<open>custom-command-c-main\<close> and \<open>fibber-c-main\<close>: their
  command handlers and hooks, and their \<open>main\<close> functions, which choose by the environment whether
  the Haskell program runs at all.
\<close>

section \<open>The example custom-command-c-main\<close>

definition CUSTOM_COMMAND_NAMESPACE :: "byte list" where
  "CUSTOM_COMMAND_NAMESPACE = bytes_of_string ''custom-command''"
definition CUSTOM_COMMAND_PING :: byte where
  "CUSTOM_COMMAND_PING = 1"
definition CUSTOM_COMMAND_PONG :: byte where
  "CUSTOM_COMMAND_PONG = 2"

text \<open>
  The example's handlers write a message to the event log; \<open>cap_nonnull\<close>: \<open>rts_lock\<close> has returned
  a capability. The state is the list of the messages. \<open>example_handler\<close> gives the handler that a
  function number stands for; \<open>user_messages\<close> runs the handlers that the parser has called.
\<close>

definition write_user_message :: "bool \<Rightarrow> string \<Rightarrow> string list \<Rightarrow> string list" where
  "write_user_message cap_nonnull message log = (if \<not> cap_nonnull then log else log @ [message])"

definition handle_ping :: "bool \<Rightarrow> string list \<Rightarrow> string list" where
  "handle_ping cap_nonnull log = write_user_message cap_nonnull ''handled ping'' log"

definition handle_pong :: "bool \<Rightarrow> string list \<Rightarrow> string list" where
  "handle_pong cap_nonnull log = write_user_message cap_nonnull ''handled pong'' log"

definition handle_ping_ptr :: nat where "handle_ping_ptr = 1"
definition handle_pong_ptr :: nat where "handle_pong_ptr = 2"
definition pong_label :: user_data where "pong_label = 1"

definition example_handler :: "nat \<Rightarrow> bool \<Rightarrow> string list \<Rightarrow> string list" where
  "example_handler f =
     (if f = handle_ping_ptr then handle_ping
      else if f = handle_pong_ptr then handle_pong
      else (\<lambda>cap_nonnull log. log))"

fun user_messages :: "handler_effect list \<Rightarrow> string list \<Rightarrow> string list" where
  "user_messages [] log = log"
| "user_messages (CallsUser f ns command_id data # effects) log =
     user_messages effects (example_handler f True log)"
| "user_messages (_ # effects) log = user_messages effects log"

text \<open>
  The example's \<open>EXIT_ON_ERROR\<close>: it ends the process on an error, but only if the description
  of the error (\<open>has_strerr\<close>) could be allocated.
\<close>

definition example_exit_on_error ::
  "bool \<Rightarrow> EventlogSocketStatus \<Rightarrow> ('s \<Rightarrow> (unit, 's) outcome) \<Rightarrow> 's \<Rightarrow> (unit, 's) outcome" where
  "example_exit_on_error has_strerr status k s =
     (if ess_status_code status \<noteq> EVENTLOG_SOCKET_OK \<and> has_strerr then ThreadExits s else k s)"

definition custom_command_init ::
  "bool \<Rightarrow> bool \<Rightarrow> (nat \<Rightarrow> control_env) \<Rightarrow> control \<Rightarrow> (unit, control) outcome" where
  "custom_command_init feature_control has_strerr env s =
     call_bind
       (eventlog_socket_control_register_namespace feature_control (env 0)
          (of_nat (strlen (CUSTOM_COMMAND_NAMESPACE @ [0]))) (CUSTOM_COMMAND_NAMESPACE @ [0]) True s)
       (\<lambda>(status, namespace). example_exit_on_error has_strerr status (\<lambda>s.
     call_bind
       (eventlog_socket_control_register_command feature_control (env 1) namespace CUSTOM_COMMAND_PING
          (Some (UserHandler handle_ping_ptr)) 0 s)
       (\<lambda>status. example_exit_on_error has_strerr status (\<lambda>s.
     call_bind
       (eventlog_socket_control_register_command feature_control (env 2) namespace CUSTOM_COMMAND_PONG
          (Some (UserHandler handle_pong_ptr)) pong_label s)
       (\<lambda>status. example_exit_on_error has_strerr status (Returns ()))))))"

lemma CUSTOM_COMMAND_NAMESPACE_bytes:
  "CUSTOM_COMMAND_NAMESPACE =
     [0x63, 0x75, 0x73, 0x74, 0x6F, 0x6D, 0x2D, 0x63, 0x6F, 0x6D, 0x6D, 0x61, 0x6E, 0x64]"
  by (simp add: CUSTOM_COMMAND_NAMESPACE_def bytes_of_string_def of_char_def)

text \<open>The entry of the registry with two handlers and their data.\<close>

definition custom_entry_with ::
  "nat \<Rightarrow> user_data \<Rightarrow> nat \<Rightarrow> user_data \<Rightarrow> EventlogSocketControlNamespace" where
  "custom_entry_with f d g e =
     \<lparr>ns_namespace_len = 14, ns_namespace = CUSTOM_COMMAND_NAMESPACE @ [0],
      ns_command_registry =
        [\<lparr>cmd_command_id = 1, cmd_command_handler = Some (UserHandler f), cmd_command_data = d\<rparr>,
         \<lparr>cmd_command_id = 2, cmd_command_handler = Some (UserHandler g), cmd_command_data = e\<rparr>]\<rparr>"

definition custom_entry :: EventlogSocketControlNamespace where
  "custom_entry = custom_entry_with handle_ping_ptr 0 handle_pong_ptr pong_label"

lemmas custom_entry_defs = custom_entry_def custom_entry_with_def

lemma custom_command_init_result:
  assumes "\<forall>i. control_env_ok (env i)"
  shows "custom_command_init True has_strerr env initial_control =
     Returns () (initial_control\<lparr>ctl_namespace_registry := [builtin_namespace_entry, custom_entry]\<rparr>)"
proof -
  have env: "control_env_ok (env i)" for i using assms by simp
  let ?e = "\<lparr>ns_namespace_len = 14, ns_namespace = CUSTOM_COMMAND_NAMESPACE @ [0],
      ns_command_registry = []\<rparr>"
  let ?s1 = "initial_control\<lparr>ctl_namespace_registry := [builtin_namespace_entry, ?e]\<rparr>"
  obtain c d where e0: "env_lock (env 0) = 0" "env_unlock (env 0) = 0"
    "env_malloc_name (env 0) = MallocOk c" "env_malloc_entry (env 0) = MallocOk d"
    using env [of 0] by (rule control_env_okD)
  have "es_control_register_namespace (env 0) 14 (CUSTOM_COMMAND_NAMESPACE @ [0]) True initial_control =
      Returns (STATUS_OK, Some 1) ?s1"
    using e0
    by (simp add: es_control_register_namespace_def store_match_Some BUILTIN_NAMESPACE_bytes
        CUSTOM_COMMAND_NAMESPACE_bytes Let_def)
  moreover have "of_nat (strlen (CUSTOM_COMMAND_NAMESPACE @ [0])) = (14 :: byte)"
    by (simp add: CUSTOM_COMMAND_NAMESPACE_bytes)
  ultimately show ?thesis
    by (simp add: custom_command_init_def eventlog_socket_control_register_namespace_def
        eventlog_socket_control_register_command_def example_exit_on_error_def STATUS_FROM_CODE_def
        register_command_result [OF _ env _ _ refl] appended_command_def CUSTOM_COMMAND_PING_def
        CUSTOM_COMMAND_PONG_def custom_entry_defs)
qed

lemma custom_entry_dispatches:
  assumes "list_all (\<lambda>cid. cid = CUSTOM_COMMAND_PING \<or> cid = CUSTOM_COMMAND_PONG) cids"
    and "list_all chunk_ok ops"
    and "concat (map received ops) = concat (map (put_Command CUSTOM_COMMAND_NAMESPACE) cids)"
  shows "\<exists>rs s'. run_ops (parser_step nd) ops
       (initial_control\<lparr>ctl_namespace_registry := [builtin_namespace_entry, custom_entry_with f d g e]\<rparr>) =
         Returns rs s'
     \<and> ctl_effects s' = map (\<lambda>cid. if cid = CUSTOM_COMMAND_PING then CallsUser f 1 cid d
          else CallsUser g 1 cid e) cids"
proof -
  let ?entry = "custom_entry_with f d g e"
  let ?reg = "[builtin_namespace_entry, ?entry]"
  let ?s = "initial_control\<lparr>ctl_namespace_registry := ?reg\<rparr>"
  have ready: "parser_ready ?s"
    using parser_ready_initial
    by (simp add: parser_ready_def registry_ready_def registry_inv_def handlers_set_def entry_wf_def
        entries_clash_def store_match_Some custom_entry_with_def CUSTOM_COMMAND_NAMESPACE_bytes
        BUILTIN_NAMESPACE_bytes)
  then have inv: "registry_inv ?s" by (simp add: parser_ready_def registry_ready_def)
  have name: "entry_name ?entry = CUSTOM_COMMAND_NAMESPACE"
    by (simp add: entry_name_def custom_entry_with_def CUSTOM_COMMAND_NAMESPACE_bytes)
  have "spec_run ?reg (concat (map received ops)) (control_spec ?s) =
      Some (SpecMagic 0, concat (map (spec_effects ?reg 1) cids))"
    using spec_run_commands [OF inv, of "map (Pair 1) cids" "[]"] name assms(3)
    by (simp add: list_all_iff control_spec_def comp_def)
  moreover have "concat (map (spec_effects ?reg 1) cids) =
      map (\<lambda>cid. if cid = CUSTOM_COMMAND_PING then CallsUser f 1 cid d else CallsUser g 1 cid e) cids"
    using assms(1)
    by (induction cids)
      (auto simp: spec_effects_def custom_entry_with_def CUSTOM_COMMAND_PING_def CUSTOM_COMMAND_PONG_def)
  ultimately show ?thesis
    using parser_stream [OF ready assms(2), of _ nd] by (fastforce simp: control_spec_def)
qed

text \<open>A program with its own commands. After the example's initialisation, a client that sends
  any sequence of pings and pongs to the namespace \<open>custom-command\<close>, encoded by the Haskell
  package and cut in any way into chunks of at most 255 bytes, has each of them handled by the function registered
  for it, once, in order, with the data given at its registration; the event log gets one message
  for each.\<close>

theorem custom_commands_are_dispatched:
  assumes "\<forall>i. control_env_ok (env i)"
    and "list_all (\<lambda>cid. cid = CUSTOM_COMMAND_PING \<or> cid = CUSTOM_COMMAND_PONG) cids"
    and "list_all chunk_ok ops"
    and "concat (map received ops) = concat (map (put_Command CUSTOM_COMMAND_NAMESPACE) cids)"
  shows "\<exists>s rs s'. custom_command_init True has_strerr env initial_control = Returns () s
     \<and> run_ops (parser_step nd) ops s = Returns rs s'
     \<and> ctl_effects s' = map (\<lambda>cid. if cid = CUSTOM_COMMAND_PING then CallsUser handle_ping_ptr 1 cid 0
          else CallsUser handle_pong_ptr 1 cid pong_label) cids
     \<and> user_messages (ctl_effects s') [] =
         map (\<lambda>cid. if cid = CUSTOM_COMMAND_PING then ''handled ping'' else ''handled pong'') cids"
proof -
  have "user_messages (map (\<lambda>cid. if cid = CUSTOM_COMMAND_PING then CallsUser handle_ping_ptr 1 cid 0
          else CallsUser handle_pong_ptr 1 cid pong_label) cids) log =
      log @ map (\<lambda>cid. if cid = CUSTOM_COMMAND_PING then ''handled ping'' else ''handled pong'') cids" for log
    by (induction cids arbitrary: log)
      (simp_all add: example_handler_def handle_ping_def handle_pong_def write_user_message_def
        handle_ping_ptr_def handle_pong_ptr_def)
  moreover obtain rs s' where
    "run_ops (parser_step nd) ops
       (initial_control\<lparr>ctl_namespace_registry := [builtin_namespace_entry, custom_entry]\<rparr>) = Returns rs s'"
    "ctl_effects s' = map (\<lambda>cid. if cid = CUSTOM_COMMAND_PING then CallsUser handle_ping_ptr 1 cid 0
        else CallsUser handle_pong_ptr 1 cid pong_label) cids"
    using custom_entry_dispatches [OF assms(2-4), of nd] unfolding custom_entry_def by blast
  ultimately show ?thesis using custom_command_init_result [OF assms(1)] by simp
qed

theorem custom_commands_are_dispatched_witness:
  "\<exists>s rs s'. custom_command_init True True (\<lambda>_. demo_control_env) initial_control = Returns () s
     \<and> run_ops (parser_step False) [demo_op (put_Command CUSTOM_COMMAND_NAMESPACE 2)] s = Returns rs s'
     \<and> ctl_effects s' = [CallsUser handle_pong_ptr 1 2 pong_label]
     \<and> user_messages (ctl_effects s') [] = [''handled pong'']"
proof -
  have "length (put_Command CUSTOM_COMMAND_NAMESPACE 2) < 256"
    by (simp add: put_Command_def put_Namespace_def magicBytes_def CUSTOM_COMMAND_NAMESPACE_bytes)
  then have "list_all chunk_ok [demo_op (put_Command CUSTOM_COMMAND_NAMESPACE 2)]"
    "concat (map received [demo_op (put_Command CUSTOM_COMMAND_NAMESPACE 2)]) =
       concat (map (put_Command CUSTOM_COMMAND_NAMESPACE) [2])" by simp_all
  from custom_commands_are_dispatched [OF _ _ this, of "\<lambda>_. demo_control_env" True False]
  show ?thesis by (simp add: CUSTOM_COMMAND_PING_def CUSTOM_COMMAND_PONG_def del: run_ops.simps)
qed

section \<open>The hooks of fibber-c-main\<close>

definition write_user_marker :: "bool \<Rightarrow> string \<Rightarrow> string list \<Rightarrow> string list" where
  "write_user_marker cap_nonnull marker log = (if \<not> cap_nonnull then log else log @ [marker])"

definition handler_HookPostStartEventLogging :: "bool \<Rightarrow> string list \<Rightarrow> string list" where
  "handler_HookPostStartEventLogging cap_nonnull log =
     write_user_marker cap_nonnull ''HookPostStartEventLogging fired.'' log"

definition handler_HookPreEndEventLogging :: "bool \<Rightarrow> string list \<Rightarrow> string list" where
  "handler_HookPreEndEventLogging cap_nonnull log =
     write_user_marker cap_nonnull ''HookPreEndEventLogging fired.'' log"

definition post_start_ptr :: nat where "post_start_ptr = 1"
definition pre_end_ptr :: nat where "pre_end_ptr = 2"

text \<open>The markers written by the hooks that have been called (\<open>hk_calls\<close>).\<close>

fun user_markers :: "(nat \<times> user_data) list \<Rightarrow> string list \<Rightarrow> string list" where
  "user_markers [] log = log"
| "user_markers ((f, data) # calls) log =
     user_markers calls
       (if f = post_start_ptr then handler_HookPostStartEventLogging True log
        else if f = pre_end_ptr then handler_HookPreEndEventLogging True log else log)"

section \<open>The main functions\<close>

text \<open>
  The state of a whole program: the memory and the two local objects of \<open>main\<close>, the state of the
  library shared by the threads, and that of \<open>control.c\<close>. \<open>on_part\<close> calls a function that works on
  one part of it.
\<close>

record program =
  pr_config :: config
  pr_es :: es_state
  pr_ctl :: control

definition on_part ::
  "('p \<Rightarrow> 's) \<Rightarrow> ('s \<Rightarrow> 'p \<Rightarrow> 'p) \<Rightarrow> ('s \<Rightarrow> ('r, 's) outcome) \<Rightarrow> 'p \<Rightarrow> ('r, 'p) outcome" where
  "on_part get put f p =
     (case f (get p) of
        Returns r s \<Rightarrow> Returns r (put s p)
      | ThreadExits s \<Rightarrow> ThreadExits (put s p)
      | Aborts \<Rightarrow> Aborts
      | Crashes \<Rightarrow> Crashes
      | Hangs \<Rightarrow> Hangs)"

abbreviation on_config where
  "on_config \<equiv> on_part pr_config (\<lambda>c p. p\<lparr>pr_config := c\<rparr>)"
abbreviation on_library where
  "on_library \<equiv> on_part pr_es (\<lambda>s p. p\<lparr>pr_es := s\<rparr>)"
abbreviation on_control where
  "on_control \<equiv> on_part pr_ctl (\<lambda>c p. p\<lparr>pr_ctl := c\<rparr>)"
abbreviation on_hooks where
  "on_hooks \<equiv> on_part (\<lambda>p. es_hooks (pr_es p)) (\<lambda>h p. p\<lparr>pr_es := (pr_es p)\<lparr>es_hooks := h\<rparr>\<rparr>)"

text \<open>
  The end of the program: \<open>main\<close> returns, or the process ends in \<open>eventlog_socket_wrap_hs_main\<close>,
  which does not return (so its case does not fall through to the next).
\<close>

datatype main_end = MainReturns | ProcessExits exit_code

definition zero_config :: "config \<Rightarrow> config" where
  "zero_config c =
     c\<lparr>cfg_addr := EVENTLOG_SOCKET_UNIX None,
       cfg_opts := \<lparr>eso_wait = False, eso_sndbuf = 0, eso_linger = 0\<rparr>\<rparr>"

text \<open>The part of \<open>main\<close> that both examples have, from the two local objects on.\<close>

definition run_from_env ::
  "bool \<Rightarrow> bool \<Rightarrow> config_env \<Rightarrow> main_env \<Rightarrow> program \<Rightarrow> (main_end, program) outcome" where
  "run_from_env nd feature_control cenv menv p =
     (let p = p\<lparr>pr_config := zero_config (pr_config p)\<rparr>
      in call_bind (on_config (eventlog_socket_from_env cenv True True) p) (\<lambda>status p.
           if ess_status_code status = EVENTLOG_SOCKET_OK then
             call_bind
               (on_library (eventlog_socket_wrap_hs_main nd feature_control menv
                  (cfg_heap (pr_config p)) (cfg_addr (pr_config p)) (Some (cfg_opts (pr_config p)))) p)
               (\<lambda>code. Returns (ProcessExits code))
           else if ess_status_code status \<in>
               {EVENTLOG_SOCKET_ERR_ENV_TOOLONG, EVENTLOG_SOCKET_ERR_ENV_NOHOST, EVENTLOG_SOCKET_ERR_ENV_NOPORT}
           then
             call_bind (on_config (eventlog_socket_addr_free (Some (cfg_addr (pr_config p)))) p) (\<lambda>_ p.
             call_bind (on_config (eventlog_socket_opts_free (Some (cfg_opts (pr_config p)))) p) (\<lambda>_.
               Returns MainReturns))
           else Returns MainReturns p))"

definition custom_command_main ::
  "bool \<Rightarrow> bool \<Rightarrow> bool \<Rightarrow> (nat \<Rightarrow> control_env) \<Rightarrow> config_env \<Rightarrow> main_env \<Rightarrow> program \<Rightarrow>
   (main_end, program) outcome" where
  "custom_command_main nd feature_control has_strerr env cenv menv p =
     call_bind (on_control (custom_command_init feature_control has_strerr env) p) (\<lambda>_.
       run_from_env nd feature_control cenv menv)"

definition fibber_main ::
  "bool \<Rightarrow> bool \<Rightarrow> hook_env \<Rightarrow> hook_env \<Rightarrow> config_env \<Rightarrow> main_env \<Rightarrow> program \<Rightarrow>
   (main_end, program) outcome" where
  "fibber_main nd feature_control henv1 henv2 cenv menv p =
     call_bind (on_hooks (eventlog_socket_register_hook nd henv1
         EVENTLOG_SOCKET_HOOK_POST_START_EVENT_LOGGING (Some post_start_ptr) 0) p) (\<lambda>_ p.
     call_bind (on_hooks (eventlog_socket_register_hook nd henv2
         EVENTLOG_SOCKET_HOOK_PRE_END_EVENT_LOGGING (Some pre_end_ptr) 0) p) (\<lambda>_.
       run_from_env nd feature_control cenv menv))"

lemma on_part_Returns [simp]: "f (get p) = Returns r s \<Longrightarrow> on_part get put f p = Returns r (put s p)"
  by (simp add: on_part_def)

text \<open>What the environment decides.\<close>

definition env_status :: "config_env \<Rightarrow> EventlogSocketStatusCode" where
  "env_status env =
     from_env_code (ce_getenv env EVENTLOG_SOCKET_ENV_UNIX_PATH)
       (ce_getenv env EVENTLOG_SOCKET_ENV_INET_HOST) (ce_getenv env EVENTLOG_SOCKET_ENV_INET_PORT)"

lemma env_status_cases:
  "env_status env \<in> {EVENTLOG_SOCKET_OK, EVENTLOG_SOCKET_ERR_ENV_NOADDR, EVENTLOG_SOCKET_ERR_ENV_NOHOST,
     EVENTLOG_SOCKET_ERR_ENV_NOPORT}"
  by (cases "(ce_getenv env EVENTLOG_SOCKET_ENV_UNIX_PATH, ce_getenv env EVENTLOG_SOCKET_ENV_INET_HOST,
      ce_getenv env EVENTLOG_SOCKET_ENV_INET_PORT)" rule: from_env_code.cases)
    (simp_all add: env_status_def)

lemma run_from_env_ok:
  assumes "\<forall>k. \<exists>c. ce_malloc cenv k = MallocOk c" "config_env_fresh cenv (pr_config p)"
  shows "if env_status cenv = EVENTLOG_SOCKET_OK
     then \<exists>cfg. addr_is cfg (ce_getenv cenv EVENTLOG_SOCKET_ENV_UNIX_PATH)
            (ce_getenv cenv EVENTLOG_SOCKET_ENV_INET_HOST) (ce_getenv cenv EVENTLOG_SOCKET_ENV_INET_PORT)
            (cfg_addr cfg)
        \<and> cfg_opts cfg = \<lparr>eso_wait = ce_getenv cenv EVENTLOG_SOCKET_ENV_WAIT \<noteq> None,
            eso_sndbuf = 0, eso_linger = 0\<rparr>
        \<and> run_from_env nd fc cenv menv p = call_bind
            (on_library (eventlog_socket_wrap_hs_main nd fc menv (cfg_heap cfg) (cfg_addr cfg)
              (Some (cfg_opts cfg))) (p\<lparr>pr_config := cfg\<rparr>)) (\<lambda>code. Returns (ProcessExits code))
     else \<exists>cfg. run_from_env nd fc cenv menv p = Returns MainReturns (p\<lparr>pr_config := cfg\<rparr>)
        \<and> cfg_heap cfg = cfg_heap (pr_config p)"
proof -
  let ?c = "zero_config (pr_config p)"
  have fresh: "config_env_fresh cenv ?c" and heap: "cfg_heap ?c = cfg_heap (pr_config p)"
    using assms(2) by (simp_all add: config_env_fresh_def zero_config_def)
  from from_env_vars [OF from_env_errno_None [OF assms(1)] fresh refl refl refl, of True] obtain cfg where cfg:
    "eventlog_socket_from_env cenv True True ?c = Returns (STATUS_FROM_CODE (env_status cenv)) cfg"
    "if env_status cenv = EVENTLOG_SOCKET_ERR_ENV_NOADDR
     then cfg_addr cfg = cfg_addr ?c \<and> cfg_heap cfg = cfg_heap ?c
     else addr_is cfg (ce_getenv cenv EVENTLOG_SOCKET_ENV_UNIX_PATH)
        (ce_getenv cenv EVENTLOG_SOCKET_ENV_INET_HOST) (ce_getenv cenv EVENTLOG_SOCKET_ENV_INET_PORT)
        (cfg_addr cfg)"
    "cfg_opts cfg = \<lparr>eso_wait = ce_getenv cenv EVENTLOG_SOCKET_ENV_WAIT \<noteq> None,
       eso_sndbuf = 0, eso_linger = 0\<rparr>"
    unfolding env_status_def by auto
  have code: "ess_status_code (STATUS_FROM_CODE c) = c" for c by (simp add: STATUS_FROM_CODE_def)
  show ?thesis
  proof (cases "env_status cenv = EVENTLOG_SOCKET_OK")
    case True
    with cfg code show ?thesis by (auto simp: run_from_env_def Let_def intro!: exI [of _ cfg])
  next
    case False
    show ?thesis
    proof (cases "env_status cenv = EVENTLOG_SOCKET_ERR_ENV_NOADDR")
      case True
      with cfg code heap show ?thesis by (auto simp: run_from_env_def Let_def intro!: exI [of _ cfg])
    next
      case noaddr: False
      from from_env_balance [OF fresh, of True] cfg(1) code False noaddr env_status_cases [of cenv]
      obtain r cfg' where free: "eventlog_socket_addr_free (Some (cfg_addr cfg)) cfg = Returns r cfg'"
        "cfg_heap cfg' = cfg_heap ?c"
        by (auto split: outcome.splits if_splits)
      with cfg(1) code False noaddr env_status_cases [of cenv] heap show ?thesis
        by (auto simp: run_from_env_def Let_def eventlog_socket_opts_free_def intro!: exI [of _ cfg'])
    qed
  qed
qed

text \<open>C24: the example \<open>fibber-c-main\<close>, by its environment. It registers its two hooks. With a Unix path,
  or a host and a port, it hands exactly this address and the options to
  \<open>eventlog_socket_wrap_hs_main\<close>, which runs the Haskell program and ends the process. Otherwise, with
  no address at all as well as with a host or a port alone, the Haskell program is not run: \<open>main\<close>
  returns, with the memory of the address freed and the library untouched but for the hooks.\<close>

theorem fibber_main_by_environment:
  assumes "\<forall>k. \<exists>c. ce_malloc cenv k = MallocOk c" "config_env_fresh cenv (pr_config p)"
    and "es_hooks (pr_es p) = initial_hooks" "hook_env_ok henv1" "hook_env_ok henv2"
    and "es = (pr_es p)\<lparr>es_hooks := initial_hooks
       \<lparr>on_connect_handlers := [\<lparr>hook_handler = Some post_start_ptr, hook_data = 0\<rparr>],
        on_disconnect_handlers := [\<lparr>hook_handler = Some pre_end_ptr, hook_data = 0\<rparr>]\<rparr>\<rparr>"
  shows "if env_status cenv = EVENTLOG_SOCKET_OK
     then \<exists>cfg. addr_is cfg (ce_getenv cenv EVENTLOG_SOCKET_ENV_UNIX_PATH)
            (ce_getenv cenv EVENTLOG_SOCKET_ENV_INET_HOST) (ce_getenv cenv EVENTLOG_SOCKET_ENV_INET_PORT)
            (cfg_addr cfg)
        \<and> cfg_opts cfg = \<lparr>eso_wait = ce_getenv cenv EVENTLOG_SOCKET_ENV_WAIT \<noteq> None,
            eso_sndbuf = 0, eso_linger = 0\<rparr>
        \<and> fibber_main nd fc henv1 henv2 cenv menv p = call_bind
            (on_library (eventlog_socket_wrap_hs_main nd fc menv (cfg_heap cfg) (cfg_addr cfg)
              (Some (cfg_opts cfg))) (p\<lparr>pr_es := es, pr_config := cfg\<rparr>)) (\<lambda>code. Returns (ProcessExits code))
     else \<exists>cfg. fibber_main nd fc henv1 henv2 cenv menv p =
          Returns MainReturns (p\<lparr>pr_es := es, pr_config := cfg\<rparr>)
        \<and> cfg_heap cfg = cfg_heap (pr_config p)"
proof -
  let ?e1 = "\<lparr>hook_handler = Some post_start_ptr, hook_data = 0\<rparr>"
  let ?e2 = "\<lparr>hook_handler = Some pre_end_ptr, hook_data = 0\<rparr>"
  have h: "eventlog_socket_register_hook nd henv1 EVENTLOG_SOCKET_HOOK_POST_START_EVENT_LOGGING
      (Some post_start_ptr) 0 initial_hooks = Returns STATUS_OK (initial_hooks\<lparr>on_connect_handlers := [?e1]\<rparr>)"
    "eventlog_socket_register_hook nd henv2 EVENTLOG_SOCKET_HOOK_PRE_END_EVENT_LOGGING
      (Some pre_end_ptr) 0 (initial_hooks\<lparr>on_connect_handlers := [?e1]\<rparr>) =
      Returns STATUS_OK (initial_hooks\<lparr>on_connect_handlers := [?e1], on_disconnect_handlers := [?e2]\<rparr>)"
    using register_hook_ok [of _ henv1] register_hook_ok [of _ henv2] assms(4,5)
    by (simp_all add: eventlog_socket_register_hook_def initial_hooks_def)
  have main: "fibber_main nd fc henv1 henv2 cenv menv p = run_from_env nd fc cenv menv (p\<lparr>pr_es := es\<rparr>)"
    using h assms(3,6) by (simp add: fibber_main_def)
  have "config_env_fresh cenv (pr_config (p\<lparr>pr_es := es\<rparr>))" using assms(2) by simp
  from run_from_env_ok [OF assms(1) this, of nd fc menv] show ?thesis
    unfolding main by (cases "env_status cenv = EVENTLOG_SOCKET_OK") simp_all
qed

definition demo_program :: program where
  "demo_program = \<lparr>pr_config = demo_config, pr_es = initial_es, pr_ctl = initial_control\<rparr>"

theorem fibber_main_by_environment_witness:
  "\<exists>cfg es. fibber_main False True demo_hook_env demo_hook_env (demo_config_env Map.empty) demo_main_env
       demo_program = Returns MainReturns (demo_program\<lparr>pr_es := es, pr_config := cfg\<rparr>)
     \<and> cfg_heap cfg = Map.empty"
proof -
  have p: "config_env_fresh (demo_config_env Map.empty) (pr_config demo_program)"
    "es_hooks (pr_es demo_program) = initial_hooks" "cfg_heap (pr_config demo_program) = Map.empty"
    by (simp_all add: demo_program_def) (simp add: demo_config_def)
  have st: "env_status (demo_config_env Map.empty) \<noteq> EVENTLOG_SOCKET_OK"
    by (simp add: env_status_def)
  have mal: "\<forall>k. \<exists>c. ce_malloc (demo_config_env Map.empty) k = MallocOk c" by simp
  have hook: "hook_env_ok demo_hook_env" by simp
  from fibber_main_by_environment [OF mal p(1,2) hook hook refl, of False True demo_main_env] st p(3)
  show ?thesis by auto
qed

lemma custom_command_main_runs:
  assumes "\<forall>i. control_env_ok (env i)" "pr_ctl p = initial_control"
  shows "custom_command_main nd True has_strerr env cenv menv p = run_from_env nd True cenv menv
     (p\<lparr>pr_ctl := initial_control\<lparr>ctl_namespace_registry := [builtin_namespace_entry, custom_entry]\<rparr>\<rparr>)"
  using custom_command_init_result [OF assms(1)] assms(2) by (simp add: custom_command_main_def)

lemma hooks_write_markers:
  "user_markers [(post_start_ptr, 0), (pre_end_ptr, 0)] [] =
     [''HookPostStartEventLogging fired.'', ''HookPreEndEventLogging fired.'']"
  by (simp add: handler_HookPostStartEventLogging_def handler_HookPreEndEventLogging_def
      write_user_marker_def post_start_ptr_def pre_end_ptr_def)

end
