(* ===== verification/ES_HaskellMain.thy ===== *)
theory ES_HaskellMain
  imports ES_Haskell ES_Example
begin

text \<open>
  \<open>startFromEnv\<close> of the Haskell package \<open>eventlog-socket\<close>, and the set-up of the programs that use it,
  the examples \<open>custom-command\<close>, \<open>fibber\<close> and \<open>oddball\<close>: what they register, and whether they start.
\<close>

section \<open>Actions that throw\<close>

text \<open>Two actions in sequence: an exception ends the sequence.\<close>

definition hs_bind ::
  "('e + 'a, 's) outcome \<Rightarrow> ('a \<Rightarrow> 's \<Rightarrow> ('e + 'b, 's) outcome) \<Rightarrow> ('e + 'b, 's) outcome" where
  "hs_bind m k = call_bind m (\<lambda>r s. case r of Inl e \<Rightarrow> Returns (Inl e) s | Inr a \<Rightarrow> k a s)"

lemma hs_bind_simps [simp]:
  "hs_bind (Returns (Inl e) s) k = Returns (Inl e) s"
  "hs_bind (Returns (Inr a) s) k = k a s"
  "hs_bind Hangs k = Hangs"
  by (simp_all add: hs_bind_def)

section \<open>Starting from the environment\<close>

definition startFromEnv ::
  "bool \<Rightarrow> bool \<Rightarrow> config_env \<Rightarrow> entry_env \<Rightarrow> strerror_env \<Rightarrow> program \<Rightarrow> (hs_exception + unit, program) outcome"
where
  "startFromEnv nd feature_control cenv env senv p =
     hs_bind (on_config (fromEnv cenv senv) p) (\<lambda>r p.
       case r of
         None \<Rightarrow> Returns (Inr ()) p
       | Some (esa, eso) \<Rightarrow> on_library (startWith nd feature_control env senv esa eso) p)"

lemma startFromEnv_result:
  assumes "\<forall>k. \<exists>c. ce_malloc cenv k = MallocOk c" "config_env_fresh cenv (pr_config p)"
  shows "\<exists>cfg. cfg_heap cfg = cfg_heap (pr_config p)
     \<and> startFromEnv nd fc cenv env senv p =
         (case from_env_result (ce_getenv cenv EVENTLOG_SOCKET_ENV_UNIX_PATH)
             (ce_getenv cenv EVENTLOG_SOCKET_ENV_INET_HOST) (ce_getenv cenv EVENTLOG_SOCKET_ENV_INET_PORT)
             (ce_getenv cenv EVENTLOG_SOCKET_ENV_WAIT \<noteq> None) of
            Inl e \<Rightarrow> Returns (Inl e) (p\<lparr>pr_config := cfg\<rparr>)
          | Inr None \<Rightarrow> Returns (Inr ()) (p\<lparr>pr_config := cfg\<rparr>)
          | Inr (Some (esa, eso)) \<Rightarrow> on_library (startWith nd fc env senv esa eso) (p\<lparr>pr_config := cfg\<rparr>))"
proof -
  from fromEnv_result [OF from_env_errno_None [OF assms(1)] assms(2), of senv] obtain cfg where
    "fromEnv cenv senv (pr_config p) = Returns
       (from_env_result (ce_getenv cenv EVENTLOG_SOCKET_ENV_UNIX_PATH)
          (ce_getenv cenv EVENTLOG_SOCKET_ENV_INET_HOST) (ce_getenv cenv EVENTLOG_SOCKET_ENV_INET_PORT)
          (ce_getenv cenv EVENTLOG_SOCKET_ENV_WAIT \<noteq> None)) cfg"
    "cfg_heap cfg = cfg_heap (pr_config p)" by blast
  then show ?thesis
    by (intro exI [of _ cfg]) (simp add: startFromEnv_def hs_bind_def split: sum.splits)
qed

section \<open>The example custom-command\<close>

text \<open>
  The part of \<open>main\<close> before the workload; \<open>f\<close> and \<open>g\<close> are the function pointers of the two
  handlers. (A registration that succeeds gives a namespace, never \<open>NULL\<close>.)
\<close>

definition hs_custom_command_setup ::
  "bool \<Rightarrow> bool \<Rightarrow> (nat \<Rightarrow> control_env) \<Rightarrow> config_env \<Rightarrow> entry_env \<Rightarrow> strerror_env \<Rightarrow> nat \<Rightarrow> nat \<Rightarrow> program \<Rightarrow>
   (hs_exception + unit, program) outcome" where
  "hs_custom_command_setup nd feature_control env cenv eenv senv f g p =
     hs_bind (on_control (registerNamespace feature_control (env 0) senv CUSTOM_COMMAND_NAMESPACE) p)
       (\<lambda>myNamespace.
          let command = (\<lambda>e cid fptr p. on_control (\<lambda>s.
            call_bind (registerCommand feature_control e senv (the myNamespace) cid fptr s)
              (\<lambda>(r, freed). Returns r)) p)
          in (\<lambda>p. hs_bind (command (env 1) 1 f p) (\<lambda>_ p.
                hs_bind (command (env 2) 2 g p) (\<lambda>_.
                  startFromEnv nd feature_control cenv eenv senv))))"

fun hs_custom_command_parseArgs :: "(string \<Rightarrow> int option) \<Rightarrow> string list \<Rightarrow> int option" where
  "hs_custom_command_parseArgs readMaybe [] = Some 5"
| "hs_custom_command_parseArgs readMaybe (x # xs) =
     (if x = ''--forever'' then None
      else (case readMaybe x of Some n \<Rightarrow> Some n | None \<Rightarrow> Some 5))"

lemma hs_custom_command_setup_result:
  assumes "\<forall>i. control_env_ok (env i)" "pr_ctl p = initial_control"
  shows "hs_custom_command_setup nd True env cenv eenv senv f g p =
     startFromEnv nd True cenv eenv senv
       (p\<lparr>pr_ctl := initial_control\<lparr>ctl_namespace_registry :=
            [builtin_namespace_entry, custom_entry_with f 0 g 0]\<rparr>\<rparr>)"
proof -
  have env: "control_env_ok (env i)" for i using assms(1) by simp
  let ?e = "\<lparr>ns_namespace_len = 14, ns_namespace = CUSTOM_COMMAND_NAMESPACE @ [0],
      ns_command_registry = []\<rparr>"
  let ?s1 = "initial_control\<lparr>ctl_namespace_registry := [builtin_namespace_entry, ?e]\<rparr>"
  have ns: "registerNamespace True (env 0) senv CUSTOM_COMMAND_NAMESPACE initial_control =
      Returns (Inr (Some 1)) ?s1"
    by (simp add: registerNamespace_result [OF registry_ready_initial env] store_match_Some
        BUILTIN_NAMESPACE_bytes CUSTOM_COMMAND_NAMESPACE_bytes)
  show ?thesis
    using ns assms(2)
    by (simp add: hs_custom_command_setup_def Let_def registerCommand_result [OF _ env _ _ refl]
        appended_command_def custom_entry_with_def)
qed

text \<open>
  The program executes the commands of its clients: after the set-up without an address in the
  environment (with one, \<open>startFromEnv\<close> goes on to start the threads), pings and pongs from the Haskell
  encoder, cut in any way into chunks of at most 255 bytes, call the two handlers, once each, in order.
\<close>

theorem hs_custom_commands_are_dispatched:
  assumes "\<forall>i. control_env_ok (env i)" "pr_ctl p = initial_control"
    and "\<forall>k. \<exists>c. ce_malloc cenv k = MallocOk c" "config_env_fresh cenv (pr_config p)"
    and "ce_getenv cenv EVENTLOG_SOCKET_ENV_UNIX_PATH = None"
    and "ce_getenv cenv EVENTLOG_SOCKET_ENV_INET_HOST = None" "ce_getenv cenv EVENTLOG_SOCKET_ENV_INET_PORT = None"
    and "list_all (\<lambda>cid. cid = CUSTOM_COMMAND_PING \<or> cid = CUSTOM_COMMAND_PONG) cids"
    and "list_all chunk_ok ops"
    and "concat (map received ops) = concat (map (put_Command CUSTOM_COMMAND_NAMESPACE) cids)"
  shows "\<exists>q rs s'. hs_custom_command_setup nd True env cenv eenv senv f g p = Returns (Inr ()) q
     \<and> pr_es q = pr_es p \<and> cfg_heap (pr_config q) = cfg_heap (pr_config p)
     \<and> run_ops (parser_step nd) ops (pr_ctl q) = Returns rs s'
     \<and> ctl_effects s' = map (\<lambda>cid. CallsUser (if cid = CUSTOM_COMMAND_PING then f else g) 1 cid 0) cids"
proof -
  let ?p = "p\<lparr>pr_ctl := initial_control\<lparr>ctl_namespace_registry :=
      [builtin_namespace_entry, custom_entry_with f 0 g 0]\<rparr>\<rparr>"
  have "config_env_fresh cenv (pr_config ?p)" using assms(4) by simp
  from startFromEnv_result [OF assms(3) this, of nd True eenv senv] assms(5-7) obtain cfg where
    "startFromEnv nd True cenv eenv senv ?p = Returns (Inr ()) (?p\<lparr>pr_config := cfg\<rparr>)"
    "cfg_heap cfg = cfg_heap (pr_config p)" by auto
  moreover obtain rs s' where "run_ops (parser_step nd) ops
       (initial_control\<lparr>ctl_namespace_registry := [builtin_namespace_entry, custom_entry_with f 0 g 0]\<rparr>) =
         Returns rs s'"
    "ctl_effects s' = map (\<lambda>cid. CallsUser (if cid = CUSTOM_COMMAND_PING then f else g) 1 cid 0) cids"
    using custom_entry_dispatches [OF assms(8-10), of nd f 0 g 0] by (auto cong: map_cong if_cong)
  ultimately show ?thesis
    using hs_custom_command_setup_result [OF assms(1,2)]
    by (intro exI [of _ "?p\<lparr>pr_config := cfg\<rparr>"] exI [of _ rs] exI [of _ s']) simp
qed

section \<open>The examples fibber and oddball\<close>

text \<open>Both register two hooks and start; \<open>f\<close> and \<open>g\<close> are the function pointers of the handlers.\<close>

definition hs_hooks_setup ::
  "bool \<Rightarrow> bool \<Rightarrow> hook_env \<Rightarrow> hook_env \<Rightarrow> config_env \<Rightarrow> entry_env \<Rightarrow> strerror_env \<Rightarrow> nat \<Rightarrow> nat \<Rightarrow> program \<Rightarrow>
   (hs_exception + unit, program) outcome" where
  "hs_hooks_setup nd feature_control henv1 henv2 cenv eenv senv f g p =
     (let hook = (\<lambda>henv h fptr p. on_hooks (\<lambda>s.
        call_bind (registerHook nd henv senv h fptr s) (\<lambda>(r, freed). Returns r)) p)
      in hs_bind (hook henv1 EVENTLOG_SOCKET_HOOK_POST_START_EVENT_LOGGING f p) (\<lambda>_ p.
           hs_bind (hook henv2 EVENTLOG_SOCKET_HOOK_PRE_END_EVENT_LOGGING g p) (\<lambda>_.
             startFromEnv nd feature_control cenv eenv senv)))"

datatype fibber_mode = Finite | Infinite

fun fibber_parseArgs :: "string list \<Rightarrow> fibber_mode \<times> string list" where
  "fibber_parseArgs [] = (Finite, [])"
| "fibber_parseArgs (x # rest) = (if x = ''--forever'' then (Infinite, rest) else (Finite, x # rest))"

text \<open>\<open>fib\<close> of an \<open>Integer\<close>; it does not return for a negative argument.\<close>

partial_function (option) fib_hs :: "int \<Rightarrow> int option" where
  "fib_hs n =
     (if n = 0 then Some 0
      else if n = 1 then Some 1
      else Option.bind (fib_hs (n - 1)) (\<lambda>a. Option.bind (fib_hs (n - 2)) (\<lambda>b. Some (a + b))))"

text \<open>A positive workload ends.\<close>

fun fib_spec :: "nat \<Rightarrow> int" where
  "fib_spec 0 = 0"
| "fib_spec (Suc 0) = 1"
| "fib_spec (Suc (Suc n)) = fib_spec (Suc n) + fib_spec n"

lemma fib_hs_returns: "fib_hs (int n) = Some (fib_spec n)"
proof (induction n rule: fib_spec.induct)
  case (3 n)
  have d: "int (Suc (Suc n)) - 1 = int (Suc n)" "int (Suc (Suc n)) - 2 = int n" by simp_all
  have "fib_hs (int (Suc (Suc n)) - 1) = Some (fib_spec (Suc n))"
    "fib_hs (int (Suc (Suc n)) - 2) = Some (fib_spec n)" using 3 by (simp_all only: d)
  then show ?case by (subst fib_hs.simps) simp
qed (subst fib_hs.simps, simp)+

lemma fib_hs_negative: "n < 0 \<Longrightarrow> fib_hs n = None"
proof (rule ccontr)
  assume n: "n < 0" and "fib_hs n \<noteq> None"
  then obtain m where "fib_hs n = Some m" by blast
  then have "0 \<le> n"
  proof (rule fib_hs.raw_induct [where P = "\<lambda>n m. 0 \<le> n", rotated], goal_cases)
    case (1 fib n m)
    then have "n = 0 \<or> n = 1 \<or> (\<exists>y. fib (n - 1) = Some y)"
      by (auto simp: bind_eq_Some_conv split: if_splits)
    with 1(1) [of "n - 1"] show ?case by fastforce
  qed
  with n show False by simp
qed

lemma hs_hooks_setup_result:
  assumes "es_hooks (pr_es p) = initial_hooks" "hook_env_ok henv1" "hook_env_ok henv2"
  shows "hs_hooks_setup nd fc henv1 henv2 cenv eenv senv f g p =
     startFromEnv nd fc cenv eenv senv (p\<lparr>pr_es := (pr_es p)\<lparr>es_hooks := initial_hooks
       \<lparr>on_connect_handlers := [\<lparr>hook_handler = Some f, hook_data = 0\<rparr>],
        on_disconnect_handlers := [\<lparr>hook_handler = Some g, hook_data = 0\<rparr>]\<rparr>\<rparr>\<rparr>)"
proof -
  let ?e1 = "\<lparr>hook_handler = Some f, hook_data = 0\<rparr>" and ?e2 = "\<lparr>hook_handler = Some g, hook_data = 0\<rparr>"
  have h: "es_hsapi_register_hook nd henv1 EVENTLOG_SOCKET_HOOK_POST_START_EVENT_LOGGING
      (Some f) 0 initial_hooks = Returns STATUS_OK (initial_hooks\<lparr>on_connect_handlers := [?e1]\<rparr>)"
    "es_hsapi_register_hook nd henv2 EVENTLOG_SOCKET_HOOK_PRE_END_EVENT_LOGGING
      (Some g) 0 (initial_hooks\<lparr>on_connect_handlers := [?e1]\<rparr>) =
      Returns STATUS_OK (initial_hooks\<lparr>on_connect_handlers := [?e1], on_disconnect_handlers := [?e2]\<rparr>)"
    using register_hook_ok [of _ henv1] register_hook_ok [of _ henv2] assms(2,3)
    by (simp_all add: es_hsapi_register_hook_def eventlog_socket_register_hook_def initial_hooks_def)
  show ?thesis
    using h assms(1) by (simp add: hs_hooks_setup_def registerHook_def Let_def)
qed

end
