(* ===== verification/ES_Debug.thy ===== *)
theory ES_Debug
  imports ES_Status
begin

text \<open>
  Debug output: the macros of \<open>debug.h\<close>, which write to \<open>stderr\<close> and are called between a failed
  system call and the place where the code reads \<open>errno\<close>. In the other theories the \<open>errno\<close> of an
  answer is the one that is read, after the debug output; this theory says when it is the one of
  the failed call.
\<close>

section \<open>Compile-time settings\<close>

text \<open>
  Which macros the build defines: \<open>DEBUG_COLOR\<close>, \<open>DEBUG\<close>, and the value of \<open>DEBUG_VERBOSITY\<close> if
  it is given.
\<close>

record debug_build =
  db_color :: bool
  db_debug :: bool
  db_verbosity :: "int option"

definition DEBUG_VERBOSITY_QUIET :: int where "DEBUG_VERBOSITY_QUIET = 0"
definition DEBUG_VERBOSITY_ERROR :: int where "DEBUG_VERBOSITY_ERROR = 1"
definition DEBUG_VERBOSITY_WARN :: int where "DEBUG_VERBOSITY_WARN = 2"
definition DEBUG_VERBOSITY_INFO :: int where "DEBUG_VERBOSITY_INFO = 3"
definition DEBUG_VERBOSITY_DEBUG :: int where "DEBUG_VERBOSITY_DEBUG = 4"
definition DEBUG_VERBOSITY_TRACE :: int where "DEBUG_VERBOSITY_TRACE = 5"

lemmas verbosity_defs =
  DEBUG_VERBOSITY_QUIET_def DEBUG_VERBOSITY_ERROR_def DEBUG_VERBOSITY_WARN_def
  DEBUG_VERBOSITY_INFO_def DEBUG_VERBOSITY_DEBUG_def DEBUG_VERBOSITY_TRACE_def

definition DEBUG_VERBOSITY :: "debug_build \<Rightarrow> int" where
  "DEBUG_VERBOSITY b =
     (case db_verbosity b of
        Some v \<Rightarrow> v
      | None \<Rightarrow> if db_debug b then DEBUG_VERBOSITY_DEBUG else DEBUG_VERBOSITY_ERROR)"

definition ansi :: "debug_build \<Rightarrow> string \<Rightarrow> string" where
  "ansi b code = (if db_color b then CHR 0x1B # code else [])"

definition DEBUG_COLOR_RED :: "debug_build \<Rightarrow> string" where
  "DEBUG_COLOR_RED b = ansi b ''[31m''"
definition DEBUG_COLOR_YELLOW :: "debug_build \<Rightarrow> string" where
  "DEBUG_COLOR_YELLOW b = ansi b ''[33m''"
definition DEBUG_COLOR_BLUE :: "debug_build \<Rightarrow> string" where
  "DEBUG_COLOR_BLUE b = ansi b ''[34m''"
definition DEBUG_COLOR_PURPLE :: "debug_build \<Rightarrow> string" where
  "DEBUG_COLOR_PURPLE b = ansi b ''[35m''"
definition DEBUG_COLOR_RESET :: "debug_build \<Rightarrow> string" where
  "DEBUG_COLOR_RESET b = ansi b ''[m''"

section \<open>Output to stderr\<close>

text \<open>
  \<open>errno\<close> of the thread and what has been written to \<open>stderr\<close>. A call of \<open>fprintf\<close> or \<open>perror\<close>
  writes some of its bytes and may set \<open>errno\<close> (\<open>io_errno\<close>).
\<close>

record debug_state =
  ds_errno :: int
  ds_stderr :: string

record output_answer =
  oa_written :: nat
  oa_errno :: "int option"

definition write_stderr :: "output_answer \<Rightarrow> string \<Rightarrow> debug_state \<Rightarrow> debug_state" where
  "write_stderr a str s =
     s\<lparr>ds_stderr := ds_stderr s @ take (oa_written a) str,
       ds_errno := (case oa_errno a of None \<Rightarrow> ds_errno s | Some e \<Rightarrow> e)\<rparr>"

text \<open>\<open>perror\<close>; \<open>describe\<close> is \<open>strerror\<close>.\<close>

definition perror :: "(int \<Rightarrow> string) \<Rightarrow> output_answer \<Rightarrow> string \<Rightarrow> debug_state \<Rightarrow> debug_state" where
  "perror describe a msg s = write_stderr a (msg @ '': '' @ describe (ds_errno s) @ ''\<newline>'') s"

fun decimal :: "nat \<Rightarrow> string" where
  "decimal n =
     (if n < 10 then [char_of (48 + n)] else decimal (n div 10) @ [char_of (48 + n mod 10)])"

declare decimal.simps [simp del]

text \<open>\<open>__FILE__\<close>, \<open>__LINE__\<close> and \<open>__func__\<close>.\<close>

type_synonym source_position = "string \<times> nat \<times> string"

fun debug_line ::
  "debug_build \<Rightarrow> string \<Rightarrow> string \<Rightarrow> source_position \<Rightarrow> string \<Rightarrow> string" where
  "debug_line b color level (file, line, func) body =
     color @ level @ ''['' @ file @ ''|'' @ decimal line @ ''|'' @ func @ '']: '' @
     DEBUG_COLOR_RESET b @ body @ ''\<newline>''"

section \<open>The macros\<close>

text \<open>\<open>body\<close> is the message after its arguments have been filled in.\<close>

definition DEBUG_TRACE ::
  "debug_build \<Rightarrow> output_answer \<Rightarrow> source_position \<Rightarrow> string \<Rightarrow> debug_state \<Rightarrow> debug_state" where
  "DEBUG_TRACE b a pos body s =
     (if DEBUG_VERBOSITY b \<ge> DEBUG_VERBOSITY_TRACE then
        (let errno_old = ds_errno s;
             s = write_stderr a (debug_line b (DEBUG_COLOR_PURPLE b) ''TRACE'' pos body) s
         in s\<lparr>ds_errno := errno_old\<rparr>)
      else s)"

definition DEBUG_DEBUG ::
  "debug_build \<Rightarrow> output_answer \<Rightarrow> source_position \<Rightarrow> string \<Rightarrow> debug_state \<Rightarrow> debug_state" where
  "DEBUG_DEBUG b a pos body s =
     (if DEBUG_VERBOSITY b \<ge> DEBUG_VERBOSITY_DEBUG then
        (let errno_old = ds_errno s;
             s = write_stderr a (debug_line b (DEBUG_COLOR_BLUE b) ''DEBUG'' pos body) s
         in s\<lparr>ds_errno := errno_old\<rparr>)
      else s)"

definition DEBUG_INFO ::
  "debug_build \<Rightarrow> output_answer \<Rightarrow> source_position \<Rightarrow> string \<Rightarrow> debug_state \<Rightarrow> debug_state" where
  "DEBUG_INFO b a pos body s =
     (if DEBUG_VERBOSITY b \<ge> DEBUG_VERBOSITY_INFO then
        (let errno_old = ds_errno s;
             s = write_stderr a (debug_line b (DEBUG_COLOR_YELLOW b) ''INFO'' pos body) s
         in s\<lparr>ds_errno := errno_old\<rparr>)
      else s)"

definition DEBUG_WARN ::
  "debug_build \<Rightarrow> output_answer \<Rightarrow> source_position \<Rightarrow> string \<Rightarrow> debug_state \<Rightarrow> debug_state" where
  "DEBUG_WARN b a pos body s =
     (if DEBUG_VERBOSITY b \<ge> DEBUG_VERBOSITY_WARN then
        (let errno_old = ds_errno s;
             s = write_stderr a (debug_line b (DEBUG_COLOR_YELLOW b) ''WARN'' pos body) s
         in s\<lparr>ds_errno := errno_old\<rparr>)
      else s)"

definition DEBUG_ERROR ::
  "debug_build \<Rightarrow> output_answer \<Rightarrow> source_position \<Rightarrow> string \<Rightarrow> debug_state \<Rightarrow> debug_state" where
  "DEBUG_ERROR b a pos body s =
     (if DEBUG_VERBOSITY b \<ge> DEBUG_VERBOSITY_ERROR then
        (let errno_old = ds_errno s;
             s = write_stderr a (debug_line b (DEBUG_COLOR_RED b) ''ERROR'' pos body) s
         in s\<lparr>ds_errno := errno_old\<rparr>)
      else s)"

definition DEBUG_ERRNO ::
  "debug_build \<Rightarrow> (int \<Rightarrow> string) \<Rightarrow> output_answer \<Rightarrow> string \<Rightarrow> debug_state \<Rightarrow> debug_state" where
  "DEBUG_ERRNO b describe a msg s =
     (if DEBUG_VERBOSITY b \<ge> DEBUG_VERBOSITY_ERROR then
        perror describe a (DEBUG_COLOR_RED b @ ''ERROR: '' @ DEBUG_COLOR_RESET b @ msg) s
      else s)"

section \<open>What they do to errno\<close>

datatype debug_call =
    CallsTrace output_answer source_position string
  | CallsDebug output_answer source_position string
  | CallsInfo output_answer source_position string
  | CallsWarn output_answer source_position string
  | CallsError output_answer source_position string

fun debug_step :: "debug_build \<Rightarrow> debug_call \<Rightarrow> debug_state \<Rightarrow> debug_state" where
  "debug_step b (CallsTrace a pos body) = DEBUG_TRACE b a pos body"
| "debug_step b (CallsDebug a pos body) = DEBUG_DEBUG b a pos body"
| "debug_step b (CallsInfo a pos body) = DEBUG_INFO b a pos body"
| "debug_step b (CallsWarn a pos body) = DEBUG_WARN b a pos body"
| "debug_step b (CallsError a pos body) = DEBUG_ERROR b a pos body"

fun debug_level :: "debug_call \<Rightarrow> int" where
  "debug_level (CallsTrace a pos body) = DEBUG_VERBOSITY_TRACE"
| "debug_level (CallsDebug a pos body) = DEBUG_VERBOSITY_DEBUG"
| "debug_level (CallsInfo a pos body) = DEBUG_VERBOSITY_INFO"
| "debug_level (CallsWarn a pos body) = DEBUG_VERBOSITY_WARN"
| "debug_level (CallsError a pos body) = DEBUG_VERBOSITY_ERROR"

lemmas debug_macro_defs =
  DEBUG_TRACE_def DEBUG_DEBUG_def DEBUG_INFO_def DEBUG_WARN_def DEBUG_ERROR_def

lemma debug_step_errno [simp]: "ds_errno (debug_step b c s) = ds_errno s"
  by (cases c) (simp_all add: debug_macro_defs Let_def)

lemma debug_step_quiet: "DEBUG_VERBOSITY b < debug_level c \<Longrightarrow> debug_step b c s = s"
  by (cases c) (simp_all add: debug_macro_defs)

lemma debug_fold_errno: "ds_errno (fold (debug_step b) cs s) = ds_errno s"
  by (induction cs arbitrary: s) simp_all

lemma debug_fold_quiet:
  "fold (debug_step b) cs s = fold (debug_step b) (filter (\<lambda>c. debug_level c \<le> DEBUG_VERBOSITY b) cs) s"
  by (induction cs arbitrary: s) (simp_all add: debug_step_quiet)

lemma DEBUG_ERRNO_errno:
  "ds_errno (DEBUG_ERRNO b describe a msg s) = ds_errno s \<longleftrightarrow>
     DEBUG_VERBOSITY b < DEBUG_VERBOSITY_ERROR \<or> oa_errno a \<in> {None, Some (ds_errno s)}"
  by (auto simp: DEBUG_ERRNO_def perror_def write_stderr_def split: option.splits)

text \<open>C36: debug output does not change what the code does. In any build and whatever \<open>fprintf\<close> does,
  the status that \<open>STATUS_FROM_ERRNO\<close> makes after any number of \<open>DEBUG_TRACE\<close>, \<open>..._DEBUG\<close>,
  \<open>..._INFO\<close>, \<open>..._WARN\<close> and \<open>..._ERROR\<close> is the one of the call that failed before them, and
  macros above the verbosity of the build have no effect. After \<open>DEBUG_ERRNO\<close>, which does not save
  \<open>errno\<close>, it is the one of the failed call exactly in a quiet build or if \<open>perror\<close> has left
  \<open>errno\<close> as it was.\<close>

theorem debug_output_and_errno:
  "STATUS_FROM_ERRNO (ds_errno (fold (debug_step b) cs s)) = STATUS_FROM_ERRNO (ds_errno s)
   \<and> fold (debug_step b) cs s =
       fold (debug_step b) (filter (\<lambda>c. debug_level c \<le> DEBUG_VERBOSITY b) cs) s
   \<and> (STATUS_FROM_ERRNO (ds_errno (DEBUG_ERRNO b describe a msg s)) = STATUS_FROM_ERRNO (ds_errno s) \<longleftrightarrow>
        DEBUG_VERBOSITY b < DEBUG_VERBOSITY_ERROR \<or> oa_errno a \<in> {None, Some (ds_errno s)})"
  using debug_fold_errno [of b cs s] debug_fold_quiet [of b cs s] DEBUG_ERRNO_errno [of b describe a msg s]
  by simp

end
