(* ===== verification/Spec2Isabelle.thy ===== *)
theory Spec2Isabelle
  imports ES_Client ES_NextClient ES_HaskellMain ES_Debug
begin

text \<open>
  A verification development for the C library \<open>eventlog-socket\<close>.

  \<^bold>\<open>The program.\<close> The library sends the event log of a GHC program to a client over a Unix domain
  or TCP socket, and executes commands that the client sends back. Three threads share a state
  under one mutex (\<open>g_mutex\<close>): threads of the RTS write blocks of the event log through
  \<open>EventLogSocketWriter\<close>; the worker thread accepts clients, starts and stops event logging and
  writes the blocks that could not be written directly; the control thread receives bytes from
  the client and gives them to the command parser, which calls the handlers in the registry.

  \<^bold>\<open>Conventions.\<close> A function of the code is a function of the same name on an explicit state, with
  the branches of the code in their order. Its result is an \<open>outcome\<close> (\<open>ES_Prelude\<close>): it returns,
  ends its thread (\<open>pthread_exit\<close>), aborts (a failed \<open>assert\<close> in a build without \<open>NDEBUG\<close>),
  crashes (undefined behaviour), or never returns. What the system, the allocator and the GHC RTS
  answer is an argument (the records named \<open>..._env\<close>), and what is assumed of it is a predicate
  named \<open>..._env_ok\<close>, with a witness that it can hold. Other threads run where the code waits or
  leaves a critical section: there the environment holds a function on the shared state.
  Loops that may not end are \<open>partial_function (option)\<close>, with \<open>None\<close> for "runs for ever"; no
  fuel is used, and the theorems that such a loop returns are proved as such. Bytes, lengths of
  namespaces, positions in a chunk and sizes are words of their width; sums of lengths that the
  code keeps in \<open>size_t\<close> for allocated memory are natural numbers.

  \<^bold>\<open>The theories\<close>, in the order of their imports (\<open>cbits/eventlog_socket/\<close> unless said otherwise):
  \<^item> \<open>ES_Prelude\<close>: machine types, outcomes, mutexes, \<open>string.h\<close>, runs of operations, and the
    locales \<open>state_ops\<close>, \<open>total_state_ops\<close> and \<open>refining_ops\<close> (an invariant kept by every
    operation; operations that also return; operations that also refine an abstract machine),
    interpreted in the theories below on the operations of the model; \<open>exit_rules\<close> and
    \<open>keep_rules\<close> follow the structure of a function body.
  \<^item> \<open>ES_Status\<close>: the statuses of \<open>eventlog_socket.h\<close>, the macros of \<open>error.h\<close>, \<open>string.c\<close>,
    \<open>error.c\<close>.
  \<^item> \<open>ES_ControlState\<close>, \<open>ES_Registry\<close>: the data, the builtin handlers and the namespace and command
    registry of \<open>control.c\<close>: what is registered resolves, what is refused, and the registration
    of a third command, which does not return.
  \<^item> \<open>ES_Parser\<close>, \<open>ES_ParserSpec\<close>, \<open>ES_ParserStream\<close>, \<open>ES_ParserLimits\<close>: the command parser of
    \<open>control.c\<close>, a byte-at-a-time automaton of the protocol that it refines, the round trip with
    the encoder of the Haskell package \<open>eventlog-socket-control\<close>, and its behaviour on noise, on
    unsupported versions, on unknown namespaces and on full chunks.
  \<^item> \<open>ES_WriteBuffer\<close>: \<open>write_buffer.c\<close> on an explicit heap, a refinement of a list queue.
  \<^item> \<open>ES_Hooks\<close>: \<open>hooks.c\<close>.
  \<^item> \<open>ES_Writer\<close>: the shared state \<open>es_state\<close> (the globals of \<open>eventlog_socket.c\<close> and \<open>worker.c\<close>,
    with traces of what has been sent, closed and called) and the four functions of
    \<open>EventLogSocketWriter\<close> (\<open>cbits/eventlog_socket.c\<close>).
  \<^item> \<open>ES_Worker\<close>: the steps of the worker (\<open>worker.c\<close>). \<open>ES_Stream\<close>: the event stream under any
    interleaving of writer and worker. \<open>ES_Connect\<close>: what happens when a client connects.
  \<^item> \<open>ES_Config\<close>: addresses, options and \<open>eventlog_socket_from_env\<close> (\<open>cbits/eventlog_socket.c\<close>),
    with a heap for the strings.
  \<^item> \<open>ES_Socket\<close>, \<open>ES_WorkerLife\<close>: the sockets, the start, the loop and the cleanup of the worker,
    with the system calls in order; how the worker ends and what it leaves open.
  \<^item> \<open>ES_Shared\<close>: the shared state stays well formed in any order of writer calls and worker steps;
    the direct write compared with the queue.
  \<^item> \<open>ES_ControlLoop\<close>, \<open>ES_ControlLife\<close>: the loop of the control thread (\<open>control.c\<close>) on the joint
    state \<open>system\<close>, refined to an automaton over the clients seen and the chunks received; how the
    thread ends, and when it loses or mixes commands.
  \<^item> \<open>ES_Init\<close>: start and cleanup of the control thread, \<open>eventlog_socket_init\<close>, \<open>..._wait\<close>,
    \<open>..._signal_ghc_rts_ready\<close>, \<open>..._start\<close>, \<open>..._wrap_hs_main\<close> (\<open>cbits/eventlog_socket.c\<close>).
  \<^item> \<open>ES_System\<close>: the whole program as an inductive transition system of RTS threads, worker, control
    thread and user threads, whose transitions are the operations that return; well-formedness of
    every reachable state, safety of every operation there up to one race of debug builds
    (\<open>hangup_race\<close> in \<open>ES_Shared\<close>), and permanence of registrations, by rule induction.
  \<^item> \<open>ES_Phase\<close>: the locale \<open>phase\<close> (an invariant of the shared state that the operations of a phase
    keep, and what the RTS writes in it; extended to runs of the whole program) and the contract
    \<open>unconnected_phase\<close> of the phases without a client, a \<open>sublocale\<close> of it. They are interpreted in the
    next four theories.
  \<^item> \<open>ES_Service\<close>: what the whole program does for a client while the connection lasts: in any
    interleaving the event stream is delivered and the client's commands are executed, in order.
  \<^item> \<open>ES_FirstClient\<close>: the phases of a program that attaches the writer before the RTS starts: no
    client yet, the first connection, the service of that client; it gets the log from the start.
  \<^item> \<open>ES_Restart\<close>: the contract \<open>restart_phase\<close> (it extends \<open>unconnected_phase\<close>) of the phases before a
    connection for which event logging is restarted, and that connection. \<open>ES_NextClient\<close>: its two
    interpretations, the time between two clients and a program started by \<open>eventlog_socket_start\<close>;
    the end of a connection; the client gets a fresh log and nothing else.
  \<^item> \<open>ES_Interface\<close>: the functions that depend on the control feature, and \<open>hsapi.c\<close>.
  \<^item> \<open>ES_Haskell\<close>: the Haskell package \<open>eventlog-socket\<close> (\<open>GHC.Eventlog.Socket\<close>), a client of \<open>hsapi.c\<close>:
    marshalling, exceptions and what it frees. \<open>ES_HaskellMain\<close>: \<open>startFromEnv\<close> and the programs that
    use it (\<open>examples/custom-command\<close>, \<open>examples/fibber\<close>, \<open>examples/oddball\<close>), up to their workload.
  \<^item> \<open>ES_Client\<close>: the Haskell package \<open>eventlog-socket-control\<close>: namespaces and commands, the
    decoder also of streams of messages, and what the messages make the C library do (the encoder
    is in \<open>ES_ParserStream\<close>).
  \<^item> \<open>ES_Debug\<close>: the macros of \<open>debug.h\<close> and what they do to \<open>errno\<close>.
  \<^item> \<open>ES_Example\<close>: the C mains of \<open>examples/custom-command-c-main\<close> (a client of registry and
    parser) and \<open>examples/fibber-c-main\<close> (a client of the hooks and the environment).

  \<^bold>\<open>What the properties show.\<close> On a connection that does not break, the client receives the event
  stream in order and without loss, the first client also what was written before it connected, a
  later client a log that is started for it; the worker's and
  the control thread's loops keep running, end only with a reported error, and follow the
  descriptor numbers of the clients; commands of registered namespaces are executed exactly as
  sent, for any cut into chunks of at most 255 bytes; the registry, the
  hooks and the write buffer implement their abstract data types; setup performs its system calls
  once and in order. Where the code does not do what it means to do, a theorem states what it
  does.

  \<^bold>\<open>Bounds of the properties.\<close> \<open>recv\<close> delivers up to \<open>CHUNK_SIZE\<close> = 256 bytes, but the theorems on the
  parser and on whole runs assume at most 255 (\<open>chunk_ok\<close>, \<open>ctl_env_ok\<close>), since a full chunk that begins
  inside a namespace hangs or aborts (\<open>full_chunk_stops_control_thread\<close>). The reference automaton
  stops at an unknown namespace, after which the code's behaviour depends on the cut
  (\<open>unknown_namespace_depends_on_chunks\<close>). The control thread tells clients apart by their descriptor
  number only: where a theorem needs a new number it says so (\<open>same_descriptor_joins_messages\<close> is the
  other case). The runs of \<open>ES_System\<close> consist of operations that return. An operation that hangs or
  ends its thread is no transition, so its effects on the others are not followed: the
  registration of a third command (\<open>third_command_never_returns\<close>) and a handler that registers
  (\<open>registration_in_handler_deadlocks\<close>) leave the registry's mutex locked, \<open>failed_wake_ends_rts_thread\<close>
  leaves \<open>g_mutex\<close> locked. Two properties state behaviour that the repository documents otherwise and
  say so: \<open>from_env_by_variables\<close> and \<open>haskell_from_env_by_variables\<close>.

  \<^bold>\<open>Not modelled.\<close> The calls of the debug macros in the functions of the program (\<open>ES_Debug\<close> models
  the macros; in the other theories the \<open>errno\<close> of an answer is the one that is read after the debug
  output); \<open>pthread_testcancel\<close> and cancellation inside a step (a cancelled thread does nothing more);
  the \<open>pthread_t\<close> objects beyond their allocation; the \<open>free\<close> of the parser's copy of a namespace
  name; registrations by other threads inside a run of the control thread's loop in
  \<open>ES_ControlLoop\<close> (\<open>ES_System\<close> interleaves them with its iterations); \<open>freeaddrinfo\<close> and
  \<open>getnameinfo\<close>, whose results are not used; the two \<open>fcntl\<close> calls on an accepted descriptor
  (\<open>worker.c:239-246\<close>), whose failures the code ignores; of the Haskell packages the texts of
  \<open>displayException\<close>; the workloads of the Haskell examples (traces and computations of their own) and
  the tests, which run these programs from outside.
\<close>

end
